(* ===== verification/Go_Prelude.thy ===== *)
theory Go_Prelude
  imports Main "HOL-Library.AList" "HOL-Library.Sublist" "HOL-Library.Word"
begin

text \<open>
  What the other theories share: the part of the Go language and of its standard library that
  the sources of lok8s use.  Go strings and byte slices are byte sequences, here \<^typ>\<open>string\<close>
  (a list of 8-bit characters).  A Go map is an association list whose order is the iteration
  order (unspecified in Go: the lemmas hold for every order); a map that may be nil is an
  \<open>option\<close> of one.  Signed machine integers are \<^typ>\<open>int\<close> with the wrap-around written out.
\<close>

section \<open>Collections of facts\<close>

named_theorems go_map \<open>lookup after an update or a deletion of a Go map\<close>
named_theorems go_str \<open>equations for the string functions\<close>

section \<open>Names of the model's types\<close>

type_synonym bytes = string

type_synonym ('k, 'v) tbl = "('k \<times> 'v) list"

type_synonym 'v gomap = "(string, 'v) tbl option"

type_synonym time = int

section \<open>Errors\<close>

text \<open>
  One constructor per error value the sources make, with the values its text is made of; an
  error wrapped with \<open>%w\<close> is an argument.  \<open>EExt\<close> is an error of a library or of the operating
  system; \<open>EPanicIndex\<close> and \<open>EPanicTicker\<close> are run-time panics, and \<open>EOutOfFuel\<close> marks the one
  recursion that runs on fuel.
\<close>

datatype goerror =
    EExt string
  | ENoFreePorts int int
  | ENoPortAllocated string
  | EPortAllocated int string
  | EEmptyManifest
  | EJsonDecode goerror
  | EYamlDecode goerror
  | ENameRequired
  | EBothAnnotations string
  | EAnnotationEmpty string
  | ENoEngineConfig string
  | EOpenDB goerror
  | ECreateBucket string goerror
  | EBucketNotFound string
  | EMarshal goerror
  | EUnmarshal goerror
  | ENoEngine string
  | EExecutableNotFound string
  | EAlreadyRunning string
  | EStartProc string string goerror
  | EProcNotFound string
  | EReadWasm goerror
  | EUIDRequired
  | EVolumeDir string goerror
  | EVolumeConfigMap string string
  | EVolumeConfigKey string string goerror
  | EVolumeSecret string string
  | EVolumeSecretKey string string goerror
  | EAlreadyManaged string
  | ENotManaged string string
  | EAllocPort goerror
  | EContainerPort string
  | EProjectVolumes goerror
  | EInitContainers goerror
  | EInitContainer string goerror
  | EServiceNoPorts string
  | EBindAndAllocate int goerror
  | EBindDynamic int goerror
  | ELaunchPod string goerror
  | EDeletePod string goerror
  | EOutOfFuel
  | EPanicIndex int nat
  | EPanicTicker
  | EUnknownKind string

section \<open>Maps\<close>

text \<open>
  Maps that are never nil (\<open>sync.Map\<close>, the maps a constructor makes): a table.  The library
  gives \<^const>\<open>map_of\<close>, \<^const>\<open>AList.update\<close> and \<^const>\<open>AList.delete\<close>.
\<close>

abbreviation tlookup :: "('k, 'v) tbl \<Rightarrow> 'k \<Rightarrow> 'v option" where
  "tlookup t k \<equiv> map_of t k"

abbreviation tstore :: "'k \<Rightarrow> 'v \<Rightarrow> ('k, 'v) tbl \<Rightarrow> ('k, 'v) tbl" where
  "tstore k v t \<equiv> AList.update k v t"

abbreviation tdelete :: "'k \<Rightarrow> ('k, 'v) tbl \<Rightarrow> ('k, 'v) tbl" where
  "tdelete k t \<equiv> AList.delete k t"

definition tdistinct :: "('k, 'v) tbl \<Rightarrow> bool" where
  "tdistinct t = distinct (map fst t)"

text \<open>Maps of struct fields, which may be nil: reading a nil map gives the zero value.\<close>

definition mentries :: "'v gomap \<Rightarrow> (string, 'v) tbl" where
  "mentries m = (case m of None \<Rightarrow> [] | Some t \<Rightarrow> t)"

definition mlookup :: "'v gomap \<Rightarrow> string \<Rightarrow> 'v option" where
  "mlookup m k = map_of (mentries m) k"

definition mget :: "string gomap \<Rightarrow> string \<Rightarrow> string" where
  "mget m k = (case mlookup m k of None \<Rightarrow> [] | Some v \<Rightarrow> v)"

definition mput :: "string \<Rightarrow> 'v \<Rightarrow> 'v gomap \<Rightarrow> 'v gomap" where
  "mput k v m = Some (AList.update k v (mentries m))"

definition mput_all :: "(string, 'v) tbl \<Rightarrow> 'v gomap \<Rightarrow> 'v gomap" where
  "mput_all kvs m = fold (\<lambda>(k, v). mput k v) kvs m"

definition mlen :: "'v gomap \<Rightarrow> nat" where
  "mlen m = length (mentries m)"

definition mdistinct :: "'v gomap \<Rightarrow> bool" where
  "mdistinct m = distinct (map fst (mentries m))"

lemma tlookup_tstore [simp, go_map]:
  "tlookup (tstore k v t) k' = (if k' = k then Some v else tlookup t k')"
  by (simp add: update_conv')

lemma tlookup_tdelete [simp, go_map]:
  "tlookup (tdelete k t) k' = (if k' = k then None else tlookup t k')"
  by (simp add: delete_conv')

lemma tdistinct_Nil [simp]: "tdistinct []"
  by (simp add: tdistinct_def)

lemma tdistinct_tstore [simp]: "tdistinct t \<Longrightarrow> tdistinct (tstore k v t)"
  by (simp add: tdistinct_def distinct_update)

lemma tdistinct_tdelete [simp]: "tdistinct t \<Longrightarrow> tdistinct (tdelete k t)"
  by (simp add: tdistinct_def distinct_delete)

lemma tlookup_in_set: "tdistinct t \<Longrightarrow> (k, v) \<in> set t \<longleftrightarrow> tlookup t k = Some v"
  by (simp add: tdistinct_def)

lemma tvalues_iff: "tdistinct t \<Longrightarrow> v \<in> snd ` set t \<longleftrightarrow> (\<exists>k. tlookup t k = Some v)"
  by (force simp: tlookup_in_set [symmetric])

lemma mentries_simps [simp]: "mentries None = []" "mentries (Some t) = t"
  by (simp_all add: mentries_def)

lemma mentries_mput [simp]: "mentries (mput k v m) = AList.update k v (mentries m)"
  by (simp add: mput_def)

lemma mlookup_mput [simp, go_map]:
  "mlookup (mput k v m) k' = (if k' = k then Some v else mlookup m k')"
  by (simp add: mlookup_def)

lemma mdistinct_mput [simp]: "mdistinct m \<Longrightarrow> mdistinct (mput k v m)"
  by (simp add: mdistinct_def distinct_update)

lemma mget_mput [simp, go_map]: "mget (mput k v m) k' = (if k' = k then v else mget m k')"
  by (simp add: mget_def)

lemma mlookup_mput_all [go_map]:
  "distinct (map fst kvs) \<Longrightarrow>
   mlookup (mput_all kvs m) k = (case map_of kvs k of None \<Rightarrow> mlookup m k | Some v \<Rightarrow> Some v)"
proof (induction kvs arbitrary: m)
  case Nil
  then show ?case by (simp add: mput_all_def)
next
  case (Cons kv kvs)
  obtain a b where kv: "kv = (a, b)" by (cases kv)
  have step: "mput_all (kv # kvs) m = mput_all kvs (mput a b m)"
    by (simp add: mput_all_def kv)
  have "a \<notin> fst ` set kvs" using Cons.prems by (simp add: kv)
  then have "map_of kvs a = None" by (simp add: map_of_eq_None_iff)
  with Cons show ?case
    unfolding step by (cases "map_of kvs k") (auto simp: kv)
qed

lemma mput_all_not_nil: "kvs \<noteq> [] \<Longrightarrow> \<exists>t. mput_all kvs m = Some t"
proof (induction kvs arbitrary: m)
  case (Cons kv kvs)
  then show ?case
    by (cases "kvs = []") (auto simp: mput_all_def mput_def split: prod.splits)
qed simp

section \<open>Strings\<close>

text \<open>
  \<open>cut_str sep s\<close> is \<open>s\<close> before and after the first occurrence of \<open>sep\<close>
  (\<open>strings.Index\<close>); \<open>Split\<close>, \<open>Contains\<close> and \<open>ReplaceAll\<close> of package \<open>strings\<close>
  are built on it.  Every separator of the sources is non-empty.
\<close>

fun cut_str :: "string \<Rightarrow> string \<Rightarrow> (string \<times> string) option" where
  "cut_str sep [] = (if sep = [] then Some ([], []) else None)"
| "cut_str sep (c # cs) =
     (if prefix sep (c # cs) then Some ([], drop (length sep) (c # cs))
      else map_option (\<lambda>(a, b). (c # a, b)) (cut_str sep cs))"

lemma cut_str_Some: "cut_str sep s = Some (a, b) \<Longrightarrow> s = a @ sep @ b"
proof (induction sep s arbitrary: a b rule: cut_str.induct)
  case (1 sep)
  then show ?case by (simp split: if_splits)
next
  case (2 sep c cs)
  show ?case
  proof (cases "prefix sep (c # cs)")
    case True
    then have "c # cs = sep @ drop (length sep) (c # cs)" by (auto simp: prefix_def)
    with 2(2) True show ?thesis by simp
  next
    case False
    with 2 show ?thesis by (auto split: option.splits)
  qed
qed

function split_str :: "string \<Rightarrow> string \<Rightarrow> string list" where
  "split_str sep s =
     (if sep = [] then [s]
      else case cut_str sep s of None \<Rightarrow> [s] | Some (a, b) \<Rightarrow> a # split_str sep b)"
  by pat_completeness auto
termination
  by (relation "measure (\<lambda>(sep, s). length s)") (auto dest!: cut_str_Some)

declare split_str.simps [simp del]

fun join_str :: "string \<Rightarrow> string list \<Rightarrow> string" where
  "join_str sep [] = []"
| "join_str sep [x] = x"
| "join_str sep (x # y # ys) = x @ sep @ join_str sep (y # ys)"

definition Contains :: "string \<Rightarrow> string \<Rightarrow> bool" where
  "Contains s sub \<longleftrightarrow> cut_str sub s \<noteq> None"

definition HasPrefix :: "string \<Rightarrow> string \<Rightarrow> bool" where
  "HasPrefix s p \<longleftrightarrow> take (length p) s = p"

definition TrimPrefix :: "string \<Rightarrow> string \<Rightarrow> string" where
  "TrimPrefix s p = (if HasPrefix s p then drop (length p) s else s)"

definition HasSuffix :: "string \<Rightarrow> string \<Rightarrow> bool" where
  "HasSuffix s p \<longleftrightarrow> length p \<le> length s \<and> drop (length s - length p) s = p"

definition TrimSuffix :: "string \<Rightarrow> string \<Rightarrow> string" where
  "TrimSuffix s p = (if HasSuffix s p then take (length s - length p) s else s)"

definition ReplaceAll :: "string \<Rightarrow> string \<Rightarrow> string \<Rightarrow> string" where
  "ReplaceAll s old new = join_str new (split_str old s)"

lemma split_str_nonempty [simp]: "split_str sep s \<noteq> []"
  by (subst split_str.simps) (auto split: option.splits)

lemma join_Cons: "xs \<noteq> [] \<Longrightarrow> join_str sep (x # xs) = x @ sep @ join_str sep xs"
  by (cases xs) simp_all

lemma join_split: "join_str sep (split_str sep s) = s"
proof (induction sep s rule: split_str.induct)
  case (1 sep s)
  show ?case
  proof (cases "sep = [] \<or> cut_str sep s = None")
    case True
    then show ?thesis by (subst split_str.simps) auto
  next
    case False
    then obtain a b where ab: "cut_str sep s = Some (a, b)" by auto
    with 1 False have "join_str sep (split_str sep b) = b" by blast
    with False ab cut_str_Some [OF ab] show ?thesis
      by (subst split_str.simps) (simp add: join_Cons)
  qed
qed

text \<open>A one-character separator splits a string that is a concatenation in two.\<close>

lemma prefix_single: "prefix [c] s \<longleftrightarrow> (\<exists>t. s = c # t)"
  by (auto simp: prefix_def)

lemma cut_str_single_None: "cut_str [c] s = None \<longleftrightarrow> c \<notin> set s"
  by (induction s) auto

lemma cut_str_single_append: "c \<notin> set a \<Longrightarrow> cut_str [c] (a @ c # b) = Some (a, b)"
  by (induction a) auto

lemma split_single_none: "c \<notin> set s \<Longrightarrow> split_str [c] s = [s]"
  by (subst split_str.simps) (simp add: cut_str_single_None [symmetric])

lemma split_single_Cons: "c \<notin> set a \<Longrightarrow> split_str [c] (a @ c # b) = a # split_str [c] b"
  by (subst split_str.simps) (simp add: cut_str_single_append)

lemma split_single_append: "split_str [c] (s @ c # t) = split_str [c] s @ split_str [c] t"
proof (induction "length s" arbitrary: s rule: less_induct)
  case less
  show ?case
  proof (cases "c \<in> set s")
    case False
    then show ?thesis by (simp add: split_single_none split_single_Cons)
  next
    case True
    then obtain a b where s: "s = a @ c # b" and a: "c \<notin> set a"
      by (meson split_list_first)
    have "split_str [c] (b @ c # t) = split_str [c] b @ split_str [c] t"
      by (rule less.hyps) (simp add: s)
    with a show ?thesis by (simp add: s split_single_Cons)
  qed
qed

lemma split_single_parts: "p \<in> set (split_str [c] s) \<Longrightarrow> c \<notin> set p"
proof (induction "length s" arbitrary: s rule: less_induct)
  case less
  show ?case
  proof (cases "c \<in> set s")
    case False
    with less.prems show ?thesis by (simp add: split_single_none)
  next
    case True
    then obtain a b where s: "s = a @ c # b" and a: "c \<notin> set a"
      by (meson split_list_first)
    from less.prems have "p = a \<or> p \<in> set (split_str [c] b)"
      by (simp add: s split_single_Cons a)
    with a less.hyps [of b] show ?thesis by (auto simp: s)
  qed
qed

section \<open>Integers\<close>

text \<open>Two's complement wrap-around of \<open>int32\<close> and of \<open>int\<close>, \<open>int64\<close> and \<open>time.Duration\<close>.\<close>

definition wrap32 :: "int \<Rightarrow> int" where
  "wrap32 x = (x + 2 ^ 31) mod 2 ^ 32 - 2 ^ 31"

definition wrap64 :: "int \<Rightarrow> int" where
  "wrap64 x = (x + 2 ^ 63) mod 2 ^ 64 - 2 ^ 63"

definition in32 :: "int \<Rightarrow> bool" where
  "in32 x \<longleftrightarrow> - (2 ^ 31) \<le> x \<and> x < 2 ^ 31"

definition in64 :: "int \<Rightarrow> bool" where
  "in64 x \<longleftrightarrow> - (2 ^ 63) \<le> x \<and> x < 2 ^ 63"

lemma wrap32_id [simp]: "in32 x \<Longrightarrow> wrap32 x = x"
  by (simp add: wrap32_def in32_def)

lemma wrap64_id [simp]: "in64 x \<Longrightarrow> wrap64 x = x"
  by (simp add: wrap64_def in64_def)

lemma wrap64_add: "wrap64 (wrap64 x + y) = wrap64 (x + y)"
proof -
  have "(wrap64 x + y + 2 ^ 63) mod 2 ^ 64 = ((x + 2 ^ 63) mod 2 ^ 64 + y) mod 2 ^ 64"
    by (simp add: wrap64_def algebra_simps)
  also have "\<dots> = (x + 2 ^ 63 + y) mod 2 ^ 64"
    by (rule mod_add_left_eq)
  also have "x + 2 ^ 63 + y = x + y + 2 ^ 63"
    by simp
  finally show ?thesis by (simp add: wrap64_def)
qed

lemma wrap32_in32: "in32 (wrap32 x)"
proof -
  have "0 \<le> (x + 2 ^ 31) mod 2 ^ 32" "(x + 2 ^ 31) mod 2 ^ 32 < (2 ^ 32 :: int)"
    by (rule pos_mod_sign, simp, rule pos_mod_bound, simp)
  then show ?thesis by (simp add: wrap32_def in32_def)
qed

text \<open>
  \<open>Contains\<close> is what its name says; a separator whose first character occurs in neither
  field splits a string into the two fields; a list joined with a character that occurs in no
  element is split into the same list.
\<close>

lemma cut_str_append: "cut_str sep (a @ sep @ b) \<noteq> None"
proof (induction a)
  case Nil
  have "prefix sep (sep @ b)" by simp
  then show ?case by (cases "sep @ b") auto
next
  case (Cons c a)
  then show ?case by auto
qed

lemma Contains_iff: "Contains s sub \<longleftrightarrow> (\<exists>a b. s = a @ sub @ b)"
  unfolding Contains_def by (metis cut_str_Some cut_str_append not_None_eq surj_pair)

lemma cut_str_first: "c \<notin> set a \<Longrightarrow> cut_str (c # cs) (a @ (c # cs) @ b) = Some (a, b)"
  by (induction a) auto

lemma cut_str_none: "c \<notin> set s \<Longrightarrow> cut_str (c # cs) s = None"
  by (induction s) auto

lemma split_two:
  assumes "c \<notin> set a" "c \<notin> set b"
  shows "split_str (c # cs) (a @ (c # cs) @ b) = [a, b]"
proof -
  have "split_str (c # cs) b = [b]"
    by (subst split_str.simps) (simp add: cut_str_none assms(2))
  then show ?thesis
    by (subst split_str.simps) (simp only: cut_str_first [OF assms(1)], simp)
qed

lemma split_join:
  "parts \<noteq> [] \<Longrightarrow> \<forall>x \<in> set parts. c \<notin> set x \<Longrightarrow> split_str [c] (join_str [c] parts) = parts"
proof (induction parts)
  case (Cons x xs)
  then show ?case
    by (cases "xs = []") (auto simp: join_Cons split_single_none split_single_Cons)
qed simp

subsection \<open>Paths\<close>

text \<open>
  \<open>filepath.Clean\<close> and \<open>filepath.Join\<close> on a system whose separator is the slash: empty elements
  and \<open>.\<close> vanish, \<open>..\<close> removes the element before it, is dropped at the root and kept at the
  front of a relative path.
\<close>

fun clean_step :: "bool \<Rightarrow> string \<Rightarrow> string list \<Rightarrow> string list" where
  "clean_step rooted c stack =
     (if c = [] \<or> c = ''.'' then stack
      else if c = ''..'' then
        (case stack of
           [] \<Rightarrow> if rooted then [] else [c]
         | d # ds \<Rightarrow> if d = ''..'' then c # stack else ds)
      else c # stack)"

definition path_clean :: "string \<Rightarrow> string" where
  "path_clean p =
     (let rooted = (p \<noteq> [] \<and> hd p = CHR ''/'');
          comps = rev (fold (clean_step rooted) (split_str ''/'' p) [])
      in if rooted then CHR ''/'' # join_str ''/'' comps
         else if comps = [] then ''.'' else join_str ''/'' comps)"

definition path_join :: "string list \<Rightarrow> string" where
  "path_join ps =
     (let qs = filter (\<lambda>p. p \<noteq> []) ps
      in if qs = [] then [] else path_clean (join_str ''/'' qs))"

subsection \<open>White space\<close>

text \<open>
  \<open>strings.TrimSpace\<close> removes leading and trailing Unicode white space.  A string is UTF-8, so
  the white space characters are byte sequences: the six ASCII ones, U+0085, U+00A0, U+1680,
  U+2000 to U+200A, U+2028, U+2029, U+202F, U+205F and U+3000.
\<close>

definition u8 :: "nat list \<Rightarrow> string" where
  "u8 ns = map char_of ns"

definition spaces :: "string list" where
  "spaces = map (\<lambda>n. u8 [n]) [9, 10, 11, 12, 13, 32] @ [u8 [194, 133], u8 [194, 160],
     u8 [225, 154, 128]] @ map (\<lambda>n. u8 [226, 128, n]) ([128..<139] @ [168, 169, 175]) @
     [u8 [226, 129, 159], u8 [227, 128, 128]]"

definition lead_space :: "string \<Rightarrow> string option" where
  "lead_space s = List.find (\<lambda>w. prefix w s) spaces"

definition trail_space :: "string \<Rightarrow> string option" where
  "trail_space s = List.find (\<lambda>w. suffix w s) spaces"

lemma spaces_nonempty: "w \<in> set spaces \<Longrightarrow> w \<noteq> []"
  by (auto simp: spaces_def u8_def)

lemma lead_space_Some: "lead_space s = Some w \<Longrightarrow> w \<noteq> [] \<and> prefix w s"
  unfolding lead_space_def find_Some_iff by (metis nth_mem spaces_nonempty)

lemma trail_space_Some: "trail_space s = Some w \<Longrightarrow> w \<noteq> [] \<and> suffix w s"
  unfolding trail_space_def find_Some_iff by (metis nth_mem spaces_nonempty)

function trim_left :: "string \<Rightarrow> string" where
  "trim_left s = (case lead_space s of None \<Rightarrow> s | Some w \<Rightarrow> trim_left (drop (length w) s))"
  by pat_completeness auto
termination
  by (relation "measure length") (auto dest!: lead_space_Some prefix_length_le simp flip: length_greater_0_conv)

function trim_right :: "string \<Rightarrow> string" where
  "trim_right s =
     (case trail_space s of None \<Rightarrow> s | Some w \<Rightarrow> trim_right (take (length s - length w) s))"
  by pat_completeness auto
termination
  by (relation "measure length") (auto dest!: trail_space_Some suffix_length_le simp flip: length_greater_0_conv)

declare trim_left.simps [simp del] trim_right.simps [simp del]

definition TrimSpace :: "string \<Rightarrow> string" where
  "TrimSpace s = trim_right (trim_left s)"

text \<open>A string is trimmed when neither end is white space; trimming is the identity on it.\<close>

definition trimmed :: "string \<Rightarrow> bool" where
  "trimmed s \<longleftrightarrow> lead_space s = None \<and> trail_space s = None"

lemma TrimSpace_trimmed: "trimmed s \<Longrightarrow> TrimSpace s = s"
  by (simp add: TrimSpace_def trimmed_def trim_left.simps [of s] trim_right.simps [of s])

lemma lead_space_Nil [simp]: "lead_space [] = None"
  by (auto simp: lead_space_def find_None_iff dest: spaces_nonempty)

lemma trail_space_Nil [simp]: "trail_space [] = None"
  by (auto simp: trail_space_def find_None_iff dest: spaces_nonempty)

lemma trimmed_Nil [simp]: "trimmed []"
  by (simp add: trimmed_def)

lemma TrimSpace_Nil [simp]: "TrimSpace [] = []"
  by (simp add: TrimSpace_trimmed)

lemma trail_space_trim_right: "trail_space (trim_right s) = None"
proof (induction s rule: trim_right.induct)
  case (1 s)
  then show ?case by (subst trim_right.simps) (simp split: option.splits)
qed

lemma lead_space_trim_left: "lead_space (trim_left s) = None"
proof (induction s rule: trim_left.induct)
  case (1 s)
  then show ?case by (subst trim_left.simps) (simp split: option.splits)
qed

lemma trim_right_prefix: "prefix (trim_right s) s"
proof (induction s rule: trim_right.induct)
  case (1 s)
  then show ?case
    by (subst trim_right.simps) (auto split: option.splits intro: prefix_order.trans take_is_prefix)
qed

lemma lead_space_prefix: "prefix t s \<Longrightarrow> lead_space s = None \<Longrightarrow> lead_space t = None"
  by (auto simp: lead_space_def find_None_iff dest: prefix_order.trans)

text \<open>The result of \<open>TrimSpace\<close> is trimmed, so trimming twice is trimming once.\<close>

lemma trimmed_TrimSpace: "trimmed (TrimSpace s)"
  unfolding trimmed_def TrimSpace_def
  by (metis lead_space_prefix lead_space_trim_left trail_space_trim_right trim_right_prefix)

lemma TrimSpace_idem [simp]: "TrimSpace (TrimSpace s) = TrimSpace s"
  by (rule TrimSpace_trimmed [OF trimmed_TrimSpace])

text \<open>
  A string over printable ASCII characters other than the blank is trimmed: every white space
  sequence begins and ends with a byte that is not one of them.
\<close>

definition graphic :: "char \<Rightarrow> bool" where
  "graphic c \<longleftrightarrow> 32 < (of_char c :: nat) \<and> (of_char c :: nat) < 127"

lemma spaces_not_graphic: "w \<in> set spaces \<Longrightarrow> \<not> graphic (hd w) \<and> \<not> graphic (last w)"
  by (auto simp: spaces_def u8_def graphic_def)

lemma trimmed_graphic:
  assumes "s = [] \<or> graphic (hd s) \<and> graphic (last s)"
  shows "trimmed s"
proof (cases "s = []")
  case False
  with assms have g: "graphic (hd s)" "graphic (last s)" by auto
  have "\<not> prefix w s" if "w \<in> set spaces" for w
    using spaces_not_graphic [OF that] spaces_nonempty [OF that] g
    by (auto simp: prefix_def hd_append)
  moreover have "\<not> suffix w s" if "w \<in> set spaces" for w
    using spaces_not_graphic [OF that] spaces_nonempty [OF that] g
    by (auto simp: suffix_def last_append)
  ultimately show ?thesis
    by (simp add: trimmed_def lead_space_def trail_space_def find_None_iff)
qed simp

subsection \<open>Case and numbers\<close>

text \<open>
  \<open>strings.ToUpper\<close> and \<open>strings.ToLower\<close>: byte by byte on an ASCII string; on others the
  mapping of the Unicode tables, the argument \<open>umap\<close>.
\<close>

definition ascii :: "string \<Rightarrow> bool" where
  "ascii s = list_all (\<lambda>c. (of_char c :: nat) < 128) s"

definition upper_char :: "char \<Rightarrow> char" where
  "upper_char c = (if 97 \<le> (of_char c :: nat) \<and> (of_char c :: nat) \<le> 122
     then char_of ((of_char c :: nat) - 32) else c)"

definition lower_char :: "char \<Rightarrow> char" where
  "lower_char c = (if 65 \<le> (of_char c :: nat) \<and> (of_char c :: nat) \<le> 90
     then char_of ((of_char c :: nat) + 32) else c)"

definition ToUpper :: "(string \<Rightarrow> string) \<Rightarrow> string \<Rightarrow> string" where
  "ToUpper umap s = (if ascii s then map upper_char s else umap s)"

definition ToLower :: "(string \<Rightarrow> string) \<Rightarrow> string \<Rightarrow> string" where
  "ToLower lmap s = (if ascii s then map lower_char s else lmap s)"

text \<open>Decimal digits: \<open>%d\<close> of an integer, and \<open>strconv.Atoi\<close> (\<open>None\<close> is its error).\<close>

fun digits_of :: "nat \<Rightarrow> string" where
  "digits_of n = (if n < 10 then [char_of (48 + n)]
     else digits_of (n div 10) @ [char_of (48 + n mod 10)])"

declare digits_of.simps [simp del]

definition itoa :: "int \<Rightarrow> string" where
  "itoa i = (if i < 0 then CHR ''-'' # digits_of (nat (- i)) else digits_of (nat i))"

definition is_digit :: "char \<Rightarrow> bool" where
  "is_digit c \<longleftrightarrow> 48 \<le> (of_char c :: nat) \<and> (of_char c :: nat) \<le> 57"

definition digits_val :: "string \<Rightarrow> nat" where
  "digits_val s = foldl (\<lambda>a c. 10 * a + ((of_char c :: nat) - 48)) 0 s"

definition atoi_digits :: "string \<Rightarrow> nat option" where
  "atoi_digits s = (if s \<noteq> [] \<and> list_all is_digit s then Some (digits_val s) else None)"

definition in_range :: "int \<Rightarrow> int option" where
  "in_range i = (if in64 i then Some i else None)"

fun Atoi :: "string \<Rightarrow> int option" where
  "Atoi [] = None"
| "Atoi (c # cs) =
     (if c = CHR ''-'' then Option.bind (atoi_digits cs) (\<lambda>n. in_range (- int n))
      else if c = CHR ''+'' then Option.bind (atoi_digits cs) (\<lambda>n. in_range (int n))
      else Option.bind (atoi_digits (c # cs)) (\<lambda>n. in_range (int n)))"

lemma digits_of_nonempty [simp]: "digits_of n \<noteq> []"
  by (subst digits_of.simps) simp

lemma digits_of_digits: "list_all is_digit (digits_of n)"
proof (induction n rule: digits_of.induct)
  case (1 n)
  show ?case
  proof (cases "n < 10")
    case True
    then show ?thesis by (subst digits_of.simps) (simp add: is_digit_def)
  next
    case False
    moreover have "is_digit (char_of (48 + n mod 10))"
    proof -
      have "48 + n mod 10 < 256" "n mod 10 < 10" by auto
      then show ?thesis by (simp add: is_digit_def)
    qed
    ultimately show ?thesis using 1 by (subst digits_of.simps) simp
  qed
qed

lemma digits_val_snoc: "digits_val (s @ [c]) = 10 * digits_val s + ((of_char c :: nat) - 48)"
  by (simp add: digits_val_def)

lemma digits_val_digits_of: "digits_val (digits_of n) = n"
proof (induction n rule: digits_of.induct)
  case (1 n)
  show ?case
  proof (cases "n < 10")
    case True
    then show ?thesis by (subst digits_of.simps) (simp add: digits_val_def)
  next
    case False
    have "48 + n mod 10 < 256" by simp
    with False 1 show ?thesis by (subst digits_of.simps) (simp add: digits_val_snoc)
  qed
qed

lemma atoi_digits_of: "atoi_digits (digits_of n) = Some n"
  by (simp add: atoi_digits_def digits_of_digits digits_val_digits_of)

text \<open>Printing an \<open>int\<close> and reading it back gives it again.\<close>

lemma Atoi_itoa: "in64 i \<Longrightarrow> Atoi (itoa i) = Some i"
proof -
  assume i: "in64 i"
  obtain c cs where d: "digits_of (nat i) = c # cs"
    by (cases "digits_of (nat i)") auto
  have "is_digit c" using digits_of_digits [of "nat i"] by (simp add: d)
  then have "c \<noteq> CHR ''-''" "c \<noteq> CHR ''+''" by (auto simp: is_digit_def)
  then have "Atoi (digits_of (nat i)) = Option.bind (atoi_digits (digits_of (nat i))) (\<lambda>n. in_range (int n))"
    by (simp add: d)
  with i show ?thesis
    by (auto simp: itoa_def atoi_digits_of in_range_def)
qed

lemma itoa_inj: "in64 i \<Longrightarrow> in64 j \<Longrightarrow> itoa i = itoa j \<Longrightarrow> i = j"
  by (metis Atoi_itoa option.inject)

end
