(* ===== verification/Types.thy ===== *)
theory Types
  imports Go_Prelude
begin

text \<open>
  The API objects of \<open>types/types.go\<close>: one record per struct, in the order of the file, with the
  Go field names behind a prefix per struct (record fields share one name space).  A pointer is
  an \<open>option\<close>, a slice a list (a nil slice is the empty list), a \<open>map[string]T\<close> a map that may
  be nil, an embedded struct a field.  The string types \<open>PodPhase\<close> and \<open>RestartPolicy\<close> are
  strings, as in the code: a manifest may carry any value.
\<close>

section \<open>Metadata\<close>

record TypeMeta =
  tm_APIVersion :: string
  tm_Kind :: string

record ObjectMeta =
  om_Name :: string
  om_Namespace :: string
  om_UID :: string
  om_Annotations :: "string gomap"
  om_Labels :: "string gomap"
  om_CreationTimestamp :: time
  om_ResourceVersion :: string

section \<open>Containers and probes\<close>

record EnvVar =
  ev_Name :: string
  ev_Value :: string

record HTTPGetAction =
  hg_Path :: string
  hg_Port :: int
  hg_Scheme :: string

record TCPSocketAction =
  ts_Port :: int

record ExecAction =
  ea_Command :: "string list"

record Probe =
  pb_HTTPGet :: "HTTPGetAction option"
  pb_TCPSocket :: "TCPSocketAction option"
  pb_Exec :: "ExecAction option"
  pb_InitialDelaySeconds :: int
  pb_PeriodSeconds :: int
  pb_TimeoutSeconds :: int
  pb_FailureThreshold :: int
  pb_SuccessThreshold :: int

record ContainerPort =
  cp_Name :: string
  cp_ContainerPort :: int
  cp_Protocol :: string

record VolumeMount =
  vm_Name :: string
  vm_MountPath :: string
  vm_ReadOnly :: bool

record Container =
  c_Name :: string
  c_Image :: string
  c_Command :: "string list"
  c_Args :: "string list"
  c_Env :: "EnvVar list"
  c_Ports :: "ContainerPort list"
  c_VolumeMounts :: "VolumeMount list"
  c_LivenessProbe :: "Probe option"
  c_ReadinessProbe :: "Probe option"

type_synonym RestartPolicy = string

definition RestartAlways :: RestartPolicy where
  "RestartAlways = ''Always''"

definition RestartOnFailure :: RestartPolicy where
  "RestartOnFailure = ''OnFailure''"

definition RestartNever :: RestartPolicy where
  "RestartNever = ''Never''"

section \<open>Pods\<close>

record ConfigMapVolumeSource =
  cv_Name :: string

record SecretVolumeSource =
  sv_SecretName :: string

record Volume =
  v_Name :: string
  v_ConfigMap :: "ConfigMapVolumeSource option"
  v_Secret :: "SecretVolumeSource option"

record PodSpec =
  ps_Containers :: "Container list"
  ps_InitContainers :: "Container list"
  ps_RestartPolicy :: RestartPolicy
  ps_Volumes :: "Volume list"

type_synonym PodPhase = string

definition PodPending :: PodPhase where
  "PodPending = ''Pending''"

definition PodRunning :: PodPhase where
  "PodRunning = ''Running''"

definition PodSucceeded :: PodPhase where
  "PodSucceeded = ''Succeeded''"

definition PodFailed :: PodPhase where
  "PodFailed = ''Failed''"

record ContainerStatus =
  cs_Name :: string
  cs_Ready :: bool
  cs_RestartCount :: int
  cs_State :: string
  cs_ExitCode :: "int option"

record PodCondition =
  pc_Type :: string
  pc_Status :: string

record PodStatus =
  st_Phase :: PodPhase
  st_Message :: string
  st_StartTime :: string
  st_RestartCount :: int
  st_ContainerStatuses :: "ContainerStatus list"
  st_Conditions :: "PodCondition list"
  st_PodIP :: string
  st_HostPort :: int

record Pod =
  pod_TypeMeta :: TypeMeta
  pod_Metadata :: ObjectMeta
  pod_Spec :: PodSpec
  pod_Status :: PodStatus

record PodList =
  pl_TypeMeta :: TypeMeta
  pl_Items :: "Pod list"

section \<open>Services, config maps, secrets\<close>

text \<open>\<open>Service.Status\<close> is an \<open>interface{}\<close> no code reads: its JSON text, if there is one.\<close>

record ServicePort =
  sp_Name :: string
  sp_Protocol :: string
  sp_Port :: int
  sp_TargetPort :: int
  sp_NodePort :: int

record ServiceSpec =
  ss_Ports :: "ServicePort list"
  ss_Selector :: "string gomap"
  ss_Type :: string

record Service =
  svc_TypeMeta :: TypeMeta
  svc_Metadata :: ObjectMeta
  svc_Spec :: ServiceSpec
  svc_Status :: "bytes option"

record ServiceList =
  sl_TypeMeta :: TypeMeta
  sl_Items :: "Service list"

record ConfigMap =
  cm_TypeMeta :: TypeMeta
  cm_Metadata :: ObjectMeta
  cm_Data :: "string gomap"

record ConfigMapList =
  cml_TypeMeta :: TypeMeta
  cml_Items :: "ConfigMap list"

record Secret =
  sec_TypeMeta :: TypeMeta
  sec_Metadata :: ObjectMeta
  sec_Data :: "bytes gomap"
  sec_StringData :: "string gomap"
  sec_Type :: string

record SecretList =
  secl_TypeMeta :: TypeMeta
  secl_Items :: "Secret list"

section \<open>Tables, discovery documents, events\<close>

record RawExtension =
  raw_Raw :: bytes

record TableColumnDefinition =
  tc_Name :: string
  tc_Type :: string
  tc_Format :: string
  tc_Description :: string
  tc_Priority :: int

text \<open>A cell is an \<open>interface{}\<close>; the code puts strings and ints there.\<close>

datatype cell = CStr string | CInt int

record TableRow =
  tr_Cells :: "cell list"
  tr_Object :: RawExtension

record Table =
  tbl_TypeMeta :: TypeMeta
  tbl_ColumnDefinitions :: "TableColumnDefinition list"
  tbl_Rows :: "TableRow list"

record APIGroupList =
  agl_Kind :: string
  agl_APIVersions :: "string list"

record APIResource =
  ar_Name :: string
  ar_Namespaced :: bool
  ar_Kind :: string
  ar_Verbs :: "string list"

record APIResourceList =
  arl_Kind :: string
  arl_GroupVersion :: string
  arl_APIResources :: "APIResource list"

record WatchEvent =
  we_Type :: string
  we_Object :: Pod

record StatusResponse =
  sr_Kind :: string
  sr_Status :: string
  sr_Message :: string
  sr_Reason :: string
  sr_Code :: int

section \<open>Deployments and replica sets\<close>

text \<open>\<open>int32\<close> fields are integers; the arithmetic on them is wrapped where the code does any.\<close>

record LabelSelector =
  ls_MatchLabels :: "string gomap"

record PodTemplateSpec =
  pt_Metadata :: ObjectMeta
  pt_Spec :: PodSpec

record DeploymentSpec =
  ds_Replicas :: "int option"
  ds_Selector :: "LabelSelector option"
  ds_Template :: PodTemplateSpec

record DeploymentStatus =
  dst_Replicas :: int
  dst_UpdatedReplicas :: int
  dst_ReadyReplicas :: int
  dst_AvailableReplicas :: int
  dst_UnavailableReplicas :: int

record Deployment =
  dep_TypeMeta :: TypeMeta
  dep_Metadata :: ObjectMeta
  dep_Spec :: DeploymentSpec
  dep_Status :: DeploymentStatus

record DeploymentList =
  dl_TypeMeta :: TypeMeta
  dl_Items :: "Deployment list"

record ReplicaSetSpec =
  rss_Replicas :: "int option"
  rss_Selector :: "LabelSelector option"
  rss_Template :: PodTemplateSpec

record ReplicaSetStatus =
  rst_Replicas :: int
  rst_FullyLabeledReplicas :: int
  rst_ReadyReplicas :: int
  rst_AvailableReplicas :: int

record ReplicaSet =
  rs_TypeMeta :: TypeMeta
  rs_Metadata :: ObjectMeta
  rs_Spec :: ReplicaSetSpec
  rs_Status :: ReplicaSetStatus

record ReplicaSetList =
  rsl_TypeMeta :: TypeMeta
  rsl_Items :: "ReplicaSet list"

section \<open>Zero values\<close>

text \<open>What a Go composite literal leaves out has its zero value.\<close>

definition zero_TypeMeta :: TypeMeta where
  "zero_TypeMeta = \<lparr>tm_APIVersion = [], tm_Kind = []\<rparr>"

definition zero_ObjectMeta :: ObjectMeta where
  "zero_ObjectMeta = \<lparr>om_Name = [], om_Namespace = [], om_UID = [], om_Annotations = None,
     om_Labels = None, om_CreationTimestamp = 0, om_ResourceVersion = []\<rparr>"

definition zero_Container :: Container where
  "zero_Container = \<lparr>c_Name = [], c_Image = [], c_Command = [], c_Args = [], c_Env = [],
     c_Ports = [], c_VolumeMounts = [], c_LivenessProbe = None, c_ReadinessProbe = None\<rparr>"

definition zero_PodSpec :: PodSpec where
  "zero_PodSpec = \<lparr>ps_Containers = [], ps_InitContainers = [], ps_RestartPolicy = [],
     ps_Volumes = []\<rparr>"

definition zero_PodStatus :: PodStatus where
  "zero_PodStatus = \<lparr>st_Phase = [], st_Message = [], st_StartTime = [], st_RestartCount = 0,
     st_ContainerStatuses = [], st_Conditions = [], st_PodIP = [], st_HostPort = 0\<rparr>"

definition zero_Pod :: Pod where
  "zero_Pod = \<lparr>pod_TypeMeta = zero_TypeMeta, pod_Metadata = zero_ObjectMeta,
     pod_Spec = zero_PodSpec, pod_Status = zero_PodStatus\<rparr>"

definition zero_ServiceSpec :: ServiceSpec where
  "zero_ServiceSpec = \<lparr>ss_Ports = [], ss_Selector = None, ss_Type = []\<rparr>"

definition zero_Service :: Service where
  "zero_Service = \<lparr>svc_TypeMeta = zero_TypeMeta, svc_Metadata = zero_ObjectMeta,
     svc_Spec = zero_ServiceSpec, svc_Status = None\<rparr>"

definition zero_ConfigMap :: ConfigMap where
  "zero_ConfigMap = \<lparr>cm_TypeMeta = zero_TypeMeta, cm_Metadata = zero_ObjectMeta,
     cm_Data = None\<rparr>"

definition zero_Secret :: Secret where
  "zero_Secret = \<lparr>sec_TypeMeta = zero_TypeMeta, sec_Metadata = zero_ObjectMeta,
     sec_Data = None, sec_StringData = None, sec_Type = []\<rparr>"

definition zero_PodTemplateSpec :: PodTemplateSpec where
  "zero_PodTemplateSpec = \<lparr>pt_Metadata = zero_ObjectMeta, pt_Spec = zero_PodSpec\<rparr>"

definition zero_ReplicaSetStatus :: ReplicaSetStatus where
  "zero_ReplicaSetStatus = \<lparr>rst_Replicas = 0, rst_FullyLabeledReplicas = 0,
     rst_ReadyReplicas = 0, rst_AvailableReplicas = 0\<rparr>"

definition zero_DeploymentStatus :: DeploymentStatus where
  "zero_DeploymentStatus = \<lparr>dst_Replicas = 0, dst_UpdatedReplicas = 0, dst_ReadyReplicas = 0,
     dst_AvailableReplicas = 0, dst_UnavailableReplicas = 0\<rparr>"

definition zero_ReplicaSet :: ReplicaSet where
  "zero_ReplicaSet = \<lparr>rs_TypeMeta = zero_TypeMeta, rs_Metadata = zero_ObjectMeta,
     rs_Spec = \<lparr>rss_Replicas = None, rss_Selector = None, rss_Template = zero_PodTemplateSpec\<rparr>,
     rs_Status = zero_ReplicaSetStatus\<rparr>"

definition zero_Deployment :: Deployment where
  "zero_Deployment = \<lparr>dep_TypeMeta = zero_TypeMeta, dep_Metadata = zero_ObjectMeta,
     dep_Spec = \<lparr>ds_Replicas = None, ds_Selector = None, ds_Template = zero_PodTemplateSpec\<rparr>,
     dep_Status = zero_DeploymentStatus\<rparr>"

lemmas phase_defs = PodPending_def PodRunning_def PodSucceeded_def PodFailed_def

lemmas policy_defs = RestartAlways_def RestartOnFailure_def RestartNever_def

lemma phases_distinct [simp]:
  "PodPending \<noteq> PodRunning" "PodPending \<noteq> PodSucceeded" "PodPending \<noteq> PodFailed"
  "PodRunning \<noteq> PodSucceeded" "PodRunning \<noteq> PodFailed" "PodSucceeded \<noteq> PodFailed"
  "PodRunning \<noteq> PodPending" "PodSucceeded \<noteq> PodPending" "PodFailed \<noteq> PodPending"
  "PodSucceeded \<noteq> PodRunning" "PodFailed \<noteq> PodRunning" "PodFailed \<noteq> PodSucceeded"
  by (simp_all add: phase_defs)

section \<open>Object keys\<close>

text \<open>
  Every store indexes its objects by \<open>namespace + "/" + name\<close>.  The key determines namespace
  and name when the namespace holds no slash.
\<close>

definition obj_key :: "string \<Rightarrow> string \<Rightarrow> string" where
  "obj_key ns name = ns @ ''/'' @ name"

definition meta_key :: "ObjectMeta \<Rightarrow> string" where
  "meta_key m = obj_key (om_Namespace m) (om_Name m)"

lemma obj_key_inj:
  assumes "CHR ''/'' \<notin> set ns" "CHR ''/'' \<notin> set ns'" "obj_key ns name = obj_key ns' name'"
  shows "ns = ns' \<and> name = name'"
proof -
  have "cut_str [CHR ''/''] (obj_key ns name) = Some (ns, name)"
    using cut_str_single_append [OF assms(1)] by (simp add: obj_key_def)
  moreover have "cut_str [CHR ''/''] (obj_key ns' name') = Some (ns', name')"
    using cut_str_single_append [OF assms(2)] by (simp add: obj_key_def)
  ultimately show ?thesis by (metis assms(3) option.inject prod.inject)
qed

end
