(* ===== verification/PortPool.thy ===== *)
theory PortPool
  imports Types
begin

text \<open>
  The port pool of \<open>network/portpool.go\<close>: a range of host ports and two maps, from owner to port
  and from port to owner, that mirror each other.  Every method runs under the pool's mutex, so
  each is one atomic function on the record.  The locale \<open>port_allocator\<close> is the contract the
  pool's clients (the lifecycle manager and the proxy manager) rely on.
\<close>

section \<open>Model\<close>

record PortPool =
  pp_minPort :: int
  pp_maxPort :: int
  pp_allocated :: "(string, int) tbl"
  pp_usedPorts :: "(int, string) tbl"

definition NewPortPool :: "int \<Rightarrow> int \<Rightarrow> PortPool" where
  "NewPortPool minPort maxPort =
     \<lparr>pp_minPort = minPort, pp_maxPort = maxPort, pp_allocated = [], pp_usedPorts = []\<rparr>"

text \<open>The \<open>for\<close> loop of \<open>Allocate\<close>: the first port from \<open>port\<close> on that is not used.\<close>

function find_free :: "(int, string) tbl \<Rightarrow> int \<Rightarrow> int \<Rightarrow> int option" where
  "find_free used port maxPort =
     (if port \<le> maxPort
      then (case tlookup used port of
              None \<Rightarrow> Some port
            | Some _ \<Rightarrow> find_free used (port + 1) maxPort)
      else None)"
  by pat_completeness auto
termination
  by (relation "measure (\<lambda>(used, port, maxPort). nat (maxPort + 1 - port))") auto

declare find_free.simps [simp del]

definition Allocate :: "string \<Rightarrow> PortPool \<Rightarrow> (goerror + int) \<times> PortPool" where
  "Allocate oid p =
     (case tlookup (pp_allocated p) oid of
        Some port \<Rightarrow> (Inr port, p)
      | None \<Rightarrow>
         (case find_free (pp_usedPorts p) (pp_minPort p) (pp_maxPort p) of
            Some port \<Rightarrow>
              (Inr port, p\<lparr>pp_allocated := tstore oid port (pp_allocated p),
                           pp_usedPorts := tstore port oid (pp_usedPorts p)\<rparr>)
          | None \<Rightarrow> (Inl (ENoFreePorts (pp_minPort p) (pp_maxPort p)), p)))"

definition Release :: "string \<Rightarrow> PortPool \<Rightarrow> PortPool" where
  "Release oid p =
     (case tlookup (pp_allocated p) oid of
        Some port \<Rightarrow> p\<lparr>pp_allocated := tdelete oid (pp_allocated p),
                       pp_usedPorts := tdelete port (pp_usedPorts p)\<rparr>
      | None \<Rightarrow> p)"

definition Lookup :: "string \<Rightarrow> PortPool \<Rightarrow> goerror + int" where
  "Lookup oid p =
     (case tlookup (pp_allocated p) oid of
        Some port \<Rightarrow> Inr port
      | None \<Rightarrow> Inl (ENoPortAllocated oid))"

definition Reserve :: "string \<Rightarrow> int \<Rightarrow> PortPool \<Rightarrow> goerror option \<times> PortPool" where
  "Reserve oid port p =
     (case tlookup (pp_usedPorts p) port of
        Some owner \<Rightarrow> if owner = oid then (None, p) else (Some (EPortAllocated port owner), p)
      | None \<Rightarrow> (None, p\<lparr>pp_allocated := tstore oid port (pp_allocated p),
                         pp_usedPorts := tstore port oid (pp_usedPorts p)\<rparr>))"

section \<open>The port search\<close>

lemma find_free_Some:
  "find_free used port maxPort = Some q \<Longrightarrow>
   port \<le> q \<and> q \<le> maxPort \<and> tlookup used q = None \<and>
   (\<forall>r. port \<le> r \<and> r < q \<longrightarrow> tlookup used r \<noteq> None)"
proof (induction used port maxPort rule: find_free.induct)
  case (1 used port maxPort)
  show ?case
  proof (cases "port \<le> maxPort \<and> tlookup used port \<noteq> None")
    case True
    with "1.prems" have "find_free used (port + 1) maxPort = Some q"
      by (subst (asm) find_free.simps) (auto split: option.splits)
    with True "1.IH" have rest: "port + 1 \<le> q" "q \<le> maxPort" "tlookup used q = None"
      "\<forall>r. port + 1 \<le> r \<and> r < q \<longrightarrow> tlookup used r \<noteq> None"
      by auto
    moreover have "tlookup used r \<noteq> None" if "port \<le> r" "r < q" for r
      using that True rest(4) by (cases "r = port") auto
    ultimately show ?thesis by auto
  next
    case False
    with "1.prems" show ?thesis
      by (subst (asm) find_free.simps) (auto split: if_splits option.splits)
  qed
qed

lemma find_free_None:
  "find_free used port maxPort = None \<longleftrightarrow>
   (\<forall>r. port \<le> r \<and> r \<le> maxPort \<longrightarrow> tlookup used r \<noteq> None)"
proof (induction used port maxPort rule: find_free.induct)
  case (1 used port maxPort)
  show ?case
  proof (cases "port \<le> maxPort \<and> tlookup used port \<noteq> None")
    case True
    then have "find_free used port maxPort = find_free used (port + 1) maxPort"
      by (subst find_free.simps) (auto split: option.splits)
    moreover have "(\<forall>r. port \<le> r \<and> r \<le> maxPort \<longrightarrow> tlookup used r \<noteq> None) \<longleftrightarrow>
        (\<forall>r. port + 1 \<le> r \<and> r \<le> maxPort \<longrightarrow> tlookup used r \<noteq> None)"
    proof (intro iffI allI impI)
      fix r assume all: "\<forall>r. port + 1 \<le> r \<and> r \<le> maxPort \<longrightarrow> tlookup used r \<noteq> None"
        and r: "port \<le> r \<and> r \<le> maxPort"
      show "tlookup used r \<noteq> None"
        using True all r by (cases "r = port") auto
    qed auto
    ultimately show ?thesis using 1 True by auto
  next
    case False
    then show ?thesis by (subst find_free.simps) auto
  qed
qed

section \<open>The invariant\<close>

text \<open>The two maps are inverse to each other.\<close>

definition pp_inv :: "PortPool \<Rightarrow> bool" where
  "pp_inv p \<longleftrightarrow> tdistinct (pp_allocated p) \<and> tdistinct (pp_usedPorts p) \<and>
     (\<forall>oid port. tlookup (pp_allocated p) oid = Some port \<longleftrightarrow>
                tlookup (pp_usedPorts p) port = Some oid)"

definition pp_in_range :: "PortPool \<Rightarrow> bool" where
  "pp_in_range p \<longleftrightarrow> (\<forall>port oid. tlookup (pp_usedPorts p) port = Some oid \<longrightarrow>
     pp_minPort p \<le> port \<and> port \<le> pp_maxPort p)"

definition pp_holds :: "PortPool \<Rightarrow> string \<Rightarrow> int option" where
  "pp_holds p oid = tlookup (pp_allocated p) oid"

lemma pp_inv_iff: "pp_inv p \<Longrightarrow>
   tlookup (pp_allocated p) oid = Some port \<longleftrightarrow> tlookup (pp_usedPorts p) port = Some oid"
  by (simp add: pp_inv_def)

lemma pp_inv_assign:
  assumes "pp_inv p" "tlookup (pp_allocated p) oid = None" "tlookup (pp_usedPorts p) port = None"
  shows "pp_inv (p\<lparr>pp_allocated := tstore oid port (pp_allocated p),
                   pp_usedPorts := tstore port oid (pp_usedPorts p)\<rparr>)"
  using assms unfolding pp_inv_def by (auto; metis option.distinct(1))

lemma Allocate_cases:
  assumes "Allocate oid p = (r, p')"
  obtains (held) port where "tlookup (pp_allocated p) oid = Some port" "r = Inr port" "p' = p"
  | (fresh) port where "tlookup (pp_allocated p) oid = None"
      "find_free (pp_usedPorts p) (pp_minPort p) (pp_maxPort p) = Some port" "r = Inr port"
      "p' = p\<lparr>pp_allocated := tstore oid port (pp_allocated p),
              pp_usedPorts := tstore port oid (pp_usedPorts p)\<rparr>"
  | (full) "tlookup (pp_allocated p) oid = None"
      "find_free (pp_usedPorts p) (pp_minPort p) (pp_maxPort p) = None"
      "r = Inl (ENoFreePorts (pp_minPort p) (pp_maxPort p))" "p' = p"
proof (cases "tlookup (pp_allocated p) oid")
  case (Some port)
  with assms show thesis by (intro held) (auto simp: Allocate_def)
next
  case alloc: None
  show thesis
  proof (cases "find_free (pp_usedPorts p) (pp_minPort p) (pp_maxPort p)")
    case None
    with alloc assms show thesis by (intro full) (auto simp: Allocate_def)
  next
    case (Some port)
    with alloc assms show thesis by (intro fresh) (auto simp: Allocate_def)
  qed
qed

lemma pp_inv_New [simp]: "pp_inv (NewPortPool lo hi)"
  by (simp add: pp_inv_def NewPortPool_def)

lemma pp_inv_Allocate: "pp_inv p \<Longrightarrow> Allocate oid p = (r, p') \<Longrightarrow> pp_inv p'"
  by (erule Allocate_cases) (auto intro!: pp_inv_assign dest: find_free_Some)

lemma pp_inv_Release: "pp_inv p \<Longrightarrow> pp_inv (Release oid p)"
  unfolding Release_def pp_inv_def by (auto split: option.splits; metis option.inject)

text \<open>\<open>Reserve\<close> keeps the invariant when the owner has no other port yet.\<close>

lemma pp_inv_Reserve:
  assumes "pp_inv p" "pp_holds p oid = None \<or> pp_holds p oid = Some port"
    "Reserve oid port p = (e, p')"
  shows "pp_inv p'"
  using assms
  by (auto simp: Reserve_def pp_holds_def pp_inv_iff intro!: pp_inv_assign split: option.splits if_splits)

lemma pp_in_range_New [simp]: "pp_in_range (NewPortPool lo hi)"
  by (simp add: pp_in_range_def NewPortPool_def)

lemma pp_in_range_Allocate: "pp_in_range p \<Longrightarrow> Allocate oid p = (r, p') \<Longrightarrow> pp_in_range p'"
  by (erule Allocate_cases) (auto simp: pp_in_range_def dest: find_free_Some)

lemma pp_in_range_Release: "pp_in_range p \<Longrightarrow> pp_in_range (Release oid p)"
  by (auto simp: Release_def pp_in_range_def split: option.splits)

section \<open>The contract of a port allocator\<close>

text \<open>
  A client asks for a port for an owner, gives it back and relies on no two owners sharing one.
\<close>

locale port_allocator =
  fixes alloc :: "string \<Rightarrow> 'p \<Rightarrow> (goerror + int) \<times> 'p"
    and release :: "string \<Rightarrow> 'p \<Rightarrow> 'p"
    and holds :: "'p \<Rightarrow> string \<Rightarrow> int option"
    and invar :: "'p \<Rightarrow> bool"
  assumes alloc_held: "\<lbrakk>invar p; holds p oid = Some port\<rbrakk> \<Longrightarrow> alloc oid p = (Inr port, p)"
    and alloc_fresh: "\<lbrakk>invar p; holds p oid = None; alloc oid p = (Inr port, p')\<rbrakk> \<Longrightarrow>
      holds p' = (holds p)(oid \<mapsto> port)"
    and alloc_fail: "\<lbrakk>invar p; alloc oid p = (Inl e, p')\<rbrakk> \<Longrightarrow> p' = p"
    and holds_release: "invar p \<Longrightarrow> holds (release oid p) = (holds p)(oid := None)"
    and exclusive: "\<lbrakk>invar p; holds p oid = Some port; holds p oid' = Some port\<rbrakk> \<Longrightarrow> oid = oid'"
    and invar_alloc: "\<lbrakk>invar p; alloc oid p = (r, p')\<rbrakk> \<Longrightarrow> invar p'"
    and invar_release: "invar p \<Longrightarrow> invar (release oid p)"
begin

lemma alloc_holds: "\<lbrakk>invar p; alloc oid p = (Inr port, p')\<rbrakk> \<Longrightarrow> holds p' oid = Some port"
  by (cases "holds p oid") (auto dest: alloc_fresh alloc_held)

lemma alloc_frame: "\<lbrakk>invar p; alloc oid p = (r, p'); oid' \<noteq> oid\<rbrakk> \<Longrightarrow> holds p' oid' = holds p oid'"
  by (cases "holds p oid"; cases r) (auto dest: alloc_fresh alloc_held alloc_fail)

lemma alloc_idem: "\<lbrakk>invar p; alloc oid p = (Inr port, p')\<rbrakk> \<Longrightarrow> alloc oid p' = (Inr port, p')"
  by (rule alloc_held [OF invar_alloc alloc_holds])

text \<open>The clean-up of a failed start: the port comes back and no other owner is touched.\<close>

lemma alloc_release:
  assumes "invar p" "holds p oid = None" "alloc oid p = (r, p')"
  shows "holds (release oid p') = holds p"
proof (cases r)
  case (Inl e)
  with assms have "p' = p" by (auto dest: alloc_fail)
  with assms show ?thesis by (auto simp: holds_release)
next
  case (Inr port)
  with assms have "holds p' = (holds p)(oid \<mapsto> port)" by (auto dest: alloc_fresh)
  with assms show ?thesis by (auto simp: holds_release invar_alloc)
qed

lemma alloc_exclusive:
  "\<lbrakk>invar p; alloc oid p = (Inr port, p'); oid' \<noteq> oid\<rbrakk> \<Longrightarrow> holds p oid' \<noteq> Some port"
  by (metis alloc_frame alloc_holds exclusive invar_alloc)

end

lemma pp_holds_Allocate:
  "Allocate oid p = (Inr port, p') \<Longrightarrow> pp_holds p oid = None \<Longrightarrow>
   pp_holds p' = (pp_holds p)(oid \<mapsto> port)"
  by (erule Allocate_cases) (auto simp: pp_holds_def fun_eq_iff)

interpretation pool: port_allocator Allocate Release pp_holds pp_inv
proof (unfold_locales, goal_cases)
  case (1 p oid port)
  then show ?case by (simp add: Allocate_def pp_holds_def)
next
  case (2 p oid port p')
  then show ?case by (blast intro: pp_holds_Allocate)
next
  case (3 p oid e p')
  then show ?case by (auto elim: Allocate_cases)
next
  case (4 p oid)
  then show ?case by (auto simp: Release_def pp_holds_def fun_eq_iff split: option.splits)
next
  case (5 p oid port oid')
  then show ?case by (simp add: pp_holds_def pp_inv_iff)
next
  case (6 p oid r p')
  then show ?case by (rule pp_inv_Allocate)
next
  case (7 p oid)
  then show ?case by (rule pp_inv_Release)
qed

section \<open>Properties\<close>

text \<open>
  A history of the pool: what its clients may call, with the guard under which \<open>RecoverState\<close>
  reserves (the owner has no other port yet).
\<close>

datatype pool_op = OpAllocate string | OpRelease string | OpReserve string int

fun pool_step :: "pool_op \<Rightarrow> PortPool \<Rightarrow> PortPool" where
  "pool_step (OpAllocate oid) p = snd (Allocate oid p)"
| "pool_step (OpRelease oid) p = Release oid p"
| "pool_step (OpReserve oid port) p = snd (Reserve oid port p)"

fun op_ok :: "pool_op \<Rightarrow> PortPool \<Rightarrow> bool" where
  "op_ok (OpReserve oid port) p = (pp_holds p oid = None \<or> pp_holds p oid = Some port)"
| "op_ok _ p = True"

fun run_ok :: "pool_op list \<Rightarrow> PortPool \<Rightarrow> bool" where
  "run_ok [] p = True"
| "run_ok (x # xs) p = (op_ok x p \<and> run_ok xs (pool_step x p))"

lemma pool_step_inv: "pp_inv p \<Longrightarrow> op_ok x p \<Longrightarrow> pp_inv (pool_step x p)"
  by (cases x) (auto intro: pp_inv_Release pp_inv_Allocate [OF _ surjective_pairing]
    pp_inv_Reserve [OF _ _ surjective_pairing])

lemma run_inv: "pp_inv p \<Longrightarrow> run_ok xs p \<Longrightarrow> pp_inv (fold pool_step xs p)"
  by (induction xs arbitrary: p) (auto intro: pool_step_inv)

text \<open>\<open>Allocate\<close> is deterministic and complete: it returns the port the owner already has, or
  else the least unused port of the range, and it fails exactly when the owner has none and
  every port of the range is used.\<close>

theorem Allocate_least_free:
  "(fst (Allocate oid p) = Inr port \<longleftrightarrow>
      pp_holds p oid = Some port \<or>
      pp_holds p oid = None \<and> pp_minPort p \<le> port \<and> port \<le> pp_maxPort p \<and>
      tlookup (pp_usedPorts p) port = None \<and>
      (\<forall>r. pp_minPort p \<le> r \<and> r < port \<longrightarrow> tlookup (pp_usedPorts p) r \<noteq> None)) \<and>
   (fst (Allocate oid p) = Inl (ENoFreePorts (pp_minPort p) (pp_maxPort p)) \<longleftrightarrow>
      pp_holds p oid = None \<and>
      (\<forall>r. pp_minPort p \<le> r \<and> r \<le> pp_maxPort p \<longrightarrow> tlookup (pp_usedPorts p) r \<noteq> None))"
proof -
  obtain r p' where a: "Allocate oid p = (r, p')" by fastforce
  from a show ?thesis
  proof (cases rule: Allocate_cases)
    case (held q)
    then show ?thesis by (auto simp: a pp_holds_def)
  next
    case (fresh q)
    note q = find_free_Some [OF fresh(2)]
    have "q = port" if "pp_minPort p \<le> port" "tlookup (pp_usedPorts p) port = None"
      "\<forall>r. pp_minPort p \<le> r \<and> r < port \<longrightarrow> tlookup (pp_usedPorts p) r \<noteq> None"
      using that q by (metis linorder_neqE)
    with q fresh show ?thesis by (auto simp: a pp_holds_def)
  next
    case full
    then show ?thesis by (auto simp: a pp_holds_def find_free_None)
  qed
qed

theorem Allocate_least_free_witness:
  "fst (Allocate ''default/web'' (snd (Allocate ''default/db'' (NewPortPool 30000 32767)))) =
   Inr 30001"
  using Allocate_least_free [of "''default/web''"
    "snd (Allocate ''default/db'' (NewPortPool 30000 32767))" 30001]
  by (auto simp: Allocate_def NewPortPool_def pp_holds_def find_free.simps split: if_splits)

text \<open>No two owners ever hold the same port: after any history of allocations, releases and
  guarded reservations on a new pool, a port that two owners can look up is one owner's.\<close>

theorem port_exclusive:
  assumes "run_ok xs (NewPortPool lo hi)"
    and "Lookup a (fold pool_step xs (NewPortPool lo hi)) = Inr port"
    and "Lookup b (fold pool_step xs (NewPortPool lo hi)) = Inr port"
  shows "a = b"
proof (rule pool.exclusive)
  show "pp_inv (fold pool_step xs (NewPortPool lo hi))"
    using assms(1) by (rule run_inv [OF pp_inv_New])
qed (use assms(2,3) in \<open>auto simp: Lookup_def pp_holds_def split: option.splits\<close>)

theorem port_exclusive_witness:
  "Lookup ''ns/a'' (fold pool_step [OpReserve ''ns/a'' 30000, OpAllocate ''ns/b''] (NewPortPool 30000 32767)) =
     Inr 30000 \<and>
   Lookup ''ns/b'' (fold pool_step [OpReserve ''ns/a'' 30000, OpAllocate ''ns/b''] (NewPortPool 30000 32767)) \<noteq>
     Inr 30000"
proof -
  let ?xs = "[OpReserve ''ns/a'' 30000, OpAllocate ''ns/b'']"
  have ok: "run_ok ?xs (NewPortPool 30000 32767)"
    by (simp add: NewPortPool_def pp_holds_def)
  have a: "Lookup ''ns/a'' (fold pool_step ?xs (NewPortPool 30000 32767)) = Inr 30000"
    by (simp add: NewPortPool_def Reserve_def Allocate_def Lookup_def find_free.simps)
  show ?thesis using port_exclusive [OF ok a, of "''ns/b''"] a by auto
qed

text \<open>The pool is not exhausted early: while fewer owners hold ports than the range has
  ports, \<open>Allocate\<close> succeeds.\<close>

theorem Allocate_succeeds:
  assumes "pp_inv p" "int (length (pp_allocated p)) < pp_maxPort p - pp_minPort p + 1"
  shows "\<exists>port. fst (Allocate oid p) = Inr port"
proof (rule ccontr)
  assume no: "\<not> ?thesis"
  obtain r p' where a: "Allocate oid p = (r, p')" by fastforce
  let ?R = "{pp_minPort p..pp_maxPort p}"
  from a no have none: "find_free (pp_usedPorts p) (pp_minPort p) (pp_maxPort p) = None"
    by (auto elim: Allocate_cases)
  have "?R \<subseteq> snd ` set (pp_allocated p)"
  proof
    fix q assume "q \<in> ?R"
    with none obtain i where "tlookup (pp_usedPorts p) q = Some i"
      by (auto simp: find_free_None)
    then have "tlookup (pp_allocated p) i = Some q" using assms(1) by (simp add: pp_inv_iff)
    then show "q \<in> snd ` set (pp_allocated p)" by (force dest: map_of_SomeD)
  qed
  then have "card ?R \<le> card (snd ` set (pp_allocated p))"
    by (rule card_mono [rotated]) simp
  also have "\<dots> \<le> length (pp_allocated p)"
    by (rule order_trans [OF card_image_le card_length]) simp
  finally show False using assms(2) by simp
qed

theorem Allocate_succeeds_witness:
  "\<exists>port. fst (Allocate ''ns/a'' (NewPortPool 30000 30000)) = Inr port"
  by (rule Allocate_succeeds) (simp_all add: NewPortPool_def pp_inv_def)

text \<open>A failed start leaves no trace in the pool: allocating for an owner without a port and
  releasing it gives back the same assignment of ports, for every owner.\<close>

theorem Allocate_Release_roundtrip:
  assumes "pp_inv p" "pp_holds p oid = None" "Allocate oid p = (r, p')"
  shows "pp_holds (Release oid p') = pp_holds p \<and> pp_inv (Release oid p')"
  using pool.alloc_release [OF assms] pool.invar_release [OF pool.invar_alloc [OF assms(1,3)]]
  by blast

theorem Allocate_Release_roundtrip_witness:
  "pp_holds (Release ''ns/a'' (snd (Allocate ''ns/a'' (NewPortPool 1 9)))) = pp_holds (NewPortPool 1 9) \<and>
   pp_inv (Release ''ns/a'' (snd (Allocate ''ns/a'' (NewPortPool 1 9))))"
  using Allocate_Release_roundtrip [OF pp_inv_New _ surjective_pairing, of 1 9 "''ns/a''"]
  by (simp add: pp_holds_def NewPortPool_def)

text \<open>A port that is recorded as used but that no owner holds stays so under every operation.\<close>

definition leaked :: "int \<Rightarrow> string \<Rightarrow> PortPool \<Rightarrow> bool" where
  "leaked q oid p \<longleftrightarrow> tlookup (pp_usedPorts p) q = Some oid \<and> (\<forall>i. pp_holds p i \<noteq> Some q)"

lemma leaked_step: "leaked q oid p \<Longrightarrow> leaked q oid (pool_step x p)"
proof (cases x)
  case (OpAllocate i)
  assume l: "leaked q oid p"
  obtain r p' where a: "Allocate i p = (r, p')" by fastforce
  from a l show ?thesis
    by (cases rule: Allocate_cases)
      (auto simp: a OpAllocate leaked_def pp_holds_def split: if_splits dest: find_free_Some)
next
  case (OpRelease i)
  assume "leaked q oid p"
  then show ?thesis
    by (auto simp: OpRelease leaked_def pp_holds_def Release_def split: option.splits if_splits)
next
  case (OpReserve i port)
  assume "leaked q oid p"
  then show ?thesis
    by (auto simp: OpReserve leaked_def pp_holds_def Reserve_def split: option.splits if_splits)
qed

lemma leaked_run: "leaked q oid p \<Longrightarrow> leaked q oid (fold pool_step xs p)"
  by (induction xs arbitrary: p) (auto intro: leaked_step)

text \<open>Reserving a second port for an owner that already has one leaks the first: after the
  reservation, the owner's old port is recorded as used, no owner holds it, and no sequence of
  pool operations ever frees it again.\<close>

theorem Reserve_leaks_port:
  assumes "pp_inv p" "pp_holds p oid = Some q" "tlookup (pp_usedPorts p) port = None"
  shows "pp_holds (snd (Reserve oid port p)) oid = Some port \<and>
    tlookup (pp_usedPorts (fold pool_step xs (snd (Reserve oid port p)))) q = Some oid \<and>
    pp_holds (fold pool_step xs (snd (Reserve oid port p))) i \<noteq> Some q"
proof -
  have used: "tlookup (pp_usedPorts p) q = Some oid"
    using assms(1,2) by (simp add: pp_holds_def pp_inv_iff)
  with assms(3) have "q \<noteq> port" by auto
  have "pp_holds p i \<noteq> Some q" if "i \<noteq> oid" for i
    using that assms(1,2) pool.exclusive by blast
  then have "leaked q oid (snd (Reserve oid port p))"
    using used assms(3) \<open>q \<noteq> port\<close> by (auto simp: leaked_def pp_holds_def Reserve_def)
  from leaked_run [OF this] show ?thesis
    using assms(3) by (auto simp: leaked_def pp_holds_def Reserve_def)
qed

theorem Reserve_leaks_port_witness:
  "tlookup (pp_usedPorts (fold pool_step [OpRelease ''ns/a'']
     (snd (Reserve ''ns/a'' 30005 (snd (Allocate ''ns/a'' (NewPortPool 30000 32767))))))) 30000 =
   Some ''ns/a''"
proof -
  let ?p = "snd (Allocate ''ns/a'' (NewPortPool 30000 32767))"
  have "pp_inv ?p" by (rule pp_inv_Allocate [OF pp_inv_New surjective_pairing])
  moreover have "pp_holds ?p ''ns/a'' = Some 30000" "tlookup (pp_usedPorts ?p) 30005 = None"
    by (simp_all add: Allocate_def NewPortPool_def pp_holds_def find_free.simps)
  ultimately show ?thesis using Reserve_leaks_port by blast
qed

end
