(* ===== verification/Logs.thy ===== *)
theory Logs
  imports Types
begin

text \<open>
  Package \<open>logs\<close>: the ring buffer that keeps the last bytes a pod wrote
  (\<open>logs/ringbuffer.go\<close>) and the writer that puts a prefix before every line
  (\<open>logs/writer.go\<close>).  The buffer is proved to refine the plain history of the bytes written:
  \<open>ReadAll\<close> is its last \<open>capacity\<close> bytes and \<open>TailLines\<close> its last lines.
\<close>

section \<open>Model of the ring buffer\<close>

text \<open>
  \<open>data\<close>, \<open>writePos\<close> and the counters are guarded by \<open>mu\<close>, the subscribers by \<open>subsMu\<close>, so each
  method is atomic on its part.  A subscriber is a channel of capacity 64: the list of the
  chunks sent and not yet received.  \<open>total\<close> is an \<open>int64\<close>.
\<close>

record RingBuffer =
  rb_data :: bytes
  rb_capacity :: nat
  rb_writePos :: nat
  rb_total :: int
  rb_wrapped :: bool
  rb_subs :: "(int, bytes list) tbl"
  rb_nextID :: int

definition DefaultCapacity :: int where
  "DefaultCapacity = 2 ^ 20"

definition NewRingBuffer :: "int \<Rightarrow> RingBuffer" where
  "NewRingBuffer capacity =
     (let c = nat (if capacity \<le> 0 then DefaultCapacity else capacity)
      in \<lparr>rb_data = replicate c (CHR 0x00), rb_capacity = c, rb_writePos = 0, rb_total = 0,
          rb_wrapped = False, rb_subs = [], rb_nextID = 0\<rparr>)"

text \<open>The built-in \<open>copy(dst[off:], src)\<close>: as many bytes as fit.\<close>

definition copy_into :: "'a list \<Rightarrow> nat \<Rightarrow> 'a list \<Rightarrow> 'a list" where
  "copy_into dst off src =
     take off dst @ take (length dst - off) src @ drop (off + length src) dst"

definition chanCap :: nat where
  "chanCap = 64"

text \<open>A send in a \<open>select\<close> with \<open>default\<close>: dropped when the channel is full.\<close>

definition chan_send :: "nat \<Rightarrow> 'a \<Rightarrow> 'a list \<Rightarrow> 'a list" where
  "chan_send cap x q = (if length q < cap then q @ [x] else q)"

definition rb_fill :: "bytes \<Rightarrow> RingBuffer \<Rightarrow> RingBuffer" where
  "rb_fill p rb =
     (let n = length p in
      if n \<ge> rb_capacity rb then
        rb\<lparr>rb_data := copy_into (rb_data rb) 0 (drop (n - rb_capacity rb) p),
           rb_writePos := 0, rb_wrapped := True\<rparr>
      else
        (let remaining = rb_capacity rb - rb_writePos rb in
         if n \<le> remaining then
           (let pos = rb_writePos rb + n;
                rb1 = rb\<lparr>rb_data := copy_into (rb_data rb) (rb_writePos rb) p,
                         rb_writePos := pos\<rparr>
            in if pos = rb_capacity rb then rb1\<lparr>rb_writePos := 0, rb_wrapped := True\<rparr> else rb1)
         else
           rb\<lparr>rb_data := copy_into (copy_into (rb_data rb) (rb_writePos rb) (take remaining p))
                           0 (drop remaining p),
              rb_writePos := n - remaining, rb_wrapped := True\<rparr>))"

definition RingBuffer_Write :: "bytes \<Rightarrow> RingBuffer \<Rightarrow> nat \<times> RingBuffer" where
  "RingBuffer_Write p rb =
     (if p = [] then (0, rb)
      else
        (let rb1 = rb_fill p rb;
             rb2 = rb1\<lparr>rb_total := wrap64 (rb_total rb + int (length p))\<rparr>
         in (length p,
             rb2\<lparr>rb_subs := map (\<lambda>(i, q). (i, chan_send chanCap p q)) (rb_subs rb2)\<rparr>)))"

definition RingBuffer_ReadAll :: "RingBuffer \<Rightarrow> bytes" where
  "RingBuffer_ReadAll rb =
     (if rb_total rb = 0 then []
      else if \<not> rb_wrapped rb then take (rb_writePos rb) (rb_data rb)
      else drop (rb_writePos rb) (rb_data rb) @ take (rb_writePos rb) (rb_data rb))"

text \<open>The loop of \<open>TailLines\<close>; \<open>n\<close> is \<open>i + 1\<close>, the number of bytes not yet looked at.\<close>

fun tail_loop :: "bytes \<Rightarrow> int \<Rightarrow> int \<Rightarrow> nat \<Rightarrow> bytes" where
  "tail_loop all count found 0 = all"
| "tail_loop all count found (Suc i) =
     (if all ! i = CHR 0x0A then
        (if found + 1 \<ge> count then drop (i + 1) all
         else tail_loop all count (found + 1) i)
      else tail_loop all count found i)"

definition RingBuffer_TailLines :: "int \<Rightarrow> RingBuffer \<Rightarrow> bytes" where
  "RingBuffer_TailLines count rb =
     (let all = RingBuffer_ReadAll rb in
      if count \<le> 0 \<or> all = [] then all
      else tail_loop all count 0
        (if last all = CHR 0x0A then length all - 1 else length all))"

definition RingBuffer_Follow :: "RingBuffer \<Rightarrow> int \<times> RingBuffer" where
  "RingBuffer_Follow rb =
     (rb_nextID rb,
      rb\<lparr>rb_nextID := wrap64 (rb_nextID rb + 1),
         rb_subs := tstore (rb_nextID rb) [] (rb_subs rb)\<rparr>)"

text \<open>The goroutine of \<open>Follow\<close> when the context ends, and a receive from the channel.\<close>

definition Follow_done :: "int \<Rightarrow> RingBuffer \<Rightarrow> RingBuffer" where
  "Follow_done i rb = rb\<lparr>rb_subs := tdelete i (rb_subs rb)\<rparr>"

definition Follow_recv :: "int \<Rightarrow> RingBuffer \<Rightarrow> bytes option \<times> RingBuffer" where
  "Follow_recv i rb =
     (case tlookup (rb_subs rb) i of
        Some (x # q) \<Rightarrow> (Some x, rb\<lparr>rb_subs := tstore i q (rb_subs rb)\<rparr>)
      | _ \<Rightarrow> (None, rb))"

definition RingBuffer_Len :: "RingBuffer \<Rightarrow> int" where
  "RingBuffer_Len rb = rb_total rb"

section \<open>Model of the prefix writer\<close>

text \<open>
  \<open>dest\<close> is any \<open>io.Writer\<close>: a function from the bytes and its state to an error, if any, and
  the new state.  \<open>pw_loop\<close> is the loop over the bytes.
\<close>

record PrefixWriter =
  pw_prefix :: bytes
  pw_needPrefix :: bool

definition NewPrefixWriter :: "string \<Rightarrow> PrefixWriter" where
  "NewPrefixWriter pre = \<lparr>pw_prefix = pre, pw_needPrefix = True\<rparr>"

fun pw_loop :: "bytes \<Rightarrow> bytes \<Rightarrow> bool \<Rightarrow> bytes \<times> bool" where
  "pw_loop pre [] need = ([], need)"
| "pw_loop pre (b # bs) need =
     (let (out, need') = pw_loop pre bs (b = CHR 0x0A)
      in ((if need then pre else []) @ b # out, need'))"

definition PrefixWriter_Write ::
  "(bytes \<Rightarrow> 'd \<Rightarrow> goerror option \<times> 'd) \<Rightarrow> bytes \<Rightarrow> PrefixWriter \<times> 'd \<Rightarrow>
   (goerror + nat) \<times> PrefixWriter \<times> 'd" where
  "PrefixWriter_Write dest_Write p s =
     (case s of (pw, d) \<Rightarrow>
        if p = [] then (Inr 0, pw, d)
        else
          (let (buf, need) = pw_loop (pw_prefix pw) p (pw_needPrefix pw);
               (e, d') = dest_Write buf d;
               pw' = pw\<lparr>pw_needPrefix := need\<rparr>
           in case e of Some err \<Rightarrow> (Inl err, pw', d') | None \<Rightarrow> (Inr (length p), pw', d')))"

section \<open>Specification: the history of bytes and its lines\<close>

definition lastn :: "nat \<Rightarrow> 'a list \<Rightarrow> 'a list" where
  "lastn n xs = drop (length xs - n) xs"

fun lines_of :: "bytes \<Rightarrow> bytes list" where
  "lines_of [] = []"
| "lines_of (c # cs) =
     (if c = CHR 0x0A then [c] # lines_of cs
      else (case lines_of cs of [] \<Rightarrow> [[c]] | l # ls \<Rightarrow> (c # l) # ls))"

text \<open>\<open>rb_repr hist rb\<close>: the buffer represents the history \<open>hist\<close> of all bytes written.\<close>

definition rb_repr :: "bytes \<Rightarrow> RingBuffer \<Rightarrow> bool" where
  "rb_repr hist rb \<longleftrightarrow>
     length (rb_data rb) = rb_capacity rb \<and> rb_writePos rb < rb_capacity rb \<and>
     rb_total rb = wrap64 (int (length hist)) \<and>
     (rb_wrapped rb \<longleftrightarrow> rb_capacity rb \<le> length hist) \<and>
     (if rb_wrapped rb
      then drop (rb_writePos rb) (rb_data rb) @ take (rb_writePos rb) (rb_data rb) =
           lastn (rb_capacity rb) hist
      else rb_writePos rb = length hist \<and> take (rb_writePos rb) (rb_data rb) = hist)"

lemma lastn_all: "length xs \<le> n \<Longrightarrow> lastn n xs = xs"
  by (simp add: lastn_def)

lemma lastn_append_long: "n \<le> length q \<Longrightarrow> lastn n (h @ q) = drop (length q - n) q"
  by (simp add: lastn_def)

lemma lastn_append_short:
  "length q \<le> n \<Longrightarrow> n \<le> length h \<Longrightarrow> lastn n (h @ q) = drop (length q) (lastn n h) @ q"
  by (simp add: lastn_def add.commute)

lemma length_copy_into [simp]: "off \<le> length dst \<Longrightarrow> length (copy_into dst off src) = length dst"
  by (simp add: copy_into_def)

lemma rb_repr_New: "rb_repr [] (NewRingBuffer c)"
  by (auto simp: rb_repr_def NewRingBuffer_def Let_def DefaultCapacity_def wrap64_def)

section \<open>The buffer refines the history\<close>

text \<open>
  Reading the buffer from the write position on gives its contents, oldest byte first; a write
  of at most the remaining space and a write that wraps both drop as many old bytes as they add.
\<close>

lemma rb_fill_fits:
  assumes "length (rb_data rb) = rb_capacity rb" "length p < rb_capacity rb"
    "rb_writePos rb + length p \<le> rb_capacity rb"
  shows "rb_fill p rb =
    (let d = take (rb_writePos rb) (rb_data rb) @ p @ drop (rb_writePos rb + length p) (rb_data rb)
     in if rb_writePos rb + length p = rb_capacity rb
        then rb\<lparr>rb_data := d, rb_writePos := 0, rb_wrapped := True\<rparr>
        else rb\<lparr>rb_data := d, rb_writePos := rb_writePos rb + length p\<rparr>)"
  using assms by (auto simp: rb_fill_def Let_def copy_into_def)

lemma rb_fill_wraps:
  assumes "length (rb_data rb) = rb_capacity rb" "length p < rb_capacity rb"
    "rb_writePos rb < rb_capacity rb" "rb_capacity rb < rb_writePos rb + length p"
  shows "rb_fill p rb =
    (let r = rb_capacity rb - rb_writePos rb
     in rb\<lparr>rb_data := drop r p @ drop (length p - r) (take (rb_writePos rb) (rb_data rb)) @ take r p,
           rb_writePos := length p - r, rb_wrapped := True\<rparr>)"
  using assms by (auto simp: rb_fill_def Let_def copy_into_def)

lemma rb_fill_long:
  assumes "length (rb_data rb) = rb_capacity rb" "rb_capacity rb \<le> length p"
  shows "rb_fill p rb =
    rb\<lparr>rb_data := drop (length p - rb_capacity rb) p, rb_writePos := 0, rb_wrapped := True\<rparr>"
  using assms by (auto simp: rb_fill_def Let_def copy_into_def)

lemma rb_repr_fill:
  assumes "rb_repr hist rb" "p \<noteq> []"
  shows "rb_repr (hist @ p) ((rb_fill p rb)\<lparr>rb_total := wrap64 (int (length (hist @ p)))\<rparr>)"
proof -
  let ?wp = "rb_writePos rb" and ?c = "rb_capacity rb" and ?d = "rb_data rb" and ?n = "length p"
  have d: "length ?d = ?c" and wp: "?wp < ?c"
    and wr: "rb_wrapped rb \<longleftrightarrow> ?c \<le> length hist"
    using assms(1) by (auto simp: rb_repr_def)
  have full: "drop ?wp ?d @ take ?wp ?d = lastn ?c hist" if "rb_wrapped rb"
    using assms(1) that by (auto simp: rb_repr_def)
  have part: "?wp = length hist \<and> take ?wp ?d = hist" if "\<not> rb_wrapped rb"
    using assms(1) that by (auto simp: rb_repr_def)
  consider (long) "?c \<le> ?n" | (fits) "?n < ?c" "?wp + ?n \<le> ?c"
    | (wraps) "?n < ?c" "?c < ?wp + ?n" by linarith
  then show ?thesis
  proof cases
    case long
    then show ?thesis using d wp
      by (simp add: rb_fill_long rb_repr_def lastn_append_long)
  next
    case fits
    show ?thesis
    proof (cases "rb_wrapped rb")
      case True
      have "lastn ?c (hist @ p) = drop ?n (drop ?wp ?d @ take ?wp ?d) @ p"
        using fits True wr full by (simp add: lastn_append_short)
      then show ?thesis using True fits d wp wr
        by (simp add: rb_fill_fits rb_repr_def Let_def add.commute)
    next
      case False
      with part wr have "?wp = length hist" "take ?wp ?d = hist" "length hist < ?c" by auto
      with False fits d wp show ?thesis
        by (simp add: rb_fill_fits rb_repr_def Let_def lastn_all)
    qed
  next
    case wraps
    show ?thesis
    proof (cases "rb_wrapped rb")
      case True
      have "lastn ?c (hist @ p) = drop ?n (drop ?wp ?d @ take ?wp ?d) @ p"
        using wraps True wr full by (simp add: lastn_append_short)
      with True wraps d wp wr show ?thesis
        by (simp add: rb_fill_wraps rb_repr_def Let_def)
    next
      case False
      with part wr have h: "?wp = length hist" "take ?wp ?d = hist" "length hist < ?c" by auto
      with wraps have "lastn ?c (hist @ p) = drop (?n - (?c - ?wp)) hist @ p"
        by (simp add: lastn_def add.commute)
      with h wraps d wp show ?thesis
        by (simp add: rb_fill_wraps rb_repr_def Let_def)
    qed
  qed
qed

lemma rb_fill_frame [simp]:
  "rb_capacity (rb_fill p rb) = rb_capacity rb" "rb_subs (rb_fill p rb) = rb_subs rb"
  "rb_nextID (rb_fill p rb) = rb_nextID rb"
  by (simp_all add: rb_fill_def Let_def)

lemma rb_repr_subs [simp]: "rb_repr hist (rb\<lparr>rb_subs := q\<rparr>) = rb_repr hist rb"
  by (simp add: rb_repr_def)

lemma rb_repr_Write: "rb_repr hist rb \<Longrightarrow> rb_repr (hist @ p) (snd (RingBuffer_Write p rb))"
proof (cases "p = []")
  case False
  assume r: "rb_repr hist rb"
  then have "rb_total rb = wrap64 (int (length hist))" by (simp add: rb_repr_def)
  then have "wrap64 (rb_total rb + int (length p)) = wrap64 (int (length (hist @ p)))"
    by (simp add: wrap64_add)
  with rb_repr_fill [OF r False] False show ?thesis
    by (simp add: RingBuffer_Write_def Let_def)
qed (simp add: RingBuffer_Write_def)

abbreviation write_all :: "bytes list \<Rightarrow> RingBuffer \<Rightarrow> RingBuffer" where
  "write_all ws rb \<equiv> fold (\<lambda>p rb. snd (RingBuffer_Write p rb)) ws rb"

lemma rb_repr_write_all: "rb_repr hist rb \<Longrightarrow> rb_repr (hist @ concat ws) (write_all ws rb)"
proof (induction ws arbitrary: hist rb)
  case (Cons p ws)
  from Cons.IH [OF rb_repr_Write [OF Cons.prems, of p]] show ?case by simp
qed simp

lemma capacity_Write [simp]: "rb_capacity (snd (RingBuffer_Write p rb)) = rb_capacity rb"
  by (simp add: RingBuffer_Write_def Let_def)

lemma capacity_write_all [simp]: "rb_capacity (write_all ws rb) = rb_capacity rb"
  by (induction ws arbitrary: rb) simp_all

lemma ReadAll_repr:
  assumes "rb_repr hist rb" "length hist < 2 ^ 63"
  shows "RingBuffer_ReadAll rb = lastn (rb_capacity rb) hist"
proof -
  have "in64 (int (length hist))" using assms(2) by (simp add: in64_def)
  then have "rb_total rb = int (length hist)" using assms(1) by (simp add: rb_repr_def)
  with assms(1) show ?thesis
    by (auto simp: RingBuffer_ReadAll_def rb_repr_def lastn_def)
qed

section \<open>Lines\<close>

lemma concat_lines_of [simp]: "concat (lines_of s) = s"
  by (induction s rule: lines_of.induct) (auto split: list.splits)

lemma lines_of_Nil_iff [simp]: "lines_of s = [] \<longleftrightarrow> s = []"
  by (cases s) (auto split: list.splits)

lemma lines_of_append_nl:
  "lines_of (xs @ CHR 0x0A # s) = lines_of (xs @ [CHR 0x0A]) @ lines_of s"
  by (induction xs) (auto split: list.splits)

lemma length_lines_of_Cons:
  "length (lines_of (c # s)) =
   (if c = CHR 0x0A \<or> s = [] then Suc (length (lines_of s)) else length (lines_of s))"
  by (auto split: list.splits)

lemma tail_loop_lines:
  assumes "n \<le> length all" "0 \<le> found" "found < count"
    and "drop n all \<noteq> [] \<longrightarrow> int (length (lines_of (drop n all))) = found + 1"
    and "drop n all = [] \<longrightarrow> found = 0 \<and> (\<forall>m. n = Suc m \<longrightarrow> all ! m \<noteq> CHR 0x0A)"
  shows "tail_loop all count found n = concat (lastn (nat count) (lines_of all))"
  using assms
proof (induction n arbitrary: found)
  case 0
  then have "length (lines_of all) \<le> nat count" by (cases "all = []") auto
  then show ?case by (simp add: lastn_all)
next
  case (Suc m)
  then have m: "m < length all" by simp
  then have step: "drop m all = all ! m # drop (Suc m) all" by (simp add: Cons_nth_drop_Suc)
  show ?case
  proof (cases "all ! m = CHR 0x0A")
    case nl: True
    then have ne: "drop (Suc m) all \<noteq> []" using Suc.prems(5) by auto
    with Suc.prems(4) have len: "int (length (lines_of (drop (Suc m) all))) = found + 1" by simp
    show ?thesis
    proof (cases "found + 1 \<ge> count")
      case True
      have all: "all = take m all @ CHR 0x0A # drop (Suc m) all"
        using m nl by (metis id_take_nth_drop)
      have "lines_of all = lines_of (take m all @ [CHR 0x0A]) @ lines_of (drop (Suc m) all)"
        by (subst all) (rule lines_of_append_nl)
      moreover have "nat count = length (lines_of (drop (Suc m) all))"
        using True len Suc.prems(3) by linarith
      ultimately have "lastn (nat count) (lines_of all) = lines_of (drop (Suc m) all)"
        by (simp add: lastn_def)
      with True nl show ?thesis by simp
    next
      case False
      have "tail_loop all count (found + 1) m = concat (lastn (nat count) (lines_of all))"
      proof (rule Suc.IH)
        show "drop m all \<noteq> [] \<longrightarrow> int (length (lines_of (drop m all))) = found + 1 + 1"
          using len nl by (simp add: step)
      qed (use m False Suc.prems(2) step in auto)
      with False nl show ?thesis by simp
    qed
  next
    case other: False
    have "tail_loop all count found m = concat (lastn (nat count) (lines_of all))"
    proof (rule Suc.IH)
      show "drop m all \<noteq> [] \<longrightarrow> int (length (lines_of (drop m all))) = found + 1"
        using other Suc.prems(4,5) unfolding step
        by (cases "drop (Suc m) all = []") (auto simp del: lines_of.simps simp: length_lines_of_Cons)
    qed (use m Suc.prems step in auto)
    with other show ?thesis by simp
  qed
qed

lemma tail_loop_from_end:
  assumes "all \<noteq> []" "0 < count"
  shows "tail_loop all count 0 (if last all = CHR 0x0A then length all - 1 else length all) =
    concat (lastn (nat count) (lines_of all))"
proof (cases "last all = CHR 0x0A")
  case True
  then have "drop (length all - 1) all = [CHR 0x0A]"
    using assms(1) by (metis append_butlast_last_id append_eq_conv_conj length_butlast)
  then show ?thesis using True assms by (intro tail_loop_lines [THEN trans]) auto
next
  case False
  have "all ! m \<noteq> CHR 0x0A" if "length all = Suc m" for m
    using False assms(1) that by (simp add: last_conv_nth)
  with False assms show ?thesis by (intro tail_loop_lines [THEN trans]) auto
qed

section \<open>The prefix writer\<close>

text \<open>
  What the loop writes and whether a prefix is due afterwards, for a text cut anywhere: the
  prefix flag carries exactly the information the rest needs.
\<close>

lemma pw_loop_append:
  "pw_loop pre (p @ q) need =
   (let (out1, n1) = pw_loop pre p need; (out2, n2) = pw_loop pre q n1 in (out1 @ out2, n2))"
  by (induction p arbitrary: need) (auto simp: Let_def split: prod.splits)

lemma pw_loop_lines:
  "fst (pw_loop pre p True) = concat (map (\<lambda>l. pre @ l) (lines_of p)) \<and>
   pre @ fst (pw_loop pre p False) =
     (if p = [] then pre else concat (map (\<lambda>l. pre @ l) (lines_of p)))"
proof (induction p)
  case (Cons b bs)
  show ?case
  proof (cases "b = CHR 0x0A")
    case True
    with Cons show ?thesis by (auto simp: Let_def split: prod.splits)
  next
    case False
    have "fst (pw_loop pre bs False) =
        (case lines_of bs of [] \<Rightarrow> [] | l # ls \<Rightarrow> l @ concat (map (\<lambda>l. pre @ l) ls))"
      using Cons by (cases "bs = []"; cases "lines_of bs") auto
    with False show ?thesis by (auto simp: Let_def split: prod.splits list.splits)
  qed
qed simp

definition append_dest :: "bytes \<Rightarrow> bytes \<Rightarrow> goerror option \<times> bytes" where
  "append_dest buf d = (None, d @ buf)"

abbreviation prefix_all :: "bytes list \<Rightarrow> PrefixWriter \<times> bytes \<Rightarrow> PrefixWriter \<times> bytes" where
  "prefix_all ws s \<equiv> fold (\<lambda>p s. snd (PrefixWriter_Write append_dest p s)) ws s"

lemma PrefixWriter_Write_append:
  "snd (PrefixWriter_Write append_dest p (pw, d)) =
   (pw\<lparr>pw_needPrefix := snd (pw_loop (pw_prefix pw) p (pw_needPrefix pw))\<rparr>,
    d @ fst (pw_loop (pw_prefix pw) p (pw_needPrefix pw)))"
  by (auto simp: PrefixWriter_Write_def append_dest_def Let_def split: prod.splits)

lemma prefix_all_concat:
  "prefix_all ws (pw, d) =
   (pw\<lparr>pw_needPrefix := snd (pw_loop (pw_prefix pw) (concat ws) (pw_needPrefix pw))\<rparr>,
    d @ fst (pw_loop (pw_prefix pw) (concat ws) (pw_needPrefix pw)))"
  by (induction ws arbitrary: pw d)
    (auto simp: PrefixWriter_Write_append pw_loop_append Let_def split: prod.splits)

section \<open>Followers\<close>

lemma subs_Write:
  "p \<noteq> [] \<Longrightarrow> tlookup (rb_subs (snd (RingBuffer_Write p rb))) i =
   map_option (chan_send chanCap p) (tlookup (rb_subs rb) i)"
  by (simp add: RingBuffer_Write_def Let_def map_of_map)

lemma subs_write_all:
  assumes "tlookup (rb_subs rb) i = Some q" "length q + length ws \<le> chanCap" "[] \<notin> set ws"
  shows "tlookup (rb_subs (write_all ws rb)) i = Some (q @ ws)"
  using assms
proof (induction ws arbitrary: q rb)
  case (Cons p ws)
  then have "tlookup (rb_subs (snd (RingBuffer_Write p rb))) i = Some (q @ [p])"
    by (auto simp: subs_Write chan_send_def)
  from Cons.IH [OF this] Cons.prems show ?case by simp
qed simp

section \<open>Properties\<close>

text \<open>C17: The ring buffer refines the history of the bytes written to it: after any sequence of
  writes to a new buffer (fewer than $2^{63}$ bytes in all), \<open>ReadAll\<close> returns exactly the last
  \<open>capacity\<close> bytes of their concatenation, whatever the sizes of the writes, and \<open>Len\<close> the
  number of bytes ever written.\<close>

theorem ring_buffer_refines_history:
  assumes "length (concat ws) < 2 ^ 63"
  shows "RingBuffer_ReadAll (write_all ws (NewRingBuffer c)) =
      lastn (nat (if c \<le> 0 then DefaultCapacity else c)) (concat ws) \<and>
    RingBuffer_Len (write_all ws (NewRingBuffer c)) = int (length (concat ws))"
proof -
  have r: "rb_repr (concat ws) (write_all ws (NewRingBuffer c))"
    using rb_repr_write_all [OF rb_repr_New, of ws c] by simp
  moreover have "in64 (int (length (concat ws)))" using assms by (simp add: in64_def)
  ultimately have "rb_total (write_all ws (NewRingBuffer c)) = int (length (concat ws))"
    by (simp add: rb_repr_def)
  then show ?thesis
    using ReadAll_repr [OF r assms]
    by (simp add: NewRingBuffer_def Let_def RingBuffer_Len_def)
qed

theorem ring_buffer_refines_history_witness:
  "RingBuffer_ReadAll (write_all [''abc'', ''defg'', ''h''] (NewRingBuffer 5)) = ''defgh''"
  using ring_buffer_refines_history [of "[''abc'', ''defg'', ''h'']" 5]
  by (simp add: lastn_def)

text \<open>C23: \<open>TailLines\<close> returns the last \<open>count\<close> lines of what \<open>ReadAll\<close> returns (a line ends with
  its newline; an unterminated last line counts), and everything when \<open>count\<close> is not positive.\<close>

theorem TailLines_last_lines:
  "RingBuffer_TailLines count rb =
   (if count \<le> 0 then RingBuffer_ReadAll rb
    else concat (lastn (nat count) (lines_of (RingBuffer_ReadAll rb))))"
  by (auto simp: RingBuffer_TailLines_def Let_def tail_loop_from_end lastn_def)

text \<open>The prefix writer is independent of how its input is cut into writes: after any sequence
  of writes the destination holds every line of the whole text once, in order, each with the
  prefix before it.\<close>

theorem prefix_writer_lines:
  "snd (prefix_all ws (NewPrefixWriter pre, [])) = concat (map (\<lambda>l. pre @ l) (lines_of (concat ws)))"
  using pw_loop_lines [of pre "concat ws"] by (simp add: prefix_all_concat NewPrefixWriter_def)

text \<open>A follower that keeps up misses nothing: as long as at most 64 chunks are pending, the
  channel holds exactly the chunks written since \<open>Follow\<close>, in order.\<close>

theorem follower_gets_all:
  assumes "length ws \<le> 64" "[] \<notin> set ws"
  shows "tlookup (rb_subs (write_all ws (snd (RingBuffer_Follow rb)))) (fst (RingBuffer_Follow rb)) =
    Some ws"
  using subs_write_all [of "snd (RingBuffer_Follow rb)" "fst (RingBuffer_Follow rb)" "[]" ws] assms
  by (simp add: RingBuffer_Follow_def chanCap_def)

theorem follower_gets_all_witness:
  "tlookup (rb_subs (write_all [''a'', ''b''] (snd (RingBuffer_Follow (NewRingBuffer 8)))))
     (fst (RingBuffer_Follow (NewRingBuffer 8))) = Some [''a'', ''b'']"
  by (rule follower_gets_all) simp_all

end
