(* ===== verification/Selector.thy ===== *)
theory Selector
  imports Types
begin

text \<open>
  Label and field selectors: \<open>discovery/selector.go\<close>.  A selector is a comma-separated list of
  requirements; the loop of the code over the parts, with its early \<open>return false\<close>, is
  \<^const>\<open>list_all\<close> of one part's test.  The specification is the meaning of a list of
  requirements, and the parser is proved adequate for it: a printed list of requirements matches
  exactly when every requirement holds.
\<close>

section \<open>Model\<close>

text \<open>One iteration of the loop of \<open>MatchLabels\<close>.\<close>

definition label_part :: "string gomap \<Rightarrow> string \<Rightarrow> bool" where
  "label_part labels part0 =
     (let part = TrimSpace part0 in
      if part = [] then True
      else if Contains part ''!='' then
        (case split_str ''!='' part of
           [k, v] \<Rightarrow> mget labels (TrimSpace k) \<noteq> TrimSpace v
         | _ \<Rightarrow> False)
      else if Contains part ''=='' then
        (case split_str ''=='' part of
           [k, v] \<Rightarrow> mget labels (TrimSpace k) = TrimSpace v
         | _ \<Rightarrow> False)
      else if Contains part ''='' then
        (case split_str ''='' part of
           [k, v] \<Rightarrow> mget labels (TrimSpace k) = TrimSpace v
         | _ \<Rightarrow> False)
      else mlookup labels part \<noteq> None)"

definition MatchLabels :: "string gomap \<Rightarrow> string \<Rightarrow> bool" where
  "MatchLabels labels selector =
     (if selector = [] then True else list_all (label_part labels) (split_str '','' selector))"

text \<open>
  One iteration of the loop of \<open>MatchFields\<close> and of \<open>MatchMetadataFields\<close>, which differ only in
  the fields they know: \<open>actual\<close> is the \<open>switch\<close>, \<open>None\<close> its \<open>default: continue\<close>.
\<close>

definition field_part :: "(string \<Rightarrow> string option) \<Rightarrow> string \<Rightarrow> bool" where
  "field_part actual part0 =
     (let part = TrimSpace part0 in
      if part = [] then True
      else
        (let isNot = Contains part ''!='' in
         if \<not> isNot \<and> \<not> Contains part ''=='' \<and> \<not> Contains part ''='' then False
         else
           (case split_str (if isNot then ''!='' else if Contains part ''=='' then ''==''
                            else ''='') part of
              [f, v] \<Rightarrow>
                (case actual (TrimSpace f) of
                   None \<Rightarrow> True
                 | Some a \<Rightarrow> if isNot then a \<noteq> TrimSpace v else a = TrimSpace v)
            | _ \<Rightarrow> False)))"

definition pod_field :: "Pod \<Rightarrow> string \<Rightarrow> string option" where
  "pod_field pod f =
     (if f = ''metadata.name'' then Some (om_Name (pod_Metadata pod))
      else if f = ''metadata.namespace'' then Some (om_Namespace (pod_Metadata pod))
      else if f = ''status.phase'' then Some (st_Phase (pod_Status pod))
      else None)"

definition MatchFields :: "Pod \<Rightarrow> string \<Rightarrow> bool" where
  "MatchFields pod selector =
     (if selector = [] then True
      else list_all (field_part (pod_field pod)) (split_str '','' selector))"

definition metadata_field :: "string \<Rightarrow> string \<Rightarrow> string \<Rightarrow> string option" where
  "metadata_field name namespace f =
     (if f = ''metadata.name'' then Some name
      else if f = ''metadata.namespace'' then Some namespace
      else None)"

definition MatchMetadataFields :: "string \<Rightarrow> string \<Rightarrow> string \<Rightarrow> bool" where
  "MatchMetadataFields name namespace selector =
     (if selector = [] then True
      else list_all (field_part (metadata_field name namespace)) (split_str '','' selector))"

definition MatchPod :: "Pod \<Rightarrow> string \<Rightarrow> string \<Rightarrow> bool" where
  "MatchPod pod labelSelectorStr fieldSelectorStr =
     (if \<not> MatchLabels (om_Labels (pod_Metadata pod)) labelSelectorStr then False
      else if \<not> MatchFields pod fieldSelectorStr then False
      else True)"

definition MatchService :: "Service \<Rightarrow> string \<Rightarrow> string \<Rightarrow> bool" where
  "MatchService svc labelSelector fieldSelector =
     (if \<not> MatchLabels (om_Labels (svc_Metadata svc)) labelSelector then False
      else MatchMetadataFields (om_Name (svc_Metadata svc)) (om_Namespace (svc_Metadata svc))
        fieldSelector)"

definition MatchConfigMap :: "ConfigMap \<Rightarrow> string \<Rightarrow> string \<Rightarrow> bool" where
  "MatchConfigMap cm labelSelector fieldSelector =
     (if \<not> MatchLabels (om_Labels (cm_Metadata cm)) labelSelector then False
      else MatchMetadataFields (om_Name (cm_Metadata cm)) (om_Namespace (cm_Metadata cm))
        fieldSelector)"

definition MatchSecret :: "Secret \<Rightarrow> string \<Rightarrow> string \<Rightarrow> bool" where
  "MatchSecret sec labelSelector fieldSelector =
     (if \<not> MatchLabels (om_Labels (sec_Metadata sec)) labelSelector then False
      else MatchMetadataFields (om_Name (sec_Metadata sec)) (om_Namespace (sec_Metadata sec))
        fieldSelector)"

section \<open>Specification: requirements\<close>

datatype req = REq string string | REqEq string string | RNeq string string | RExists string

fun show_req :: "req \<Rightarrow> string" where
  "show_req (REq k v) = k @ ''='' @ v"
| "show_req (REqEq k v) = k @ ''=='' @ v"
| "show_req (RNeq k v) = k @ ''!='' @ v"
| "show_req (RExists k) = k"

definition show_reqs :: "req list \<Rightarrow> string" where
  "show_reqs rs = join_str '','' (map show_req rs)"

text \<open>Over labels a missing key reads as the empty string; over fields an unknown one is ignored.\<close>

fun sat_labels :: "string gomap \<Rightarrow> req \<Rightarrow> bool" where
  "sat_labels labels (REq k v) = (mget labels k = v)"
| "sat_labels labels (REqEq k v) = (mget labels k = v)"
| "sat_labels labels (RNeq k v) = (mget labels k \<noteq> v)"
| "sat_labels labels (RExists k) = (mlookup labels k \<noteq> None)"

fun sat_fields :: "(string \<Rightarrow> string option) \<Rightarrow> req \<Rightarrow> bool" where
  "sat_fields actual (REq k v) = (actual k = None \<or> actual k = Some v)"
| "sat_fields actual (REqEq k v) = (actual k = None \<or> actual k = Some v)"
| "sat_fields actual (RNeq k v) = (actual k = None \<or> actual k \<noteq> Some v)"
| "sat_fields actual (RExists k) = False"

text \<open>A clean token: printable, no blank, none of the characters of the selector syntax.\<close>

definition clean :: "string \<Rightarrow> bool" where
  "clean s = list_all (\<lambda>c. graphic c \<and> c \<noteq> CHR '','' \<and> c \<noteq> CHR ''='' \<and> c \<noteq> CHR ''!'') s"

fun clean_req :: "req \<Rightarrow> bool" where
  "clean_req (REq k v) = (clean k \<and> clean v)"
| "clean_req (REqEq k v) = (clean k \<and> clean v)"
| "clean_req (RNeq k v) = (clean k \<and> clean v)"
| "clean_req (RExists k) = (clean k \<and> k \<noteq> [])"

lemma clean_notin: "clean s \<Longrightarrow> CHR '','' \<notin> set s \<and> CHR ''='' \<notin> set s \<and> CHR ''!'' \<notin> set s"
  by (auto simp: clean_def list_all_iff)

lemma graphic_ops [simp]: "graphic CHR ''=''" "graphic CHR ''!''"
  by (simp_all add: graphic_def)

lemma trimmed_all_graphic: "list_all graphic s \<Longrightarrow> trimmed s"
  by (rule trimmed_graphic) (cases "s = []"; auto simp: list_all_iff)

lemma clean_graphic: "clean s \<Longrightarrow> list_all graphic s"
  by (auto simp: clean_def list_all_iff)

lemma show_req_graphic: "clean_req r \<Longrightarrow> list_all graphic (show_req r)"
  by (cases r) (auto simp: clean_graphic)

lemma TrimSpace_show_req [simp]: "clean_req r \<Longrightarrow> TrimSpace (show_req r) = show_req r"
  by (simp add: TrimSpace_trimmed trimmed_all_graphic show_req_graphic)

lemma TrimSpace_clean [simp]: "clean s \<Longrightarrow> TrimSpace s = s"
  by (simp add: TrimSpace_trimmed trimmed_all_graphic clean_graphic)

lemma show_req_nonempty [simp]: "clean_req r \<Longrightarrow> show_req r \<noteq> []"
  by (cases r) auto

section \<open>Which operator a printed requirement has\<close>

lemma Contains_mid: "Contains (a @ sub @ b) sub"
  by (auto simp: Contains_iff)

lemma Contains_notin: "c \<in> set sub \<Longrightarrow> c \<notin> set s \<Longrightarrow> \<not> Contains s sub"
  by (auto simp: Contains_iff)

lemma Contains_count: "count_list s c < count_list sub c \<Longrightarrow> \<not> Contains s sub"
  by (auto simp: Contains_iff)

lemma clean_count: "clean s \<Longrightarrow> count_list s (CHR ''='') = 0"
  using clean_notin [of s] by (simp add: count_list_0_iff)

lemma clean_no_ops:
  assumes "clean k"
  shows "\<not> Contains k ''!=''" "\<not> Contains k ''==''" "\<not> Contains k ''=''"
  using clean_notin [OF assms] by (auto simp: Contains_iff)

lemma show_ops:
  assumes "clean k" "clean v"
  shows "Contains (k @ ''!='' @ v) ''!='' = True"
    "Contains (k @ ''=='' @ v) ''!='' = False" "Contains (k @ ''=='' @ v) ''=='' = True"
    "Contains (k @ ''='' @ v) ''!='' = False" "Contains (k @ ''='' @ v) ''=='' = False"
    "Contains (k @ ''='' @ v) ''='' = True"
proof -
  have k: "CHR ''!'' \<notin> set k" and v: "CHR ''!'' \<notin> set v"
    using clean_notin [OF assms(1)] clean_notin [OF assms(2)] by auto
  show "Contains (k @ ''!='' @ v) ''!='' = True" "Contains (k @ ''=='' @ v) ''=='' = True"
    "Contains (k @ ''='' @ v) ''='' = True"
    by (simp_all only: Contains_mid)
  have "\<not> Contains (k @ ''=='' @ v) ''!=''" by (rule Contains_notin [of "CHR ''!''"]) (use k v in auto)
  then show "Contains (k @ ''=='' @ v) ''!='' = False" by simp
  have "\<not> Contains (k @ ''='' @ v) ''!=''" by (rule Contains_notin [of "CHR ''!''"]) (use k v in auto)
  then show "Contains (k @ ''='' @ v) ''!='' = False" by simp
  have "\<not> Contains (k @ ''='' @ v) ''==''"
    by (rule Contains_count [of _ "CHR ''=''"]) (simp add: clean_count assms)
  then show "Contains (k @ ''='' @ v) ''=='' = False" by simp
qed

lemma show_splits:
  assumes "clean k" "clean v"
  shows "split_str ''!='' (k @ ''!='' @ v) = [k, v]" "split_str ''=='' (k @ ''=='' @ v) = [k, v]"
    "split_str ''='' (k @ ''='' @ v) = [k, v]"
  using clean_notin [OF assms(1)] clean_notin [OF assms(2)] by (blast intro: split_two)+

lemma label_part_show: "clean_req r \<Longrightarrow> label_part labels (show_req r) = sat_labels labels r"
  unfolding label_part_def Let_def
  by (cases r)
    (simp_all only: TrimSpace_show_req show_req_nonempty, simp_all only: show_req.simps clean_req.simps
      show_ops clean_no_ops simp_thms show_splits if_True if_False list.case TrimSpace_clean sat_labels.simps)

lemma field_part_show: "clean_req r \<Longrightarrow> field_part actual (show_req r) = sat_fields actual r"
  unfolding field_part_def Let_def
  by (cases r)
    (simp_all only: TrimSpace_show_req show_req_nonempty, simp_all only: show_req.simps clean_req.simps
      show_ops clean_no_ops simp_thms show_splits if_True if_False list.case TrimSpace_clean
      sat_fields.simps, auto split: option.splits)

lemma show_req_no_comma: "clean_req r \<Longrightarrow> CHR '','' \<notin> set (show_req r)"
  by (cases r) (auto dest: clean_notin)

text \<open>A selector test is a conjunction over the parts, the empty selector included.\<close>

lemma empty_parts [simp]: "label_part labels []" "field_part actual []"
  by (simp_all add: label_part_def field_part_def)

lemma MatchLabels_all: "MatchLabels labels s = list_all (label_part labels) (split_str '','' s)"
  by (simp add: MatchLabels_def split_single_none)

lemma MatchFields_all: "MatchFields pod s = list_all (field_part (pod_field pod)) (split_str '','' s)"
  by (simp add: MatchFields_def split_single_none)

lemma show_reqs_parts:
  assumes "\<forall>r \<in> set rs. clean_req r" "P []"
    and "\<And>r. clean_req r \<Longrightarrow> P (show_req r) = Q r"
  shows "list_all P (split_str '','' (show_reqs rs)) = (\<forall>r \<in> set rs. Q r)"
proof (cases "rs = []")
  case True
  with assms(2) show ?thesis by (simp add: show_reqs_def split_single_none)
next
  case False
  with assms(1) have "split_str '','' (show_reqs rs) = map show_req rs"
    unfolding show_reqs_def by (intro split_join) (auto dest: show_req_no_comma)
  with assms(1,3) show ?thesis by (simp add: list_all_iff)
qed

section \<open>Properties\<close>

text \<open>C20: A label selector means the conjunction of its requirements: a comma-separated list of
  requirements (\<open>k=v\<close>, \<open>k==v\<close>, \<open>k!=v\<close>, \<open>k\<close>) over clean tokens matches the labels exactly
  when every requirement holds of them; the empty list matches everything.\<close>

theorem MatchLabels_adequate:
  assumes "\<forall>r \<in> set rs. clean_req r"
  shows "MatchLabels labels (show_reqs rs) = (\<forall>r \<in> set rs. sat_labels labels r)"
  unfolding MatchLabels_all
  by (rule show_reqs_parts [OF assms]) (simp_all add: label_part_show)

theorem MatchLabels_adequate_witness:
  "MatchLabels (Some [(''app'', ''web''), (''tier'', ''front'')]) ''app=web,tier!=back,tier''"
proof -
  let ?rs = "[REq ''app'' ''web'', RNeq ''tier'' ''back'', RExists ''tier'']"
  have "\<forall>r \<in> set ?rs. clean_req r" by (simp add: clean_def graphic_def)
  from MatchLabels_adequate [OF this, of "Some [(''app'', ''web''), (''tier'', ''front'')]"]
  show ?thesis by (simp add: show_reqs_def mget_def mlookup_def)
qed

text \<open>A field selector over pods means the conjunction of its requirements on
  \<open>metadata.name\<close>, \<open>metadata.namespace\<close> and \<open>status.phase\<close>; requirements on any other field are
  ignored, and a part without an operator matches nothing.\<close>

theorem MatchFields_adequate:
  assumes "\<forall>r \<in> set rs. clean_req r"
  shows "MatchFields pod (show_reqs rs) = (\<forall>r \<in> set rs. sat_fields (pod_field pod) r)"
  unfolding MatchFields_all
  by (rule show_reqs_parts [OF assms]) (simp_all add: field_part_show)

theorem MatchFields_adequate_witness:
  "MatchFields (zero_Pod\<lparr>pod_Status := zero_PodStatus\<lparr>st_Phase := PodRunning\<rparr>\<rparr>)
     ''status.phase==Running,spec.nodeName=n1''"
proof -
  let ?rs = "[REqEq ''status.phase'' ''Running'', REq ''spec.nodeName'' ''n1'']"
  have "\<forall>r \<in> set ?rs. clean_req r" by (simp add: clean_def graphic_def)
  from MatchFields_adequate [OF this, of "zero_Pod\<lparr>pod_Status := zero_PodStatus\<lparr>st_Phase := PodRunning\<rparr>\<rparr>"]
  show ?thesis by (simp add: show_reqs_def pod_field_def PodRunning_def)
qed

text \<open>Selectors compose: for arbitrary selector texts, well-formed or not, joining two with a
  comma matches exactly when both match.\<close>

theorem MatchLabels_comma: "MatchLabels labels (s @ '','' @ t) = (MatchLabels labels s \<and> MatchLabels labels t)"
  by (simp add: MatchLabels_all split_single_append)

end
