(* ===== verification/Manifest.thy ===== *)
theory Manifest
  imports Types
begin

text \<open>
  Reading manifests: \<open>manifest/parser.go\<close>.  The JSON and YAML decoders are arguments
  (\<open>unjson\<close>, \<open>unyaml\<close>: bytes to an object or an error), as is the file system test
  \<open>stat\<close> (does \<open>os.Stat\<close> succeed on a path).
\<close>

section \<open>Model\<close>

definition AnnotationExecutablePath :: string where
  "AnnotationExecutablePath = ''lok8s.io/executable-path''"

definition AnnotationWasmModule :: string where
  "AnnotationWasmModule = ''lok8s.io/wasm-module''"

definition EngineNative :: string where
  "EngineNative = ''native''"

definition EngineWasm :: string where
  "EngineWasm = ''wasm''"

text \<open>The loop of \<open>isJSON\<close>: skip blanks, decide on the first other byte.\<close>

fun isJSON :: "bytes \<Rightarrow> bool" where
  "isJSON [] = False"
| "isJSON (b # bs) =
     (if b = CHR '' '' \<or> b = CHR 0x09 \<or> b = CHR 0x0A \<or> b = CHR 0x0D then isJSON bs
      else b = CHR ''{'' \<or> b = CHR ''['')"

type_synonym 'a decoder = "bytes \<Rightarrow> goerror + 'a"

text \<open>What the four \<open>Parse\<close> functions share; \<open>meta\<close> selects the metadata of the object.\<close>

definition parse_with :: "'a decoder \<Rightarrow> 'a decoder \<Rightarrow> ('a \<Rightarrow> ObjectMeta) \<Rightarrow> bytes \<Rightarrow> goerror + 'a" where
  "parse_with unjson unyaml meta data =
     (if data = [] then Inl EEmptyManifest
      else
        (case (if isJSON data
               then (case unjson data of Inl e \<Rightarrow> Inl (EJsonDecode e) | Inr x \<Rightarrow> Inr x)
               else (case unyaml data of Inl e \<Rightarrow> Inl (EYamlDecode e) | Inr x \<Rightarrow> Inr x)) of
           Inl e \<Rightarrow> Inl e
         | Inr x \<Rightarrow> if om_Name (meta x) = [] then Inl ENameRequired else Inr x))"

definition Parse :: "Pod decoder \<Rightarrow> Pod decoder \<Rightarrow> bytes \<Rightarrow> goerror + Pod" where
  "Parse unjson unyaml data = parse_with unjson unyaml pod_Metadata data"

definition ParseService :: "Service decoder \<Rightarrow> Service decoder \<Rightarrow> bytes \<Rightarrow> goerror + Service" where
  "ParseService unjson unyaml data = parse_with unjson unyaml svc_Metadata data"

definition ParseConfigMap ::
  "ConfigMap decoder \<Rightarrow> ConfigMap decoder \<Rightarrow> bytes \<Rightarrow> goerror + ConfigMap" where
  "ParseConfigMap unjson unyaml data = parse_with unjson unyaml cm_Metadata data"

definition ParseSecret :: "Secret decoder \<Rightarrow> Secret decoder \<Rightarrow> bytes \<Rightarrow> goerror + Secret" where
  "ParseSecret unjson unyaml data = parse_with unjson unyaml sec_Metadata data"

text \<open>The fallback on the image name: last path element, up to the first colon.\<close>

definition image_name :: "string \<Rightarrow> string" where
  "image_name img = hd (split_str '':'' (last (split_str ''/'' img)))"

definition wasm_candidates :: "string \<Rightarrow> string list" where
  "wasm_candidates name =
     [name @ ''.wasm'', ''./'' @ name @ ''.wasm'', path_join [''.'', ''bin'', name @ ''.wasm'']]"

definition ExtractEngineConfig :: "(string \<Rightarrow> bool) \<Rightarrow> Pod \<Rightarrow> goerror + (string \<times> string)" where
  "ExtractEngineConfig stat pod =
     (let annotations = om_Annotations (pod_Metadata pod);
          execPath = mlookup annotations AnnotationExecutablePath;
          wasmPath = mlookup annotations AnnotationWasmModule
      in case (execPath, wasmPath) of
           (Some _, Some _) \<Rightarrow> Inl (EBothAnnotations (om_Name (pod_Metadata pod)))
         | (Some e, None) \<Rightarrow>
             if e = [] then Inl (EAnnotationEmpty AnnotationExecutablePath)
             else Inr (EngineNative, e)
         | (None, Some w) \<Rightarrow>
             if w = [] then Inl (EAnnotationEmpty AnnotationWasmModule)
             else Inr (EngineWasm, w)
         | (None, None) \<Rightarrow>
             (case ps_Containers (pod_Spec pod) of
                [] \<Rightarrow> Inl (ENoEngineConfig (om_Name (pod_Metadata pod)))
              | c # _ \<Rightarrow>
                  if c_Image c = [] then Inl (ENoEngineConfig (om_Name (pod_Metadata pod)))
                  else
                    (let imageName = image_name (c_Image c) in
                     if HasSuffix imageName ''.wasm'' then Inr (EngineWasm, imageName)
                     else
                       (case List.find stat (wasm_candidates imageName) of
                          Some cand \<Rightarrow> Inr (EngineWasm, cand)
                        | None \<Rightarrow> Inr (EngineNative, imageName)))))"

text \<open>The loop of \<open>CollectEnvVars\<close>; \<open>seen\<close> is the map of the names met so far.\<close>

fun collect_env :: "string list \<Rightarrow> EnvVar list \<Rightarrow> EnvVar list" where
  "collect_env seen [] = []"
| "collect_env seen (e # es) =
     (if ev_Name e \<in> set seen then collect_env seen es
      else e # collect_env (ev_Name e # seen) es)"

definition CollectEnvVars :: "Container list \<Rightarrow> EnvVar list" where
  "CollectEnvVars containers = collect_env [] (concat (map c_Env containers))"

section \<open>Environment variables\<close>

definition env_map :: "EnvVar list \<Rightarrow> string \<rightharpoonup> string" where
  "env_map es = map_of (map (\<lambda>e. (ev_Name e, ev_Value e)) es)"

lemma collect_env_names: "ev_Name ` set (collect_env seen es) = ev_Name ` set es - set seen"
  by (induction es arbitrary: seen) auto

lemma collect_env_distinct: "distinct (map ev_Name (collect_env seen es))"
  by (induction es arbitrary: seen) (auto simp: collect_env_names simp flip: image_set)

lemma collect_env_map:
  "n \<notin> set seen \<Longrightarrow> env_map (collect_env seen es) n = env_map es n"
  by (induction es arbitrary: seen) (auto simp: env_map_def)

section \<open>Image names\<close>

lemma image_name_plain:
  assumes "CHR ''/'' \<notin> set name" "CHR ''/'' \<notin> set tag" "CHR '':'' \<notin> set name"
  shows "image_name (registry @ ''/'' @ name @ '':'' @ tag) = name"
    and "image_name (name @ '':'' @ tag) = name"
    and "image_name name = name"
proof -
  have s: "split_str ''/'' (name @ '':'' @ tag) = [name @ '':'' @ tag]"
    using assms by (intro split_single_none) auto
  have c: "hd (split_str '':'' (name @ '':'' @ tag)) = name"
    using split_single_Cons [OF assms(3), of tag] by simp
  have "split_str ''/'' (registry @ ''/'' @ name @ '':'' @ tag) =
      split_str ''/'' registry @ [name @ '':'' @ tag]"
    using split_single_append [of "CHR ''/''" registry] s by simp
  with c show "image_name (registry @ ''/'' @ name @ '':'' @ tag) = name"
    by (simp add: image_name_def)
  show "image_name (name @ '':'' @ tag) = name"
    unfolding image_name_def s using c by simp
  show "image_name name = name"
    unfolding image_name_def by (simp add: split_single_none assms)
qed

section \<open>Properties\<close>

text \<open>\<open>CollectEnvVars\<close> merges the containers' variables without duplicates and with the first
  definition winning: every variable of some container is there once, with the value of its
  first occurrence.\<close>

theorem CollectEnvVars_first_wins:
  "distinct (map ev_Name (CollectEnvVars cs)) \<and>
   env_map (CollectEnvVars cs) = env_map (concat (map c_Env cs))"
  by (simp add: CollectEnvVars_def collect_env_distinct collect_env_map fun_eq_iff)

text \<open>The engine of a pod without annotations is found from its image: for an image with or
  without registry (itself with or without a port) and tag, the registry and the tag are
  stripped and, when no local wasm module of that name exists, the pod runs natively under the
  base name.\<close>

theorem image_selects_native:
  assumes "om_Annotations (pod_Metadata pod) = None" "ps_Containers (pod_Spec pod) = c # cs"
    and "CHR ''/'' \<notin> set name" "CHR ''/'' \<notin> set tag" "CHR '':'' \<notin> set name" "name \<noteq> []"
    and "\<not> HasSuffix name ''.wasm''" "\<forall>w \<in> set (wasm_candidates name). \<not> stat w"
    and "c_Image c \<in> {name, name @ '':'' @ tag, registry @ ''/'' @ name @ '':'' @ tag}"
  shows "ExtractEngineConfig stat pod = Inr (EngineNative, name)"
proof -
  have n: "image_name (c_Image c) = name" "c_Image c \<noteq> []"
    using image_name_plain [OF assms(3-5)] assms(6,9) by auto
  have "List.find stat (wasm_candidates name) = None"
    using assms(8) by (simp add: find_None_iff)
  with n assms(1,2,7) show ?thesis
    by (simp add: ExtractEngineConfig_def Let_def mlookup_def)
qed

theorem image_selects_native_witness:
  "ExtractEngineConfig (\<lambda>_. False)
     (zero_Pod\<lparr>pod_Spec := zero_PodSpec\<lparr>ps_Containers :=
        [zero_Container\<lparr>c_Image := ''localhost:5000/team/my-service:v1.2.0''\<rparr>]\<rparr>\<rparr>) =
   Inr (EngineNative, ''my-service'')"
  by (rule image_selects_native [where name = "''my-service''" and tag = "''v1.2.0''"
        and registry = "''localhost:5000/team''" and cs = "[]"
        and c = "zero_Container\<lparr>c_Image := ''localhost:5000/team/my-service:v1.2.0''\<rparr>"])
    (simp_all add: zero_Pod_def zero_ObjectMeta_def HasSuffix_def)

text \<open>Engine selection is total and its errors are exactly these: both annotations, an empty
  annotation, or no annotation and no image on the first container.  On success the engine is
  one of the two registered ones, and an annotation always decides over the image.\<close>

theorem ExtractEngineConfig_cases:
  "case ExtractEngineConfig stat pod of
     Inr (eng, target) \<Rightarrow>
       (eng = EngineNative \<or> eng = EngineWasm) \<and>
       (\<forall>e. mlookup (om_Annotations (pod_Metadata pod)) AnnotationExecutablePath = Some e \<longrightarrow>
          eng = EngineNative \<and> target = e) \<and>
       (\<forall>w. mlookup (om_Annotations (pod_Metadata pod)) AnnotationWasmModule = Some w \<longrightarrow>
          eng = EngineWasm \<and> target = w)
   | Inl err \<Rightarrow>
       mlookup (om_Annotations (pod_Metadata pod)) AnnotationExecutablePath \<noteq> None \<and>
       mlookup (om_Annotations (pod_Metadata pod)) AnnotationWasmModule \<noteq> None \<or>
       mget (om_Annotations (pod_Metadata pod)) AnnotationExecutablePath = [] \<and>
       mget (om_Annotations (pod_Metadata pod)) AnnotationWasmModule = [] \<and>
       (mlookup (om_Annotations (pod_Metadata pod)) AnnotationExecutablePath \<noteq> None \<or>
        mlookup (om_Annotations (pod_Metadata pod)) AnnotationWasmModule \<noteq> None \<or>
        (\<forall>c cs. ps_Containers (pod_Spec pod) = c # cs \<longrightarrow> c_Image c = []))"
  by (auto simp: ExtractEngineConfig_def Let_def mget_def
      split: option.splits list.splits sum.splits if_splits)

theorem ExtractEngineConfig_cases_witness:
  "ExtractEngineConfig (\<lambda>_. False) zero_Pod = Inl (ENoEngineConfig []) \<and>
   mget (om_Annotations (pod_Metadata zero_Pod)) AnnotationExecutablePath = []"
proof -
  have e: "ExtractEngineConfig (\<lambda>_. False) zero_Pod = Inl (ENoEngineConfig [])"
    by (simp add: ExtractEngineConfig_def zero_Pod_def zero_ObjectMeta_def zero_PodSpec_def
        mlookup_def)
  show ?thesis
    using ExtractEngineConfig_cases [where stat = "\<lambda>_. False" and pod = zero_Pod] e
    by (simp add: zero_Pod_def zero_ObjectMeta_def mlookup_def)
qed

end
