(* ===== verification/Store_DB.thy ===== *)
theory Store_DB
  imports Types
begin

text \<open>
  The database \<open>store/db.go\<close> on top of bbolt, and what the object stores share: a table in
  memory that is written through to one bucket.  bbolt is not part of the repository: it is a
  record of operations on a state of any type, with the documented laws the code relies on in
  \<open>bolt_ok\<close>.  JSON encoding of an object kind is a pair of functions, its \<open>codec\<close>.
\<close>

section \<open>The database\<close>

text \<open>
  \<open>bb_put\<close>, \<open>bb_delete\<close> and \<open>bb_create\<close> are the bucket operations inside a read-write transaction
  with its commit; an error rolls back.  \<open>bb_pairs\<close> is what \<open>ForEach\<close> enumerates.
\<close>

record 'b bolt =
  bb_bucket :: "string \<Rightarrow> 'b \<Rightarrow> bool"
  bb_create :: "string \<Rightarrow> 'b \<Rightarrow> goerror + 'b"
  bb_put :: "string \<Rightarrow> string \<Rightarrow> bytes \<Rightarrow> 'b \<Rightarrow> goerror + 'b"
  bb_delete :: "string \<Rightarrow> string \<Rightarrow> 'b \<Rightarrow> goerror + 'b"
  bb_get :: "string \<Rightarrow> string \<Rightarrow> 'b \<Rightarrow> bytes option"
  bb_pairs :: "string \<Rightarrow> 'b \<Rightarrow> (string \<times> bytes) list"

type_synonym 'v codec = "('v \<Rightarrow> goerror + bytes) \<times> (bytes \<Rightarrow> goerror + 'v)"

definition buckets :: "string list" where
  "buckets = [''pods'', ''services'', ''configmaps'', ''secrets'', ''deployments'', ''replicasets'']"

text \<open>The transaction of \<open>Open\<close> that creates the buckets; the first error ends it.\<close>

fun create_buckets :: "'b bolt \<Rightarrow> string list \<Rightarrow> 'b \<Rightarrow> goerror + 'b" where
  "create_buckets ops [] st = Inr st"
| "create_buckets ops (b # bs) st =
     (case bb_create ops b st of
        Inl e \<Rightarrow> Inl (ECreateBucket b e)
      | Inr st' \<Rightarrow> create_buckets ops bs st')"

definition DB_Open :: "'b bolt \<Rightarrow> goerror + 'b \<Rightarrow> goerror + 'b" where
  "DB_Open ops opened =
     (case opened of Inl e \<Rightarrow> Inl (EOpenDB e) | Inr st \<Rightarrow> create_buckets ops buckets st)"

definition DB_Put ::
  "'b bolt \<Rightarrow> ('v \<Rightarrow> goerror + bytes) \<Rightarrow> string \<Rightarrow> string \<Rightarrow> 'v \<Rightarrow> 'b \<Rightarrow> goerror option \<times> 'b" where
  "DB_Put ops marshal bucketName key val st =
     (case marshal val of
        Inl e \<Rightarrow> (Some (EMarshal e), st)
      | Inr data \<Rightarrow>
          if \<not> bb_bucket ops bucketName st then (Some (EBucketNotFound bucketName), st)
          else (case bb_put ops bucketName key data st of
                  Inl e \<Rightarrow> (Some e, st) | Inr st' \<Rightarrow> (None, st')))"

definition DB_Get ::
  "'b bolt \<Rightarrow> (bytes \<Rightarrow> goerror + 'v) \<Rightarrow> string \<Rightarrow> string \<Rightarrow> 'b \<Rightarrow> goerror + 'v option" where
  "DB_Get ops unmarshal bucketName key st =
     (if \<not> bb_bucket ops bucketName st then Inl (EBucketNotFound bucketName)
      else
        (case bb_get ops bucketName key st of
           None \<Rightarrow> Inr None
         | Some data \<Rightarrow>
             if data = [] then Inr None
             else (case unmarshal data of
                     Inl e \<Rightarrow> Inl (EUnmarshal e) | Inr v \<Rightarrow> Inr (Some v))))"

definition DB_Delete :: "'b bolt \<Rightarrow> string \<Rightarrow> string \<Rightarrow> 'b \<Rightarrow> goerror option \<times> 'b" where
  "DB_Delete ops bucketName key st =
     (if \<not> bb_bucket ops bucketName st then (Some (EBucketNotFound bucketName), st)
      else (case bb_delete ops bucketName key st of
              Inl e \<Rightarrow> (Some e, st) | Inr st' \<Rightarrow> (None, st')))"

fun for_each :: "(string \<Rightarrow> bytes \<Rightarrow> 'a \<Rightarrow> goerror option \<times> 'a) \<Rightarrow> (string \<times> bytes) list \<Rightarrow> 'a \<Rightarrow>
    goerror option \<times> 'a" where
  "for_each scanFn [] acc = (None, acc)"
| "for_each scanFn ((k, v) # kvs) acc =
     (case scanFn k v acc of
        (Some e, acc') \<Rightarrow> (Some e, acc')
      | (None, acc') \<Rightarrow> for_each scanFn kvs acc')"

definition DB_List :: "'b bolt \<Rightarrow> string \<Rightarrow> (string \<Rightarrow> bytes \<Rightarrow> 'a \<Rightarrow> goerror option \<times> 'a) \<Rightarrow>
    'b \<Rightarrow> 'a \<Rightarrow> goerror option \<times> 'a" where
  "DB_List ops bucketName scanFn st acc =
     (if \<not> bb_bucket ops bucketName st then (Some (EBucketNotFound bucketName), acc)
      else for_each scanFn (bb_pairs ops bucketName st) acc)"

text \<open>The database operations and the codecs of the six kinds of objects, as one argument.\<close>

record 'b storage =
  sg_bolt :: "'b bolt"
  sg_Pod :: "Pod codec"
  sg_Service :: "Service codec"
  sg_ConfigMap :: "ConfigMap codec"
  sg_Secret :: "Secret codec"
  sg_Deployment :: "Deployment codec"
  sg_ReplicaSet :: "ReplicaSet codec"

section \<open>A table written through to a bucket\<close>

text \<open>
  The state of one kind of objects: its \<open>sync.Map\<close> and the database, which may be nil.  Errors
  of the database are ignored (\<open>_ = s.db.Put(...)\<close>).
\<close>

type_synonym ('v, 'b) kv = "(string, 'v) tbl \<times> 'b option"

definition kv_put :: "'b bolt \<Rightarrow> 'v codec \<Rightarrow> string \<Rightarrow> string \<Rightarrow> 'v \<Rightarrow> ('v, 'b) kv \<Rightarrow> ('v, 'b) kv" where
  "kv_put ops c bucket key v s =
     (tstore key v (fst s), map_option (\<lambda>st. snd (DB_Put ops (fst c) bucket key v st)) (snd s))"

definition kv_del :: "'b bolt \<Rightarrow> string \<Rightarrow> string \<Rightarrow> ('v, 'b) kv \<Rightarrow> ('v, 'b) kv" where
  "kv_del ops bucket key s =
     (tdelete key (fst s), map_option (\<lambda>st. snd (DB_Delete ops bucket key st)) (snd s))"

definition kv_get :: "string \<Rightarrow> ('v, 'b) kv \<Rightarrow> 'v option" where
  "kv_get key s = tlookup (fst s) key"

definition kv_list :: "('v \<Rightarrow> ObjectMeta) \<Rightarrow> string \<Rightarrow> ('v, 'b) kv \<Rightarrow> 'v list" where
  "kv_list meta namespace s =
     filter (\<lambda>v. namespace = [] \<or> om_Namespace (meta v) = namespace) (map snd (fst s))"

text \<open>What a constructor does with a non-nil database: load every value that decodes.\<close>

definition load_scan :: "'v codec \<Rightarrow> string \<Rightarrow> bytes \<Rightarrow> (string, 'v) tbl \<Rightarrow> goerror option \<times> (string, 'v) tbl" where
  "load_scan c key val t =
     (case snd c val of Inr v \<Rightarrow> (None, tstore key v t) | Inl _ \<Rightarrow> (None, t))"

definition kv_load :: "'b bolt \<Rightarrow> 'v codec \<Rightarrow> string \<Rightarrow> 'b option \<Rightarrow> ('v, 'b) kv" where
  "kv_load ops c bucket db =
     (case db of
        None \<Rightarrow> ([], None)
      | Some st \<Rightarrow> (snd (DB_List ops bucket (load_scan c) st []), db))"

section \<open>What the code relies on\<close>

text \<open>
  The laws of bbolt: a successful write changes the value of its key in its bucket and nothing
  else, a deletion removes it, no operation removes a bucket, and \<open>ForEach\<close> enumerates the pairs
  of a bucket, each key once.  \<open>bolt_works\<close> adds that reads and writes with a non-empty key on
  an existing bucket do not fail.
\<close>

definition bolt_ok :: "'b bolt \<Rightarrow> bool" where
  "bolt_ok ops \<longleftrightarrow>
     (\<forall>b k d st st'. bb_put ops b k d st = Inr st' \<longrightarrow>
        bb_bucket ops b st \<longrightarrow>
        (\<forall>b'. bb_bucket ops b' st' = bb_bucket ops b' st) \<and>
        (\<forall>b' k'. bb_get ops b' k' st' = (if b' = b \<and> k' = k then Some d else bb_get ops b' k' st))) \<and>
     (\<forall>b k st st'. bb_delete ops b k st = Inr st' \<longrightarrow>
        bb_bucket ops b st \<longrightarrow>
        (\<forall>b'. bb_bucket ops b' st' = bb_bucket ops b' st) \<and>
        (\<forall>b' k'. bb_get ops b' k' st' = (if b' = b \<and> k' = k then None else bb_get ops b' k' st))) \<and>
     (\<forall>b st. bb_bucket ops b st \<longrightarrow>
        distinct (map fst (bb_pairs ops b st)) \<and>
        (\<forall>k. map_of (bb_pairs ops b st) k = bb_get ops b k st))"

definition bolt_works :: "'b bolt \<Rightarrow> bool" where
  "bolt_works ops \<longleftrightarrow> bolt_ok ops \<and>
     (\<forall>b k d st. bb_bucket ops b st \<longrightarrow> k \<noteq> [] \<longrightarrow>
        (\<exists>st'. bb_put ops b k d st = Inr st') \<and> (\<exists>st'. bb_delete ops b k st = Inr st'))"

text \<open>A value survives encoding and decoding.\<close>

definition codec_ok :: "'v codec \<Rightarrow> 'v \<Rightarrow> bool" where
  "codec_ok c v \<longleftrightarrow> (\<exists>d. fst c v = Inr d \<and> snd c d = Inr v)"

text \<open>The table and the bucket hold the same objects.\<close>

definition decoded :: "'b bolt \<Rightarrow> 'v codec \<Rightarrow> string \<Rightarrow> 'b \<Rightarrow> string \<Rightarrow> 'v option" where
  "decoded ops c bucket st k =
     (case bb_get ops bucket k st of
        None \<Rightarrow> None
      | Some d \<Rightarrow> (case snd c d of Inl _ \<Rightarrow> None | Inr v \<Rightarrow> Some v))"

definition kv_mirror :: "'b bolt \<Rightarrow> 'v codec \<Rightarrow> string \<Rightarrow> ('v, 'b) kv \<Rightarrow> bool" where
  "kv_mirror ops c bucket s \<longleftrightarrow> bolt_works ops \<and>
     (\<exists>st. snd s = Some st \<and> bb_bucket ops bucket st \<and>
        (\<forall>k. tlookup (fst s) k = decoded ops c bucket st k))"

definition kv_wf :: "('v \<Rightarrow> ObjectMeta) \<Rightarrow> ('v, 'b) kv \<Rightarrow> bool" where
  "kv_wf meta s \<longleftrightarrow> tdistinct (fst s) \<and>
     (\<forall>k v. tlookup (fst s) k = Some v \<longrightarrow> k = meta_key (meta v))"

section \<open>Lemmas\<close>

lemma DB_Put_ok:
  assumes "bolt_works ops" "bb_bucket ops b st" "k \<noteq> []" "codec_ok c v"
  obtains st' d where "DB_Put ops (fst c) b k v st = (None, st')" "snd c d = Inr v"
    "\<forall>b'. bb_bucket ops b' st' = bb_bucket ops b' st"
    "\<forall>b' k'. bb_get ops b' k' st' = (if b' = b \<and> k' = k then Some d else bb_get ops b' k' st)"
proof -
  obtain d where d: "fst c v = Inr d" "snd c d = Inr v" using assms(4) by (auto simp: codec_ok_def)
  obtain st' where st': "bb_put ops b k d st = Inr st'"
    using assms(1-3) unfolding bolt_works_def by blast
  have "bolt_ok ops" using assms(1) by (simp add: bolt_works_def)
  then show thesis using st' d assms(2) that [of st' d]
    by (simp add: bolt_ok_def DB_Put_def)
qed

lemma DB_Delete_ok:
  assumes "bolt_works ops" "bb_bucket ops b st" "k \<noteq> []"
  obtains st' where "DB_Delete ops b k st = (None, st')"
    "\<forall>b'. bb_bucket ops b' st' = bb_bucket ops b' st"
    "\<forall>b' k'. bb_get ops b' k' st' = (if b' = b \<and> k' = k then None else bb_get ops b' k' st)"
proof -
  obtain st' where st': "bb_delete ops b k st = Inr st'"
    using assms(1-3) unfolding bolt_works_def by blast
  have "bolt_ok ops" using assms(1) by (simp add: bolt_works_def)
  then show thesis using st' assms(2) that [of st'] by (simp add: bolt_ok_def DB_Delete_def)
qed

lemma kv_mirror_put:
  assumes "kv_mirror ops c b s" "k \<noteq> []" "codec_ok c v"
  shows "kv_mirror ops c b (kv_put ops c b k v s)"
proof -
  obtain st where st: "snd s = Some st" "bb_bucket ops b st" "bolt_works ops"
    and m: "\<forall>k. tlookup (fst s) k = decoded ops c b st k"
    using assms(1) by (auto simp: kv_mirror_def)
  obtain st' d where put: "DB_Put ops (fst c) b k v st = (None, st')" "snd c d = Inr v"
    and st': "\<forall>b'. bb_bucket ops b' st' = bb_bucket ops b' st"
      "\<forall>b' k'. bb_get ops b' k' st' = (if b' = b \<and> k' = k then Some d else bb_get ops b' k' st)"
    by (rule DB_Put_ok [OF st(3,2) assms(2,3)])
  have "decoded ops c b st' k' = (if k' = k then Some v else decoded ops c b st k')" for k'
    using put(2) st'(2) by (simp add: decoded_def)
  with st m put st'(1) show ?thesis by (simp add: kv_mirror_def kv_put_def)
qed

lemma kv_mirror_del:
  assumes "kv_mirror ops c b s" "k \<noteq> []"
  shows "kv_mirror ops c b (kv_del ops b k s)"
proof -
  obtain st where st: "snd s = Some st" "bb_bucket ops b st" "bolt_works ops"
    and m: "\<forall>k. tlookup (fst s) k = decoded ops c b st k"
    using assms(1) by (auto simp: kv_mirror_def)
  obtain st' where del: "DB_Delete ops b k st = (None, st')"
    and st': "\<forall>b'. bb_bucket ops b' st' = bb_bucket ops b' st"
      "\<forall>b' k'. bb_get ops b' k' st' = (if b' = b \<and> k' = k then None else bb_get ops b' k' st)"
    by (rule DB_Delete_ok [OF st(3,2) assms(2)])
  have "decoded ops c b st' k' = (if k' = k then None else decoded ops c b st k')" for k'
    using st'(2) by (simp add: decoded_def)
  with st m del st'(1) show ?thesis by (simp add: kv_mirror_def kv_del_def)
qed

lemma for_each_load:
  "distinct (map fst kvs) \<Longrightarrow>
   fst (for_each (load_scan c) kvs t) = None \<and>
   (tdistinct t \<longrightarrow> tdistinct (snd (for_each (load_scan c) kvs t))) \<and>
   tlookup (snd (for_each (load_scan c) kvs t)) k =
     (case map_of kvs k of
        None \<Rightarrow> tlookup t k
      | Some d \<Rightarrow> (case snd c d of Inl _ \<Rightarrow> tlookup t k | Inr v \<Rightarrow> Some v))"
proof (induction kvs arbitrary: t)
  case (Cons kv kvs)
  obtain a d where kv: "kv = (a, d)" by (cases kv)
  have a: "map_of kvs a = None" using Cons.prems by (simp add: kv map_of_eq_None_iff)
  show ?case
  proof (cases "snd c d")
    case (Inl e)
    then show ?thesis using Cons a by (auto simp: kv load_scan_def split: option.splits)
  next
    case (Inr v)
    then show ?thesis using Cons a
      by (auto simp: kv load_scan_def split: option.splits sum.splits)
  qed
qed simp

text \<open>Loading a mirrored bucket gives the table back.\<close>

lemma kv_load_mirror:
  assumes "kv_mirror ops c b s"
  shows "kv_mirror ops c b (kv_load ops c b (snd s))"
    and "kv_get k (kv_load ops c b (snd s)) = kv_get k s"
    and "tdistinct (fst (kv_load ops c b (snd s)))"
proof -
  obtain st where st: "snd s = Some st" "bb_bucket ops b st" "bolt_works ops"
    and m: "\<forall>k. tlookup (fst s) k = decoded ops c b st k"
    using assms by (auto simp: kv_mirror_def)
  have p: "distinct (map fst (bb_pairs ops b st))" "\<forall>k. map_of (bb_pairs ops b st) k = bb_get ops b k st"
    using st by (auto simp: bolt_works_def bolt_ok_def)
  have l: "kv_load ops c b (snd s) = (snd (for_each (load_scan c) (bb_pairs ops b st) []), Some st)"
    using st by (simp add: kv_load_def DB_List_def)
  have eq: "tlookup (fst (kv_load ops c b (snd s))) k = decoded ops c b st k" for k
    using for_each_load [OF p(1), of c "[]" k] p(2)
    by (simp add: l decoded_def split: option.splits sum.splits)
  then show "kv_mirror ops c b (kv_load ops c b (snd s))"
    using st unfolding kv_mirror_def by (metis l snd_conv)
  show "kv_get k (kv_load ops c b (snd s)) = kv_get k s"
    using eq m by (simp add: kv_get_def)
  show "tdistinct (fst (kv_load ops c b (snd s)))"
    using for_each_load [OF p(1), of c "[]"] by (simp add: l)
qed

lemma kv_load_pair: "(fst (kv_load ops c b db), db) = kv_load ops c b db"
  by (simp add: kv_load_def split: option.splits)

lemma kv_get_put [simp]: "kv_get k (kv_put ops c b k' v s) = (if k = k' then Some v else kv_get k s)"
  by (simp add: kv_get_def kv_put_def)

lemma kv_get_del [simp]: "kv_get k (kv_del ops b k' s) = (if k = k' then None else kv_get k s)"
  by (simp add: kv_get_def kv_del_def)

lemma kv_wf_put: "kv_wf meta s \<Longrightarrow> kv_wf meta (kv_put ops c b (meta_key (meta v)) v s)"
  by (simp add: kv_wf_def kv_put_def)

lemma kv_wf_del: "kv_wf meta s \<Longrightarrow> kv_wf meta (kv_del ops b k s)"
  by (simp add: kv_wf_def kv_del_def)

lemma kv_wf_load: "kv_mirror ops c b s \<Longrightarrow> kv_wf meta s \<Longrightarrow> kv_wf meta (kv_load ops c b (snd s))"
  using kv_load_mirror [of ops c b s] by (auto simp: kv_wf_def kv_get_def)

lemma kv_list_iff:
  "kv_wf meta s \<Longrightarrow> v \<in> set (kv_list meta ns s) \<longleftrightarrow>
   (ns = [] \<or> om_Namespace (meta v) = ns) \<and> kv_get (meta_key (meta v)) s = Some v"
  by (auto simp: kv_list_def kv_wf_def kv_get_def tvalues_iff)

lemma obj_key_nonempty [simp]: "obj_key ns n \<noteq> []"
  by (simp add: obj_key_def)

lemma meta_key_nonempty [simp]: "meta_key m \<noteq> []"
  by (simp add: meta_key_def)

text \<open>A write to one bucket leaves the mirror of every other bucket.\<close>

lemma bolt_put_law:
  assumes "bolt_ok ops" "bb_put ops b k d st = Inr st'" "bb_bucket ops b st"
  shows "bb_bucket ops b' st' = bb_bucket ops b' st"
    and "bb_get ops b' k' st' = (if b' = b \<and> k' = k then Some d else bb_get ops b' k' st)"
  using assms unfolding bolt_ok_def by blast+

lemma bolt_delete_law:
  assumes "bolt_ok ops" "bb_delete ops b k st = Inr st'" "bb_bucket ops b st"
  shows "bb_bucket ops b' st' = bb_bucket ops b' st"
    and "bb_get ops b' k' st' = (if b' = b \<and> k' = k then None else bb_get ops b' k' st)"
  using assms unfolding bolt_ok_def by blast+

lemma kv_mirror_frame:
  assumes "kv_mirror ops c b s" "b' \<noteq> b" "k \<noteq> []"
  shows "kv_mirror ops c b (fst s, snd (kv_put ops c' b' k v (t, snd s)))"
    and "kv_mirror ops c b (fst s, snd (kv_del ops b' k (t, snd s)))"
proof -
  obtain st where st: "snd s = Some st" "bb_bucket ops b st" "bolt_works ops"
    and m: "\<forall>k. tlookup (fst s) k = decoded ops c b st k"
    using assms(1) by (auto simp: kv_mirror_def)
  have ok: "bolt_ok ops" using st(3) by (simp add: bolt_works_def)
  have put: "bb_bucket ops b st' = bb_bucket ops b st \<and> decoded ops c b st' k' = decoded ops c b st k'"
    if "DB_Put ops (fst c') b' k v st = (e, st')" for e st' k'
    using that assms(2) bolt_put_law [OF ok] unfolding DB_Put_def decoded_def
    by (auto split: sum.splits if_splits)
  have del: "bb_bucket ops b st' = bb_bucket ops b st \<and> decoded ops c b st' k' = decoded ops c b st k'"
    if "DB_Delete ops b' k st = (e, st')" for e st' k'
    using that assms(2) bolt_delete_law [OF ok] unfolding DB_Delete_def decoded_def
    by (auto split: sum.splits if_splits)
  show "kv_mirror ops c b (fst s, snd (kv_put ops c' b' k v (t, snd s)))"
    using put [OF surjective_pairing] st m by (simp add: kv_mirror_def kv_put_def)
  show "kv_mirror ops c b (fst s, snd (kv_del ops b' k (t, snd s)))"
    using del [OF surjective_pairing] st m by (simp add: kv_mirror_def kv_del_def)
qed

section \<open>The contract of an object store\<close>

text \<open>
  Six kinds of objects have the same four operations.  \<open>norm\<close> is what an object becomes when it
  is stored (secrets are normalised), \<open>meta\<close> its metadata.
\<close>

datatype 'v store_op = SPut 'v | SDel string string | SRestart

fun run_ops :: "('v \<Rightarrow> 's \<Rightarrow> 's) \<Rightarrow> (string \<Rightarrow> string \<Rightarrow> 's \<Rightarrow> 's) \<Rightarrow> ('s \<Rightarrow> 's) \<Rightarrow> 'v store_op list \<Rightarrow> 's \<Rightarrow> 's" where
  "run_ops put del restart [] s = s"
| "run_ops put del restart (SPut v # xs) s = run_ops put del restart xs (put v s)"
| "run_ops put del restart (SDel ns n # xs) s = run_ops put del restart xs (del ns n s)"
| "run_ops put del restart (SRestart # xs) s = run_ops put del restart xs (restart s)"

text \<open>The specification: the last operation on a key decides, restarts do nothing.\<close>

fun last_write :: "('v \<Rightarrow> ObjectMeta) \<Rightarrow> ('v \<Rightarrow> 'v) \<Rightarrow> string \<Rightarrow> 'v store_op list \<Rightarrow> 'v option \<Rightarrow> 'v option" where
  "last_write meta norm k [] r = r"
| "last_write meta norm k (SPut v # xs) r =
     last_write meta norm k xs (if meta_key (meta v) = k then Some (norm v) else r)"
| "last_write meta norm k (SDel ns n # xs) r =
     last_write meta norm k xs (if obj_key ns n = k then None else r)"
| "last_write meta norm k (SRestart # xs) r = last_write meta norm k xs r"

definition puts_ok :: "('v \<Rightarrow> bool) \<Rightarrow> 'v store_op list \<Rightarrow> bool" where
  "puts_ok ok xs = list_all (\<lambda>x. case x of SPut v \<Rightarrow> ok v | _ \<Rightarrow> True) xs"

locale keyed_store =
  fixes put :: "'v \<Rightarrow> 's \<Rightarrow> 's"
    and get :: "string \<Rightarrow> string \<Rightarrow> 's \<Rightarrow> 'v option"
    and del :: "string \<Rightarrow> string \<Rightarrow> 's \<Rightarrow> 's"
    and lst :: "string \<Rightarrow> 's \<Rightarrow> 'v list"
    and norm :: "'v \<Rightarrow> 'v"
    and meta :: "'v \<Rightarrow> ObjectMeta"
    and invar :: "'s \<Rightarrow> bool"
  assumes get_put: "get ns n (put v s) =
      (if obj_key ns n = meta_key (meta v) then Some (norm v) else get ns n s)"
    and get_del: "get ns n (del ns' n' s) =
      (if obj_key ns n = obj_key ns' n' then None else get ns n s)"
    and lst_iff: "invar s \<Longrightarrow> v \<in> set (lst ns s) \<longleftrightarrow>
      (ns = [] \<or> om_Namespace (meta v) = ns) \<and>
      get (om_Namespace (meta v)) (om_Name (meta v)) s = Some v"
    and invar_put: "invar s \<Longrightarrow> invar (put v s)"
    and invar_del: "invar s \<Longrightarrow> invar (del ns n s)"
    and meta_norm: "meta (norm v) = meta v"
begin

lemma get_own: "get (om_Namespace (meta v)) (om_Name (meta v)) (put v s) = Some (norm v)"
  by (simp add: get_put meta_key_def)

lemma lst_put:
  "invar s \<Longrightarrow> set (lst ns (put v s)) =
   {w \<in> set (lst ns s). meta_key (meta w) \<noteq> meta_key (meta v)} \<union>
   (if ns = [] \<or> om_Namespace (meta v) = ns then {norm v} else {})"
  by (auto simp: lst_iff invar_put get_put meta_norm meta_key_def split: if_splits)

lemma lst_del:
  "invar s \<Longrightarrow> set (lst ns (del ns' n' s)) =
   {w \<in> set (lst ns s). meta_key (meta w) \<noteq> obj_key ns' n'}"
  by (auto simp: lst_iff invar_del get_del meta_key_def split: if_splits)

lemma lst_unique:
  "invar s \<Longrightarrow> v \<in> set (lst ns s) \<Longrightarrow> w \<in> set (lst ns' s) \<Longrightarrow>
   om_Namespace (meta v) = om_Namespace (meta w) \<Longrightarrow> om_Name (meta v) = om_Name (meta w) \<Longrightarrow> v = w"
  by (simp add: lst_iff)

end

locale persistent_store = keyed_store +
  fixes restart :: "'s \<Rightarrow> 's"
    and persisted :: "'s \<Rightarrow> bool"
    and storable :: "'v \<Rightarrow> bool"
  assumes persisted_put: "persisted s \<Longrightarrow> storable v \<Longrightarrow> persisted (put v s)"
    and persisted_del: "persisted s \<Longrightarrow> persisted (del ns n s)"
    and persisted_restart: "persisted s \<Longrightarrow> persisted (restart s)"
    and get_restart: "persisted s \<Longrightarrow> get ns n (restart s) = get ns n s"
    and invar_restart: "persisted s \<Longrightarrow> invar s \<Longrightarrow> invar (restart s)"
begin

lemma run_invar:
  "persisted s \<Longrightarrow> invar s \<Longrightarrow> puts_ok storable xs \<Longrightarrow>
   persisted (run_ops put del restart xs s) \<and> invar (run_ops put del restart xs s)"
proof (induction xs arbitrary: s)
  case (Cons x xs)
  then show ?case
    by (cases x) (auto simp: puts_ok_def persisted_put persisted_del persisted_restart invar_put
      invar_del invar_restart)
qed simp

lemma run_get:
  "persisted s \<Longrightarrow> puts_ok storable xs \<Longrightarrow>
   get ns n (run_ops put del restart xs s) = last_write meta norm (obj_key ns n) xs (get ns n s)"
proof (induction xs arbitrary: s)
  case (Cons x xs)
  then show ?case
    by (cases x) (auto simp: puts_ok_def persisted_put persisted_del persisted_restart get_put
      get_del get_restart eq_commute)
qed simp

text \<open>Reading and listing after any history of writes, deletions and restarts.\<close>

lemma run_history:
  assumes "persisted s" "invar s" "puts_ok storable xs"
  shows "get ns n (run_ops put del restart xs s) = last_write meta norm (obj_key ns n) xs (get ns n s)"
    and "v \<in> set (lst ns' (run_ops put del restart xs s)) \<longleftrightarrow>
      (ns' = [] \<or> om_Namespace (meta v) = ns') \<and>
      last_write meta norm (meta_key (meta v)) xs
        (get (om_Namespace (meta v)) (om_Name (meta v)) s) = Some v"
  using assms by (simp_all add: run_get lst_iff run_invar meta_key_def)

end

text \<open>
  A store whose operations act on one table and one bucket, seen through \<open>V\<close>, satisfies the
  contract.
\<close>

lemma persistent_store_via_kv:
  assumes put: "\<And>v x. V (put v x) = kv_put ops c b (meta_key (meta v)) (norm v) (V x)"
    and del: "\<And>ns n x. V (del ns n x) = kv_del ops b (obj_key ns n) (V x)"
    and get: "\<And>ns n x. get ns n x = kv_get (obj_key ns n) (V x)"
    and lst: "\<And>ns x. lst ns x = kv_list meta ns (V x)"
    and restart: "\<And>x. V (restart x) = kv_load ops c b (snd (V x))"
    and norm: "\<And>v. meta (norm v) = meta v"
  shows "persistent_store put get del lst norm meta (\<lambda>x. kv_wf meta (V x)) restart
    (\<lambda>x. kv_mirror ops c b (V x)) (\<lambda>v. codec_ok c (norm v))"
proof (unfold_locales, goal_cases)
  case (3 s v ns)
  then show ?case by (simp add: get lst kv_list_iff meta_key_def)
next
  case (4 s v)
  then show ?case using kv_wf_put [of meta "V s" ops c b "norm v"] by (simp add: put norm)
next
  case (7 s v)
  then show ?case by (simp add: put kv_mirror_put)
next
  case (9 s)
  then show ?case by (simp add: restart kv_load_mirror(1))
next
  case (10 s ns n)
  then show ?case by (simp add: get restart kv_load_mirror(2))
next
  case (11 s)
  then show ?case by (simp add: restart kv_wf_load)
qed (simp_all add: put del get norm kv_wf_del kv_mirror_del)

section \<open>The laws can hold\<close>

text \<open>A database kept in memory, one table per bucket, satisfies what is asked of bbolt.\<close>

type_synonym mem_db = "(string, (string, bytes) tbl) tbl"

definition mem_bolt :: "mem_db bolt" where
  "mem_bolt =
     \<lparr>bb_bucket = (\<lambda>b st. tlookup st b \<noteq> None),
      bb_create = (\<lambda>b st. Inr (if tlookup st b = None then tstore b [] st else st)),
      bb_put = (\<lambda>b k d st. case tlookup st b of
         None \<Rightarrow> Inl (EExt ''bucket not found'') | Some t \<Rightarrow> Inr (tstore b (tstore k d t) st)),
      bb_delete = (\<lambda>b k st. case tlookup st b of
         None \<Rightarrow> Inl (EExt ''bucket not found'') | Some t \<Rightarrow> Inr (tstore b (tdelete k t) st)),
      bb_get = (\<lambda>b k st. case tlookup st b of None \<Rightarrow> None | Some t \<Rightarrow> tlookup t k),
      bb_pairs = (\<lambda>b st. case tlookup st b of None \<Rightarrow> [] | Some t \<Rightarrow> AList.clearjunk t)\<rparr>"

lemma mem_bolt_put:
  "bb_put mem_bolt b k d st = Inr st' \<Longrightarrow>
   bb_bucket mem_bolt b' st' = bb_bucket mem_bolt b' st \<and>
   bb_get mem_bolt b' k' st' = (if b' = b \<and> k' = k then Some d else bb_get mem_bolt b' k' st)"
  by (cases "tlookup st b") (auto simp: mem_bolt_def split: if_splits)

lemma mem_bolt_delete:
  "bb_delete mem_bolt b k st = Inr st' \<Longrightarrow>
   bb_bucket mem_bolt b' st' = bb_bucket mem_bolt b' st \<and>
   bb_get mem_bolt b' k' st' = (if b' = b \<and> k' = k then None else bb_get mem_bolt b' k' st)"
  by (cases "tlookup st b") (auto simp: mem_bolt_def split: if_splits)

lemma mem_bolt_pairs:
  "bb_bucket mem_bolt b st \<Longrightarrow>
   distinct (map fst (bb_pairs mem_bolt b st)) \<and> map_of (bb_pairs mem_bolt b st) k = bb_get mem_bolt b k st"
  by (cases "tlookup st b") (simp_all add: mem_bolt_def map_of_clearjunk distinct_clearjunk)

lemma mem_bolt_live:
  "bb_bucket mem_bolt b st \<Longrightarrow>
   (\<exists>st'. bb_put mem_bolt b k d st = Inr st') \<and> (\<exists>st'. bb_delete mem_bolt b k st = Inr st')"
  by (cases "tlookup st b") (simp_all add: mem_bolt_def)

lemma mem_bolt_works: "bolt_works mem_bolt"
proof -
  have "bolt_ok mem_bolt"
    unfolding bolt_ok_def
    by (intro conjI allI impI)
      (simp_all only: mem_bolt_put mem_bolt_delete mem_bolt_pairs simp_thms)
  then show ?thesis unfolding bolt_works_def using mem_bolt_live by blast
qed

definition const_codec :: "'v \<Rightarrow> 'v codec" where
  "const_codec v = (\<lambda>_. Inr ''{}'', \<lambda>_. Inr v)"

lemma const_codec_ok [simp]: "codec_ok (const_codec v) v"
  by (simp add: codec_ok_def const_codec_def)

definition empty_db :: mem_db where
  "empty_db = map (\<lambda>b. (b, [])) buckets"

lemma empty_db_lookup: "b \<in> set buckets \<Longrightarrow> tlookup empty_db b = Some []"
  unfolding empty_db_def map_of_map_restrict by simp

lemma empty_db_mirror:
  assumes "b \<in> set buckets"
  shows "kv_mirror mem_bolt c b ([], Some empty_db)"
proof -
  have "bb_bucket mem_bolt b empty_db" "bb_get mem_bolt b k empty_db = None" for k
    using empty_db_lookup [OF assms] by (simp_all add: mem_bolt_def)
  then show ?thesis by (simp add: kv_mirror_def mem_bolt_works decoded_def)
qed

definition demo_storage :: "mem_db storage" where
  "demo_storage =
     \<lparr>sg_bolt = mem_bolt, sg_Pod = const_codec zero_Pod, sg_Service = const_codec zero_Service,
      sg_ConfigMap = const_codec zero_ConfigMap, sg_Secret = const_codec zero_Secret,
      sg_Deployment = const_codec zero_Deployment, sg_ReplicaSet = const_codec zero_ReplicaSet\<rparr>"

section \<open>Properties\<close>

text \<open>What is put under a key is got back, until another value is put there or it is deleted;
  other keys and other buckets keep what they have, and a deleted key is absent.\<close>

theorem DB_Put_Get_roundtrip:
  assumes "bolt_works ops" "bb_bucket ops b st" "k \<noteq> []"
    and "fst c v = Inr d" "snd c d = Inr v" "d \<noteq> []"
  shows "\<exists>st'. DB_Put ops (fst c) b k v st = (None, st') \<and> DB_Get ops (snd c) b k st' = Inr (Some v) \<and>
      (\<forall>b' k'. (b', k') \<noteq> (b, k) \<longrightarrow> DB_Get ops (snd c) b' k' st' = DB_Get ops (snd c) b' k' st) \<and>
      (\<exists>st''. DB_Delete ops b k st' = (None, st'') \<and> DB_Get ops (snd c) b k st'' = Inr None)"
proof -
  obtain st' where put: "bb_put ops b k d st = Inr st'"
    using assms(1-3) unfolding bolt_works_def by blast
  note law = bolt_put_law [OF _ put assms(2)]
  have ok: "bolt_ok ops" using assms(1) by (simp add: bolt_works_def)
  have bk: "bb_bucket ops b st'" using law(1) [OF ok] assms(2) by simp
  obtain st'' where del: "DB_Delete ops b k st' = (None, st'')"
    and st'': "\<forall>b'. bb_bucket ops b' st'' = bb_bucket ops b' st'"
      "\<forall>b' k'. bb_get ops b' k' st'' = (if b' = b \<and> k' = k then None else bb_get ops b' k' st')"
    by (rule DB_Delete_ok [OF assms(1) bk assms(3)])
  show ?thesis
    using put assms law [OF ok] del st'' bk
    by (intro exI [of _ st']) (auto simp: DB_Put_def DB_Get_def)
qed

theorem DB_Put_Get_roundtrip_witness:
  "\<exists>st'. DB_Put mem_bolt (fst (const_codec zero_Pod)) ''pods'' ''a/b'' zero_Pod empty_db = (None, st') \<and>
     DB_Get mem_bolt (snd (const_codec zero_Pod)) ''pods'' ''a/b'' st' = Inr (Some zero_Pod)"
proof -
  have "bb_bucket mem_bolt ''pods'' empty_db"
    using empty_db_lookup [of "''pods''"] by (simp add: mem_bolt_def buckets_def)
  then show ?thesis
    using DB_Put_Get_roundtrip [of mem_bolt "''pods''" empty_db "''a/b''" "const_codec zero_Pod"
      zero_Pod "''{}''"] mem_bolt_works by (auto simp: const_codec_def)
qed

end
