(* ===== verification/Config_Store.thy ===== *)
theory Config_Store
  imports Store_DB
begin

text \<open>
  The store of config maps and secrets, \<open>config/store.go\<close>: two \<open>sync.Map\<close>s written through to
  the buckets \<open>configmaps\<close> and \<open>secrets\<close> of the shared database.  Storing a secret merges its
  \<open>stringData\<close> into its data.
\<close>

section \<open>Model\<close>

record ConfigStore =
  cfg_configMaps :: "(string, ConfigMap) tbl"
  cfg_secrets :: "(string, Secret) tbl"

type_synonym 'b cfg = "ConfigStore \<times> 'b option"

definition NewConfigStore :: "'b storage \<Rightarrow> 'b option \<Rightarrow> 'b cfg" where
  "NewConfigStore G db =
     (\<lparr>cfg_configMaps = fst (kv_load (sg_bolt G) (sg_ConfigMap G) ''configmaps'' db),
       cfg_secrets = fst (kv_load (sg_bolt G) (sg_Secret G) ''secrets'' db)\<rparr>, db)"

definition StoreConfigMap :: "'b storage \<Rightarrow> ConfigMap \<Rightarrow> 'b cfg \<Rightarrow> 'b cfg" where
  "StoreConfigMap G cm x =
     (let key = om_Namespace (cm_Metadata cm) @ ''/'' @ om_Name (cm_Metadata cm);
          s = kv_put (sg_bolt G) (sg_ConfigMap G) ''configmaps'' key cm (cfg_configMaps (fst x), snd x)
      in ((fst x)\<lparr>cfg_configMaps := fst s\<rparr>, snd s))"

definition LoadConfigMap :: "string \<Rightarrow> string \<Rightarrow> 'b cfg \<Rightarrow> ConfigMap option" where
  "LoadConfigMap namespace name x = tlookup (cfg_configMaps (fst x)) (namespace @ ''/'' @ name)"

definition DeleteConfigMap :: "'b storage \<Rightarrow> string \<Rightarrow> string \<Rightarrow> 'b cfg \<Rightarrow> 'b cfg" where
  "DeleteConfigMap G namespace name x =
     (let s = kv_del (sg_bolt G) ''configmaps'' (namespace @ ''/'' @ name)
                (cfg_configMaps (fst x), snd x)
      in ((fst x)\<lparr>cfg_configMaps := fst s\<rparr>, snd s))"

definition ListConfigMaps :: "string \<Rightarrow> 'b cfg \<Rightarrow> ConfigMap list" where
  "ListConfigMaps namespace x =
     filter (\<lambda>cm. namespace = [] \<or> om_Namespace (cm_Metadata cm) = namespace)
       (map snd (cfg_configMaps (fst x)))"

text \<open>The conversion at the top of \<open>StoreSecret\<close>.\<close>

definition normalize_secret :: "Secret \<Rightarrow> Secret" where
  "normalize_secret sec =
     sec\<lparr>sec_Data := mput_all (mentries (sec_StringData sec))
           (case sec_Data sec of None \<Rightarrow> Some [] | Some d \<Rightarrow> Some d),
         sec_StringData := None\<rparr>"

definition StoreSecret :: "'b storage \<Rightarrow> Secret \<Rightarrow> 'b cfg \<Rightarrow> 'b cfg" where
  "StoreSecret G sec0 x =
     (let sec = normalize_secret sec0;
          key = om_Namespace (sec_Metadata sec) @ ''/'' @ om_Name (sec_Metadata sec);
          s = kv_put (sg_bolt G) (sg_Secret G) ''secrets'' key sec (cfg_secrets (fst x), snd x)
      in ((fst x)\<lparr>cfg_secrets := fst s\<rparr>, snd s))"

definition LoadSecret :: "string \<Rightarrow> string \<Rightarrow> 'b cfg \<Rightarrow> Secret option" where
  "LoadSecret namespace name x = tlookup (cfg_secrets (fst x)) (namespace @ ''/'' @ name)"

definition DeleteSecret :: "'b storage \<Rightarrow> string \<Rightarrow> string \<Rightarrow> 'b cfg \<Rightarrow> 'b cfg" where
  "DeleteSecret G namespace name x =
     (let s = kv_del (sg_bolt G) ''secrets'' (namespace @ ''/'' @ name) (cfg_secrets (fst x), snd x)
      in ((fst x)\<lparr>cfg_secrets := fst s\<rparr>, snd s))"

definition ListSecrets :: "string \<Rightarrow> 'b cfg \<Rightarrow> Secret list" where
  "ListSecrets namespace x =
     filter (\<lambda>sec. namespace = [] \<or> om_Namespace (sec_Metadata sec) = namespace)
       (map snd (cfg_secrets (fst x)))"

section \<open>The contract\<close>

definition cm_kv :: "'b cfg \<Rightarrow> (ConfigMap, 'b) kv" where
  "cm_kv x = (cfg_configMaps (fst x), snd x)"

definition sec_kv :: "'b cfg \<Rightarrow> (Secret, 'b) kv" where
  "sec_kv x = (cfg_secrets (fst x), snd x)"

lemma normalize_secret_meta [simp]: "sec_Metadata (normalize_secret sec) = sec_Metadata sec"
  by (simp add: normalize_secret_def)

interpretation cms: persistent_store "StoreConfigMap G" LoadConfigMap "DeleteConfigMap G"
  ListConfigMaps "\<lambda>cm. cm" cm_Metadata "\<lambda>x. kv_wf cm_Metadata (cm_kv x)"
  "\<lambda>x. NewConfigStore G (snd x)"
  "\<lambda>x. kv_mirror (sg_bolt G) (sg_ConfigMap G) ''configmaps'' (cm_kv x)"
  "\<lambda>cm. codec_ok (sg_ConfigMap G) cm" for G :: "'b storage"
  by (rule persistent_store_via_kv)
    (simp_all add: cm_kv_def StoreConfigMap_def DeleteConfigMap_def LoadConfigMap_def
      ListConfigMaps_def NewConfigStore_def kv_load_pair kv_get_def kv_list_def Let_def
      meta_key_def obj_key_def)

interpretation secs: persistent_store "StoreSecret G" LoadSecret "DeleteSecret G"
  ListSecrets normalize_secret sec_Metadata "\<lambda>x. kv_wf sec_Metadata (sec_kv x)"
  "\<lambda>x. NewConfigStore G (snd x)"
  "\<lambda>x. kv_mirror (sg_bolt G) (sg_Secret G) ''secrets'' (sec_kv x)"
  "\<lambda>sec. codec_ok (sg_Secret G) (normalize_secret sec)" for G :: "'b storage"
  by (rule persistent_store_via_kv)
    (simp_all add: sec_kv_def StoreSecret_def DeleteSecret_def LoadSecret_def
      ListSecrets_def NewConfigStore_def kv_load_pair kv_get_def kv_list_def Let_def
      meta_key_def obj_key_def)

section \<open>Properties\<close>


definition empty_cfg :: "mem_db cfg" where
  "empty_cfg = (\<lparr>cfg_configMaps = [], cfg_secrets = []\<rparr>, Some empty_db)"

lemma empty_cfg_ok [simp]:
  "kv_mirror mem_bolt c ''configmaps'' (cm_kv empty_cfg)" "kv_wf cm_Metadata (cm_kv empty_cfg)"
  "kv_mirror mem_bolt c' ''secrets'' (sec_kv empty_cfg)" "kv_wf sec_Metadata (sec_kv empty_cfg)"
  by (simp_all add: cm_kv_def sec_kv_def empty_cfg_def empty_db_mirror buckets_def kv_wf_def)


text \<open>Storing a secret converts it: under its key a secret is found whose \<open>stringData\<close> is
  empty and whose data is the old data overridden by \<open>stringData\<close>, key by key.\<close>

theorem StoreSecret_merges_stringData:
  assumes "mdistinct (sec_StringData sec)"
  shows "\<exists>sec'. LoadSecret (om_Namespace (sec_Metadata sec)) (om_Name (sec_Metadata sec))
      (StoreSecret G sec x) = Some sec' \<and>
    sec_StringData sec' = None \<and> sec_Data sec' \<noteq> None \<and>
    sec_Metadata sec' = sec_Metadata sec \<and> sec_Type sec' = sec_Type sec \<and>
    mlookup (sec_Data sec') k =
      (case mlookup (sec_StringData sec) k of Some v \<Rightarrow> Some v | None \<Rightarrow> mlookup (sec_Data sec) k)"
proof (intro exI conjI)
  show "LoadSecret (om_Namespace (sec_Metadata sec)) (om_Name (sec_Metadata sec))
      (StoreSecret G sec x) = Some (normalize_secret sec)"
    by (rule secs.get_own)
  have m: "sec_Data (normalize_secret sec) =
      mput_all (mentries (sec_StringData sec)) (Some (mentries (sec_Data sec)))"
    by (simp add: normalize_secret_def mentries_def split: option.splits)
  show "sec_Data (normalize_secret sec) \<noteq> None"
    using mput_all_not_nil [of "mentries (sec_StringData sec)" "Some (mentries (sec_Data sec))"]
    unfolding m by (cases "mentries (sec_StringData sec) = []") (auto simp: mput_all_def)
  show "mlookup (sec_Data (normalize_secret sec)) k =
      (case mlookup (sec_StringData sec) k of Some v \<Rightarrow> Some v | None \<Rightarrow> mlookup (sec_Data sec) k)"
    unfolding m using assms
    by (subst mlookup_mput_all) (simp_all add: mdistinct_def mlookup_def split: option.splits)
qed (simp_all add: normalize_secret_def)

theorem StoreSecret_merges_stringData_witness:
  "\<exists>sec'. LoadSecret [] [] (StoreSecret demo_storage
     (zero_Secret\<lparr>sec_Data := Some [(''a'', ''1'')], sec_StringData := Some [(''a'', ''2'')]\<rparr>)
     empty_cfg) = Some sec' \<and> mlookup (sec_Data sec') ''a'' = Some ''2''"
  using StoreSecret_merges_stringData [of
      "zero_Secret\<lparr>sec_Data := Some [(''a'', ''1'')], sec_StringData := Some [(''a'', ''2'')]\<rparr>"
      demo_storage empty_cfg "''a''"]
  by (auto simp: mdistinct_def mlookup_def zero_Secret_def zero_ObjectMeta_def)

end
