(* ===== verification/Service_Store.thy ===== *)
theory Service_Store
  imports Store_DB
begin

text \<open>The store of services, \<open>service/store.go\<close>: a \<open>sync.Map\<close> and the bucket \<open>services\<close>.\<close>

section \<open>Model\<close>

record ServiceStore =
  sst_services :: "(string, Service) tbl"

type_synonym 'b sst = "ServiceStore \<times> 'b option"

definition NewServiceStore :: "'b storage \<Rightarrow> 'b option \<Rightarrow> 'b sst" where
  "NewServiceStore G db =
     (\<lparr>sst_services = fst (kv_load (sg_bolt G) (sg_Service G) ''services'' db)\<rparr>, db)"

definition ServiceStore_Store :: "'b storage \<Rightarrow> Service \<Rightarrow> 'b sst \<Rightarrow> 'b sst" where
  "ServiceStore_Store G svc x =
     (let key = om_Namespace (svc_Metadata svc) @ ''/'' @ om_Name (svc_Metadata svc);
          s = kv_put (sg_bolt G) (sg_Service G) ''services'' key svc (sst_services (fst x), snd x)
      in ((fst x)\<lparr>sst_services := fst s\<rparr>, snd s))"

definition ServiceStore_Load :: "string \<Rightarrow> string \<Rightarrow> 'b sst \<Rightarrow> Service option" where
  "ServiceStore_Load namespace name x = tlookup (sst_services (fst x)) (namespace @ ''/'' @ name)"

definition ServiceStore_Delete :: "'b storage \<Rightarrow> string \<Rightarrow> string \<Rightarrow> 'b sst \<Rightarrow> 'b sst" where
  "ServiceStore_Delete G namespace name x =
     (let s = kv_del (sg_bolt G) ''services'' (namespace @ ''/'' @ name)
                (sst_services (fst x), snd x)
      in ((fst x)\<lparr>sst_services := fst s\<rparr>, snd s))"

definition ServiceStore_List :: "string \<Rightarrow> 'b sst \<Rightarrow> Service list" where
  "ServiceStore_List namespace x =
     filter (\<lambda>svc. namespace = [] \<or> om_Namespace (svc_Metadata svc) = namespace)
       (map snd (sst_services (fst x)))"

section \<open>The contract\<close>

definition svc_kv :: "'b sst \<Rightarrow> (Service, 'b) kv" where
  "svc_kv x = (sst_services (fst x), snd x)"

interpretation svcs: persistent_store "ServiceStore_Store G" ServiceStore_Load
  "ServiceStore_Delete G" ServiceStore_List "\<lambda>svc. svc" svc_Metadata
  "\<lambda>x. kv_wf svc_Metadata (svc_kv x)" "\<lambda>x. NewServiceStore G (snd x)"
  "\<lambda>x. kv_mirror (sg_bolt G) (sg_Service G) ''services'' (svc_kv x)"
  "\<lambda>svc. codec_ok (sg_Service G) svc" for G :: "'b storage"
  by (rule persistent_store_via_kv)
    (simp_all add: svc_kv_def ServiceStore_Store_def ServiceStore_Delete_def ServiceStore_Load_def
      ServiceStore_List_def NewServiceStore_def kv_load_pair kv_get_def kv_list_def Let_def
      meta_key_def obj_key_def)

section \<open>Properties\<close>

text \<open>Services survive: after any history of stores, deletions and restarts, loading a service
  gives the last one stored under its key and not deleted since, and listing a namespace gives
  exactly those.\<close>

theorem services_survive_restarts:
  assumes "kv_mirror (sg_bolt G) (sg_Service G) ''services'' (svc_kv x)"
    and "kv_wf svc_Metadata (svc_kv x)" and "puts_ok (codec_ok (sg_Service G)) xs"
  shows "ServiceStore_Load ns n
      (run_ops (ServiceStore_Store G) (ServiceStore_Delete G) (\<lambda>x. NewServiceStore G (snd x)) xs x) =
      last_write svc_Metadata (\<lambda>svc. svc) (obj_key ns n) xs (ServiceStore_Load ns n x) \<and>
    (svc \<in> set (ServiceStore_List ns'
      (run_ops (ServiceStore_Store G) (ServiceStore_Delete G) (\<lambda>x. NewServiceStore G (snd x)) xs x)) \<longleftrightarrow>
      (ns' = [] \<or> om_Namespace (svc_Metadata svc) = ns') \<and>
      last_write svc_Metadata (\<lambda>svc. svc) (meta_key (svc_Metadata svc)) xs
        (ServiceStore_Load (om_Namespace (svc_Metadata svc)) (om_Name (svc_Metadata svc)) x) = Some svc)"
  using svcs.run_history [OF assms] by blast

theorem services_survive_restarts_witness:
  "ServiceStore_Load [] [] (run_ops (ServiceStore_Store demo_storage)
     (ServiceStore_Delete demo_storage) (\<lambda>x. NewServiceStore demo_storage (snd x))
     [SPut zero_Service, SRestart] (\<lparr>sst_services = []\<rparr>, Some empty_db)) = Some zero_Service"
  using services_survive_restarts [of demo_storage "(\<lparr>sst_services = []\<rparr>, Some empty_db)"
    "[SPut zero_Service, SRestart]" "[]" "[]"]
  by (simp add: demo_storage_def svc_kv_def empty_db_mirror buckets_def kv_wf_def puts_ok_def
      meta_key_def obj_key_def zero_Service_def zero_ObjectMeta_def)

end
