(* ===== verification/Controller_Store.thy ===== *)
theory Controller_Store
  imports Store_DB
begin

text \<open>
  The store of deployments and replica sets, \<open>controller/store.go\<close>: two \<open>sync.Map\<close>s and the
  buckets \<open>deployments\<close> and \<open>replicasets\<close>.
\<close>

section \<open>Model\<close>

record ControllerStore =
  ctl_deployments :: "(string, Deployment) tbl"
  ctl_replicaSets :: "(string, ReplicaSet) tbl"

type_synonym 'b ctl = "ControllerStore \<times> 'b option"

definition NewControllerStore :: "'b storage \<Rightarrow> 'b option \<Rightarrow> 'b ctl" where
  "NewControllerStore G db =
     (\<lparr>ctl_deployments = fst (kv_load (sg_bolt G) (sg_Deployment G) ''deployments'' db),
       ctl_replicaSets = fst (kv_load (sg_bolt G) (sg_ReplicaSet G) ''replicasets'' db)\<rparr>, db)"

definition StoreDeployment :: "'b storage \<Rightarrow> Deployment \<Rightarrow> 'b ctl \<Rightarrow> 'b ctl" where
  "StoreDeployment G dep x =
     (let key = om_Namespace (dep_Metadata dep) @ ''/'' @ om_Name (dep_Metadata dep);
          s = kv_put (sg_bolt G) (sg_Deployment G) ''deployments'' key dep
                (ctl_deployments (fst x), snd x)
      in ((fst x)\<lparr>ctl_deployments := fst s\<rparr>, snd s))"

definition LoadDeployment :: "string \<Rightarrow> string \<Rightarrow> 'b ctl \<Rightarrow> Deployment option" where
  "LoadDeployment namespace name x = tlookup (ctl_deployments (fst x)) (namespace @ ''/'' @ name)"

definition DeleteDeployment :: "'b storage \<Rightarrow> string \<Rightarrow> string \<Rightarrow> 'b ctl \<Rightarrow> 'b ctl" where
  "DeleteDeployment G namespace name x =
     (let s = kv_del (sg_bolt G) ''deployments'' (namespace @ ''/'' @ name)
                (ctl_deployments (fst x), snd x)
      in ((fst x)\<lparr>ctl_deployments := fst s\<rparr>, snd s))"

definition ListDeployments :: "string \<Rightarrow> 'b ctl \<Rightarrow> Deployment list" where
  "ListDeployments namespace x =
     filter (\<lambda>dep. namespace = [] \<or> om_Namespace (dep_Metadata dep) = namespace)
       (map snd (ctl_deployments (fst x)))"

definition StoreReplicaSet :: "'b storage \<Rightarrow> ReplicaSet \<Rightarrow> 'b ctl \<Rightarrow> 'b ctl" where
  "StoreReplicaSet G rs x =
     (let key = om_Namespace (rs_Metadata rs) @ ''/'' @ om_Name (rs_Metadata rs);
          s = kv_put (sg_bolt G) (sg_ReplicaSet G) ''replicasets'' key rs
                (ctl_replicaSets (fst x), snd x)
      in ((fst x)\<lparr>ctl_replicaSets := fst s\<rparr>, snd s))"

definition LoadReplicaSet :: "string \<Rightarrow> string \<Rightarrow> 'b ctl \<Rightarrow> ReplicaSet option" where
  "LoadReplicaSet namespace name x = tlookup (ctl_replicaSets (fst x)) (namespace @ ''/'' @ name)"

definition DeleteReplicaSet :: "'b storage \<Rightarrow> string \<Rightarrow> string \<Rightarrow> 'b ctl \<Rightarrow> 'b ctl" where
  "DeleteReplicaSet G namespace name x =
     (let s = kv_del (sg_bolt G) ''replicasets'' (namespace @ ''/'' @ name)
                (ctl_replicaSets (fst x), snd x)
      in ((fst x)\<lparr>ctl_replicaSets := fst s\<rparr>, snd s))"

definition ListReplicaSets :: "string \<Rightarrow> 'b ctl \<Rightarrow> ReplicaSet list" where
  "ListReplicaSets namespace x =
     filter (\<lambda>rs. namespace = [] \<or> om_Namespace (rs_Metadata rs) = namespace)
       (map snd (ctl_replicaSets (fst x)))"

section \<open>The contract\<close>

definition dep_kv :: "'b ctl \<Rightarrow> (Deployment, 'b) kv" where
  "dep_kv x = (ctl_deployments (fst x), snd x)"

definition rs_kv :: "'b ctl \<Rightarrow> (ReplicaSet, 'b) kv" where
  "rs_kv x = (ctl_replicaSets (fst x), snd x)"

interpretation deps: persistent_store "StoreDeployment G" LoadDeployment "DeleteDeployment G"
  ListDeployments "\<lambda>dep. dep" dep_Metadata "\<lambda>x. kv_wf dep_Metadata (dep_kv x)"
  "\<lambda>x. NewControllerStore G (snd x)"
  "\<lambda>x. kv_mirror (sg_bolt G) (sg_Deployment G) ''deployments'' (dep_kv x)"
  "\<lambda>dep. codec_ok (sg_Deployment G) dep" for G :: "'b storage"
  by (rule persistent_store_via_kv)
    (simp_all add: dep_kv_def StoreDeployment_def DeleteDeployment_def LoadDeployment_def
      ListDeployments_def NewControllerStore_def kv_load_pair kv_get_def kv_list_def Let_def
      meta_key_def obj_key_def)

interpretation rss: persistent_store "StoreReplicaSet G" LoadReplicaSet "DeleteReplicaSet G"
  ListReplicaSets "\<lambda>rs. rs" rs_Metadata "\<lambda>x. kv_wf rs_Metadata (rs_kv x)"
  "\<lambda>x. NewControllerStore G (snd x)"
  "\<lambda>x. kv_mirror (sg_bolt G) (sg_ReplicaSet G) ''replicasets'' (rs_kv x)"
  "\<lambda>rs. codec_ok (sg_ReplicaSet G) rs" for G :: "'b storage"
  by (rule persistent_store_via_kv)
    (simp_all add: rs_kv_def StoreReplicaSet_def DeleteReplicaSet_def LoadReplicaSet_def
      ListReplicaSets_def NewControllerStore_def kv_load_pair kv_get_def kv_list_def Let_def
      meta_key_def obj_key_def)

section \<open>Properties\<close>

text \<open>Deployments survive: after any history of stores, deletions and restarts, loading a
  deployment gives the last one stored under its key and not deleted since, and listing a
  namespace gives exactly those.  Storing a replica set leaves the deployments as they are.\<close>

theorem deployments_survive_restarts:
  assumes "kv_mirror (sg_bolt G) (sg_Deployment G) ''deployments'' (dep_kv x)"
    and "kv_wf dep_Metadata (dep_kv x)" and "puts_ok (codec_ok (sg_Deployment G)) xs"
  shows "LoadDeployment ns n
      (run_ops (StoreDeployment G) (DeleteDeployment G) (\<lambda>x. NewControllerStore G (snd x)) xs x) =
      last_write dep_Metadata (\<lambda>dep. dep) (obj_key ns n) xs (LoadDeployment ns n x) \<and>
    (dep \<in> set (ListDeployments ns'
      (run_ops (StoreDeployment G) (DeleteDeployment G) (\<lambda>x. NewControllerStore G (snd x)) xs x)) \<longleftrightarrow>
      (ns' = [] \<or> om_Namespace (dep_Metadata dep) = ns') \<and>
      last_write dep_Metadata (\<lambda>dep. dep) (meta_key (dep_Metadata dep)) xs
        (LoadDeployment (om_Namespace (dep_Metadata dep)) (om_Name (dep_Metadata dep)) x) = Some dep) \<and>
    LoadDeployment ns n (StoreReplicaSet G rs x) = LoadDeployment ns n x"
  using deps.run_history [OF assms]
  by (auto simp: LoadDeployment_def StoreReplicaSet_def Let_def)

definition empty_ctl :: "mem_db ctl" where
  "empty_ctl = (\<lparr>ctl_deployments = [], ctl_replicaSets = []\<rparr>, Some empty_db)"

theorem deployments_survive_restarts_witness:
  "LoadDeployment [] [] (run_ops (StoreDeployment demo_storage) (DeleteDeployment demo_storage)
     (\<lambda>x. NewControllerStore demo_storage (snd x)) [SPut zero_Deployment, SRestart] empty_ctl) =
   Some zero_Deployment"
  using deployments_survive_restarts [of demo_storage empty_ctl
    "[SPut zero_Deployment, SRestart]" "[]" "[]" zero_Deployment "[]" zero_ReplicaSet]
  by (simp add: demo_storage_def dep_kv_def empty_ctl_def empty_db_mirror buckets_def kv_wf_def
      puts_ok_def meta_key_def obj_key_def zero_Deployment_def zero_ObjectMeta_def)

end
