(* ===== verification/Health.thy ===== *)
theory Health
  imports Types
begin

text \<open>
  The probes of \<open>engine/health.go\<close>.  A probe runs one check per tick of its period and calls back
  when \<open>FailureThreshold\<close> checks in a row have failed, and again when \<open>SuccessThreshold\<close> checks in
  a row have succeeded after that.  What the network and the processes answer is a parameter,
  one \<open>probe_env\<close> per tick.
\<close>

section \<open>Model\<close>

record ProbeRunner =
  pr_probe :: Probe
  pr_podName :: string
  pr_probeType :: string

definition NewProbeRunner :: "Probe \<Rightarrow> string \<Rightarrow> string \<Rightarrow> ProbeRunner" where
  "NewProbeRunner probe podName probeType =
     \<lparr>pr_probe = probe, pr_podName = podName, pr_probeType = probeType\<rparr>"

text \<open>
  The outside of a check: whether a URL makes a request, what the request returns within the
  timeout (nanoseconds), whether a connection is accepted, whether a command runs and exits 0.
\<close>

record probe_env =
  pe_NewRequest :: "string \<Rightarrow> bool"
  pe_Do :: "int \<Rightarrow> string \<Rightarrow> goerror + int"
  pe_Dial :: "int \<Rightarrow> string \<Rightarrow> goerror option"
  pe_Run :: "int \<Rightarrow> string list \<Rightarrow> goerror option"

definition second :: int where
  "second = 1000000000"

definition runHTTPProbe :: "probe_env \<Rightarrow> int \<Rightarrow> HTTPGetAction \<Rightarrow> bool" where
  "runHTTPProbe env timeout action =
     (let scheme = (if hg_Scheme action = [] then ''http'' else hg_Scheme action);
          url = scheme @ ''://127.0.0.1:'' @ itoa (hg_Port action) @ hg_Path action
      in if \<not> pe_NewRequest env url then False
         else (case pe_Do env timeout url of
                 Inl _ \<Rightarrow> False
               | Inr statusCode \<Rightarrow> 200 \<le> statusCode \<and> statusCode < 400))"

definition runTCPProbe :: "probe_env \<Rightarrow> int \<Rightarrow> TCPSocketAction \<Rightarrow> bool" where
  "runTCPProbe env timeout action =
     (pe_Dial env timeout (''127.0.0.1:'' @ itoa (ts_Port action)) = None)"

definition runExecProbe :: "probe_env \<Rightarrow> int \<Rightarrow> ExecAction \<Rightarrow> bool" where
  "runExecProbe env timeout action =
     (if ea_Command action = [] then False else pe_Run env timeout (ea_Command action) = None)"

definition execute :: "ProbeRunner \<Rightarrow> probe_env \<Rightarrow> bool" where
  "execute pr env =
     (let timeout = (if pb_TimeoutSeconds (pr_probe pr) \<le> 0 then 1
                     else pb_TimeoutSeconds (pr_probe pr));
          d = wrap64 (timeout * second)
      in case pb_HTTPGet (pr_probe pr) of
           Some action \<Rightarrow> runHTTPProbe env d action
         | None \<Rightarrow>
             (case pb_TCPSocket (pr_probe pr) of
                Some action \<Rightarrow> runTCPProbe env d action
              | None \<Rightarrow>
                  (case pb_Exec (pr_probe pr) of
                     Some action \<Rightarrow> runExecProbe env d action
                   | None \<Rightarrow> True)))"

text \<open>The local variables of the loop of \<open>Run\<close> and the callbacks it makes.\<close>

record probe_state =
  pv_fails :: int
  pv_successes :: int
  pv_failed :: bool

definition probe_init :: probe_state where
  "probe_init = \<lparr>pv_fails = 0, pv_successes = 0, pv_failed = False\<rparr>"

datatype probe_event = ThresholdReached | Recovered

definition failThreshold :: "Probe \<Rightarrow> int" where
  "failThreshold probe = (if pb_FailureThreshold probe \<le> 0 then 3 else pb_FailureThreshold probe)"

definition successThreshold :: "Probe \<Rightarrow> int" where
  "successThreshold probe = (if pb_SuccessThreshold probe \<le> 0 then 1 else pb_SuccessThreshold probe)"

definition probePeriod :: "Probe \<Rightarrow> int" where
  "probePeriod probe = (if pb_PeriodSeconds probe \<le> 0 then 10 else pb_PeriodSeconds probe)"

definition probe_tick :: "int \<Rightarrow> int \<Rightarrow> bool \<Rightarrow> probe_state \<Rightarrow> probe_event list \<times> probe_state" where
  "probe_tick failT succT ok v =
     (if ok then
        let v' = v\<lparr>pv_fails := 0, pv_successes := wrap64 (pv_successes v + 1)\<rparr>
        in if pv_failed v' \<and> pv_successes v' \<ge> succT
           then ([Recovered], v'\<lparr>pv_failed := False\<rparr>)
           else ([], v')
      else
        let v' = v\<lparr>pv_successes := 0, pv_fails := wrap64 (pv_fails v + 1)\<rparr>
        in if \<not> pv_failed v' \<and> pv_fails v' \<ge> failT
           then ([ThresholdReached], v'\<lparr>pv_failed := True, pv_fails := 0\<rparr>)
           else ([], v'))"

fun probe_loop :: "ProbeRunner \<Rightarrow> probe_env list \<Rightarrow> probe_state \<Rightarrow> probe_event list \<times> probe_state" where
  "probe_loop pr [] v = ([], v)"
| "probe_loop pr (env # envs) v =
     (let (es, v') = probe_tick (failThreshold (pr_probe pr)) (successThreshold (pr_probe pr))
                       (execute pr env) v;
          (es', v'') = probe_loop pr envs v'
      in (es @ es', v''))"

text \<open>
  \<open>Run\<close> until its context is cancelled: \<open>started\<close> says whether the initial delay passed before
  that, \<open>envs\<close> are the ticks before it.  A ticker with a period that is not positive panics.
\<close>

definition Probe_Run :: "ProbeRunner \<Rightarrow> bool \<Rightarrow> probe_env list \<Rightarrow> goerror + probe_event list" where
  "Probe_Run pr started envs =
     (let delay = wrap64 (pb_InitialDelaySeconds (pr_probe pr) * second)
      in if delay > 0 \<and> \<not> started then Inr []
         else if wrap64 (probePeriod (pr_probe pr) * second) \<le> 0 then Inl EPanicTicker
         else Inr (fst (probe_loop pr envs probe_init)))"

section \<open>Specification\<close>

text \<open>The number of equal outcomes at the end of a history.\<close>

definition run_len :: "bool \<Rightarrow> bool list \<Rightarrow> nat" where
  "run_len b h = length (takeWhile (\<lambda>x. x = b) (rev h))"

definition has_run :: "nat \<Rightarrow> bool \<Rightarrow> bool list \<Rightarrow> bool" where
  "has_run n b h \<longleftrightarrow> (\<exists>p q. h = p @ replicate n b @ q)"

text \<open>
  The pod counts as failing: \<open>T\<close> failures in a row happened, and no \<open>S\<close> successes in a row since.
\<close>

definition failing :: "nat \<Rightarrow> nat \<Rightarrow> bool list \<Rightarrow> bool" where
  "failing T S h \<longleftrightarrow> (\<exists>p q. h = p @ replicate T False @ q \<and> \<not> has_run S True q)"

fun probe_states :: "int \<Rightarrow> int \<Rightarrow> bool list \<Rightarrow> probe_state \<Rightarrow> probe_state" where
  "probe_states failT succT [] v = v"
| "probe_states failT succT (ok # oks) v = probe_states failT succT oks (snd (probe_tick failT succT ok v))"

fun alternates :: "bool \<Rightarrow> probe_event list \<Rightarrow> bool" where
  "alternates failed [] = True"
| "alternates failed (ThresholdReached # es) = (\<not> failed \<and> alternates True es)"
| "alternates failed (Recovered # es) = (failed \<and> alternates False es)"

section \<open>Lemmas\<close>

lemma run_len_snoc [simp]: "run_len b (h @ [x]) = (if x = b then Suc (run_len b h) else 0)"
  by (simp add: run_len_def)

lemma run_len_Nil [simp]: "run_len b [] = 0"
  by (simp add: run_len_def)

lemma run_len_le: "run_len b h \<le> length h"
  using length_takeWhile_le [of "\<lambda>x. x = b" "rev h"] by (simp add: run_len_def)

lemma run_len_ge_iff: "n \<le> run_len b h \<longleftrightarrow> (\<exists>p. h = p @ replicate n b)"
proof (induction n arbitrary: h)
  case (Suc n)
  show ?case
  proof (cases h rule: rev_cases)
    case (snoc h' x)
    then show ?thesis using Suc.IH [of h'] by (auto simp: replicate_append_same [symmetric])
  qed simp
qed simp

lemma has_run_snoc: "0 < n \<Longrightarrow> has_run n b (h @ [x]) \<longleftrightarrow> has_run n b h \<or> n \<le> run_len b (h @ [x])"
  unfolding has_run_def run_len_ge_iff
proof
  assume "0 < n" "\<exists>p q. h @ [x] = p @ replicate n b @ q"
  then obtain p q where pq: "h @ [x] = p @ replicate n b @ q" by blast
  show "(\<exists>p q. h = p @ replicate n b @ q) \<or> (\<exists>p. h @ [x] = p @ replicate n b)"
    using pq by (cases q rule: rev_cases) (auto simp flip: append_assoc)
qed (metis append.assoc append_Nil2)

lemma run_len_block: "0 < T \<Longrightarrow> run_len True (p @ replicate T False @ q) = run_len True q"
proof (induction q rule: rev_induct)
  case Nil
  then show ?case using run_len_snoc [of True "p @ replicate (T - 1) False" False]
    by (cases T) (simp_all add: replicate_append_same [symmetric])
next
  case (snoc x q)
  then show ?case by (simp flip: append_assoc)
qed

lemma failing_snoc_True:
  assumes "0 < T" "0 < S"
  shows "failing T S (h @ [True]) \<longleftrightarrow> failing T S h \<and> run_len True (h @ [True]) < S"
proof
  assume "failing T S (h @ [True])"
  then obtain p q where pq: "h @ [True] = p @ replicate T False @ q" "\<not> has_run S True q"
    by (auto simp: failing_def)
  show "failing T S h \<and> run_len True (h @ [True]) < S"
  proof (cases q rule: rev_cases)
    case Nil
    then have "last (h @ [True]) = last (replicate T False)" using pq(1) assms(1) by (metis append_Nil2 last_appendR
        length_replicate list.size(3) less_irrefl)
    then show ?thesis using assms(1) by simp
  next
    case (snoc q' x)
    then have x: "x" "h = p @ replicate T False @ q'" using pq(1) by (auto simp flip: append_assoc)
    have n: "\<not> has_run S True q'" "\<not> S \<le> run_len True (q' @ [True])"
      using pq(2) snoc x has_run_snoc [OF assms(2), of True q' True] by auto
    moreover have "run_len True (h @ [True]) = run_len True (q' @ [True])"
      using run_len_block [OF assms(1), of p "q' @ [True]"] x(2) by simp
    ultimately show ?thesis using x(2) unfolding failing_def by (metis not_le)
  qed
next
  assume a: "failing T S h \<and> run_len True (h @ [True]) < S"
  then obtain p q where pq: "h = p @ replicate T False @ q" "\<not> has_run S True q"
    by (auto simp: failing_def)
  have "run_len True (q @ [True]) = run_len True (h @ [True])"
    using run_len_block [OF assms(1), of p "q @ [True]"] pq(1) by simp
  then have "\<not> has_run S True (q @ [True])" using a pq(2) has_run_snoc [OF assms(2)] by auto
  then show "failing T S (h @ [True])" using pq(1) unfolding failing_def
    by (metis append.assoc)
qed

lemma failing_snoc_False:
  assumes "0 < T" "0 < S"
  shows "failing T S (h @ [False]) \<longleftrightarrow> failing T S h \<or> T \<le> run_len False (h @ [False])"
proof
  assume "failing T S (h @ [False])"
  then obtain p q where pq: "h @ [False] = p @ replicate T False @ q" "\<not> has_run S True q"
    by (auto simp: failing_def)
  show "failing T S h \<or> T \<le> run_len False (h @ [False])"
  proof (cases q rule: rev_cases)
    case Nil
    then show ?thesis using pq(1) run_len_ge_iff [of T False "h @ [False]"] by auto
  next
    case (snoc q' x)
    then have x: "h = p @ replicate T False @ q'" using pq(1) by (auto simp flip: append_assoc)
    have "\<not> has_run S True q'" using pq(2) snoc has_run_snoc [OF assms(2), of True q' x] by auto
    with x show ?thesis unfolding failing_def by blast
  qed
next
  assume a: "failing T S h \<or> T \<le> run_len False (h @ [False])"
  show "failing T S (h @ [False])"
  proof (cases "failing T S h")
    case True
    then obtain p q where pq: "h = p @ replicate T False @ q" "\<not> has_run S True q"
      by (auto simp: failing_def)
    have "\<not> has_run S True (q @ [False])" using pq(2) assms(2) has_run_snoc [OF assms(2), of True q False]
      by simp
    then show ?thesis using pq(1) unfolding failing_def by (metis append.assoc)
  next
    case False
    then obtain p where "h @ [False] = p @ replicate T False @ []"
      using a run_len_ge_iff [of T False "h @ [False]"] by auto
    moreover have "\<not> has_run S True []" using assms(2) by (simp add: has_run_def)
    ultimately show ?thesis unfolding failing_def by blast
  qed
qed

lemma probe_states_snoc:
  "probe_states f s (h @ [ok]) v = snd (probe_tick f s ok (probe_states f s h v))"
  by (induction h arbitrary: v) simp_all

text \<open>The counters count the outcomes at the end of the history, and the flag is the specification.\<close>

lemma probe_states_spec:
  assumes "0 < f" "0 < s" "int (length h) < 2 ^ 63"
  shows "pv_failed (probe_states f s h probe_init) = failing (nat f) (nat s) h \<and>
    pv_successes (probe_states f s h probe_init) = int (run_len True h) \<and>
    (\<not> pv_failed (probe_states f s h probe_init) \<longrightarrow>
       pv_fails (probe_states f s h probe_init) = int (run_len False h)) \<and>
    0 \<le> pv_fails (probe_states f s h probe_init) \<and>
    pv_fails (probe_states f s h probe_init) \<le> int (run_len False h)"
  using assms(3)
proof (induction h rule: rev_induct)
  case Nil
  have "\<not> failing (nat f) (nat s) []" using assms by (simp add: failing_def)
  then show ?case by (simp add: probe_init_def)
next
  case (snoc x h)
  let ?v = "probe_states f s h probe_init"
  have l: "int (run_len b h) < 2 ^ 63 - 1" for b using snoc.prems run_len_le [of b h] by simp
  have IH: "pv_failed ?v = failing (nat f) (nat s) h" "pv_successes ?v = int (run_len True h)"
    "\<not> pv_failed ?v \<Longrightarrow> pv_fails ?v = int (run_len False h)" "0 \<le> pv_fails ?v"
    "pv_fails ?v \<le> int (run_len False h)"
    using snoc by auto
  have w: "wrap64 (pv_successes ?v + 1) = pv_successes ?v + 1" "wrap64 (pv_fails ?v + 1) = pv_fails ?v + 1"
    using IH l [of True] l [of False] by (simp_all add: in64_def)
  show ?case
  proof (cases x)
    case True
    then show ?thesis
      using failing_snoc_True [of "nat f" "nat s" h] assms IH w(1)
      by (auto simp: probe_states_snoc probe_tick_def Let_def)
  next
    case False
    then show ?thesis
      using failing_snoc_False [of "nat f" "nat s" h] assms IH w(2)
      by (auto simp: probe_states_snoc probe_tick_def Let_def)
  qed
qed

lemma thresholds_positive [simp]: "0 < failThreshold p" "0 < successThreshold p" "0 < probePeriod p"
  by (auto simp: failThreshold_def successThreshold_def probePeriod_def)

lemma probe_loop_states:
  "snd (probe_loop pr envs v) =
   probe_states (failThreshold (pr_probe pr)) (successThreshold (pr_probe pr)) (map (execute pr) envs) v"
  by (induction envs arbitrary: v) (simp_all add: Let_def case_prod_beta)

lemma probe_tick_alternates:
  "alternates (pv_failed v) (fst (probe_tick f s ok v) @ es) =
   alternates (pv_failed (snd (probe_tick f s ok v))) es"
  by (auto simp: probe_tick_def Let_def)

lemma probe_loop_alternates: "alternates (pv_failed v) (fst (probe_loop pr envs v))"
  by (induction envs arbitrary: v) (simp_all add: Let_def case_prod_beta probe_tick_alternates)

lemma probe_tick_last:
  "pv_failed (snd (probe_tick f s ok v)) =
   (if fst (probe_tick f s ok v) = [] then pv_failed v
    else last (fst (probe_tick f s ok v)) = ThresholdReached)"
  by (auto simp: probe_tick_def Let_def)

lemma probe_loop_last:
  "pv_failed (snd (probe_loop pr envs v)) =
   (if fst (probe_loop pr envs v) = [] then pv_failed v
    else last (fst (probe_loop pr envs v)) = ThresholdReached)"
  by (induction envs arbitrary: v) (simp_all add: Let_def case_prod_beta probe_tick_last)

lemma period_positive:
  assumes "0 < p" "p \<le> 9223372036"
  shows "0 < wrap64 (p * second)"
proof -
  have "p * second \<le> 9223372036 * second" using assms by (simp add: second_def)
  then have "in64 (p * second)" using assms by (simp add: in64_def second_def)
  then show ?thesis using assms by (simp add: second_def)
qed

section \<open>Properties\<close>

text \<open>C18: A probe debounces.  The callbacks of a run alternate, the first one reports the failure;
  and after any number of ticks the last callback reports a failure exactly when as many checks
  in a row as the failure threshold have failed and since then never as many in a row as the
  success threshold have succeeded.  Thresholds that are missing or negative are 3 and 1.\<close>

theorem probe_debounces:
  assumes "int (length envs) < 2 ^ 63" and "Probe_Run pr True envs = Inr es"
  shows "alternates False es \<and>
    ((es \<noteq> [] \<and> last es = ThresholdReached) \<longleftrightarrow>
     failing (nat (failThreshold (pr_probe pr))) (nat (successThreshold (pr_probe pr)))
       (map (execute pr) envs))"
proof -
  have es: "es = fst (probe_loop pr envs probe_init)"
    using assms(2) by (simp add: Probe_Run_def Let_def split: if_splits)
  have "pv_failed (snd (probe_loop pr envs probe_init)) =
      failing (nat (failThreshold (pr_probe pr))) (nat (successThreshold (pr_probe pr)))
        (map (execute pr) envs)"
    using probe_states_spec [of "failThreshold (pr_probe pr)" "successThreshold (pr_probe pr)"
        "map (execute pr) envs"] assms(1) by (simp add: probe_loop_states)
  then show ?thesis
    using probe_loop_last [of pr envs probe_init] probe_loop_alternates [of probe_init pr envs]
    by (simp add: es probe_init_def)
qed

definition up_env :: probe_env where
  "up_env = \<lparr>pe_NewRequest = (\<lambda>_. True), pe_Do = (\<lambda>_ _. Inr 200), pe_Dial = (\<lambda>_ _. None),
     pe_Run = (\<lambda>_ _. None)\<rparr>"

definition down_env :: probe_env where
  "down_env = \<lparr>pe_NewRequest = (\<lambda>_. True), pe_Do = (\<lambda>_ _. Inr 503), pe_Dial = (\<lambda>_ _. None),
     pe_Run = (\<lambda>_ _. None)\<rparr>"

definition demo_probe :: "int \<Rightarrow> ProbeRunner" where
  "demo_probe period = NewProbeRunner
     \<lparr>pb_HTTPGet = Some \<lparr>hg_Path = ''/'', hg_Port = 80, hg_Scheme = []\<rparr>, pb_TCPSocket = None,
      pb_Exec = None, pb_InitialDelaySeconds = 0, pb_PeriodSeconds = period, pb_TimeoutSeconds = 0,
      pb_FailureThreshold = 2, pb_SuccessThreshold = 0\<rparr> ''web'' ''readiness''"

theorem probe_debounces_witness:
  "Probe_Run (demo_probe 5) True [up_env, down_env, down_env] = Inr [ThresholdReached] \<and>
   failing 2 1 [True, False, False]"
proof -
  have run: "Probe_Run (demo_probe 5) True [up_env, down_env, down_env] = Inr [ThresholdReached]"
    by code_simp
  have "failThreshold (pr_probe (demo_probe 5)) = 2" "successThreshold (pr_probe (demo_probe 5)) = 1"
    "map (execute (demo_probe 5)) [up_env, down_env, down_env] = [True, False, False]"
    by code_simp+
  then show ?thesis using probe_debounces [OF _ run] run by simp
qed

text \<open>A probe with a period of at most 9223372036 seconds (or none) runs; with one second more
  the period overflows the nanoseconds of a \<open>time.Duration\<close>, and creating the ticker panics.\<close>

theorem probe_period_bound:
  "(pb_PeriodSeconds (pr_probe pr) \<le> 9223372036 \<longrightarrow> (\<exists>es. Probe_Run pr started envs = Inr es)) \<and>
   (pb_PeriodSeconds (pr_probe pr) = 9223372037 \<longrightarrow> Probe_Run pr True envs = Inl EPanicTicker)"
proof (intro conjI impI)
  assume "pb_PeriodSeconds (pr_probe pr) \<le> 9223372036"
  then have "0 < wrap64 (probePeriod (pr_probe pr) * second)"
    using period_positive [of "probePeriod (pr_probe pr)"] by (simp add: probePeriod_def split: if_splits)
  then show "\<exists>es. Probe_Run pr started envs = Inr es" by (simp add: Probe_Run_def Let_def)
next
  assume "pb_PeriodSeconds (pr_probe pr) = 9223372037"
  then show "Probe_Run pr True envs = Inl EPanicTicker"
    by (simp add: Probe_Run_def probePeriod_def second_def wrap64_def)
qed

theorem probe_period_bound_witness:
  "(\<exists>es. Probe_Run (demo_probe 5) True [down_env] = Inr es) \<and>
   Probe_Run (demo_probe 9223372037) True [down_env] = Inl EPanicTicker"
  using probe_period_bound [of "demo_probe 5" True "[down_env]"]
    probe_period_bound [of "demo_probe 9223372037" True "[down_env]"]
  by (simp add: demo_probe_def NewProbeRunner_def)

end
