(* ===== verification/Engine.thy ===== *)
theory Engine
  imports Types
begin

text \<open>
  The engines that run pods: the interface and the registry of \<open>engine/engine.go\<close>, the native
  engine of \<open>engine/native.go\<close>, which runs a host executable, and the WebAssembly engine of
  \<open>engine/wasm.go\<close>.  The operating system is a record of operations on a state of any type, the
  WebAssembly runtime (wazero) is a parameter.  A process exits in its own time: the goroutine
  that waits for it is an operation of the model.
\<close>

section \<open>The host\<close>

text \<open>
  The system calls the sources make.  A listener is named by its address, a command by its
  program, arguments and environment.  \<open>h_upper\<close> is the Unicode part of \<open>strings.ToUpper\<close>,
  \<open>h_Quote\<close> the formatting verb \<open>%q\<close>.
\<close>

record dirent =
  de_Name :: string
  de_IsDir :: bool

record 'f host =
  h_Stat :: "string \<Rightarrow> 'f \<Rightarrow> bool"
  h_LookPath :: "string \<Rightarrow> 'f \<Rightarrow> string option"
  h_MkdirAll :: "string \<Rightarrow> 'f \<Rightarrow> goerror option \<times> 'f"
  h_RemoveAll :: "string \<Rightarrow> 'f \<Rightarrow> 'f"
  h_WriteFile :: "string \<Rightarrow> bytes \<Rightarrow> int \<Rightarrow> 'f \<Rightarrow> goerror option \<times> 'f"
  h_ReadFile :: "string \<Rightarrow> 'f \<Rightarrow> goerror + bytes"
  h_ReadDir :: "string \<Rightarrow> 'f \<Rightarrow> goerror + dirent list"
  h_Symlink :: "string \<Rightarrow> string \<Rightarrow> 'f \<Rightarrow> goerror option \<times> 'f"
  h_StartCmd :: "string \<Rightarrow> string list \<Rightarrow> string list \<Rightarrow> 'f \<Rightarrow> (goerror + nat) \<times> 'f"
  h_RunCmd :: "string \<Rightarrow> string list \<Rightarrow> string list \<Rightarrow> 'f \<Rightarrow> goerror option \<times> 'f"
  h_Listen :: "string \<Rightarrow> 'f \<Rightarrow> goerror option \<times> 'f"
  h_Unlisten :: "string \<Rightarrow> 'f \<Rightarrow> 'f"
  h_Environ :: "string list"
  h_TempDir :: string
  h_upper :: "string \<Rightarrow> string"
  h_Quote :: "string \<Rightarrow> string"

text \<open>\<open>filepath.Dir\<close>.\<close>

definition path_dir :: "string \<Rightarrow> string" where
  "path_dir p = path_clean (rev (dropWhile (\<lambda>c. c \<noteq> CHR ''/'') (rev p)))"

section \<open>The interface and the registry\<close>

text \<open>The projected volumes are a map from volume names to directories.\<close>

type_synonym volumes = "(string, string) tbl"

record 'w PodEngine =
  eng_Start :: "Pod \<Rightarrow> string \<Rightarrow> EnvVar list \<Rightarrow> volumes \<Rightarrow> 'w \<Rightarrow> goerror option \<times> 'w"
  eng_Stop :: "string \<Rightarrow> 'w \<Rightarrow> goerror option \<times> 'w"
  eng_Status :: "string \<Rightarrow> 'w \<Rightarrow> PodPhase"

type_synonym 'w Registry = "(string, 'w PodEngine) tbl"

definition NewRegistry :: "'w Registry" where
  "NewRegistry = []"

definition Registry_Register :: "string \<Rightarrow> 'w PodEngine \<Rightarrow> 'w Registry \<Rightarrow> 'w Registry" where
  "Registry_Register name eng r = tstore name eng r"

definition Registry_Get :: "'w Registry \<Rightarrow> string \<Rightarrow> goerror + 'w PodEngine" where
  "Registry_Get r name =
     (case tlookup r name of None \<Rightarrow> Inl (ENoEngine name) | Some eng \<Rightarrow> Inr eng)"

section \<open>The native engine\<close>

record nativeProc =
  np_pid :: nat
  np_cancelled :: bool
  np_phase :: PodPhase

record NativeEngine =
  ne_procs :: "(string, nativeProc) tbl"

definition NewNativeEngine :: NativeEngine where
  "NewNativeEngine = \<lparr>ne_procs = []\<rparr>"

definition buildOSEnv :: "'f host \<Rightarrow> EnvVar list \<Rightarrow> string list" where
  "buildOSEnv H vars = h_Environ H @ map (\<lambda>v. ev_Name v @ ''='' @ ev_Value v) vars"

text \<open>The paths \<open>resolveExecutable\<close> tries, in its order, before the search path.\<close>

definition exec_candidates :: "string \<Rightarrow> string list" where
  "exec_candidates target =
     [target, ''./'' @ target, ''./'' @ target @ ''.exe'', target @ ''.exe'',
      path_join [''.'', ''bin'', target], path_join [''.'', ''bin'', target @ ''.exe'']]"

definition resolveExecutable :: "'f host \<Rightarrow> string \<Rightarrow> 'f \<Rightarrow> goerror + string" where
  "resolveExecutable H target f =
     (case find (\<lambda>p. h_Stat H p f) (exec_candidates target) of
        Some p \<Rightarrow> Inr p
      | None \<Rightarrow>
          (case h_LookPath H target f of
             Some p \<Rightarrow> Inr p
           | None \<Rightarrow> Inl (EExecutableNotFound target)))"

text \<open>
  \<open>copyDir\<close> recurses into directories; the fuel bounds their depth.  It is only called when a
  symbolic link cannot be made.  The type of an entry (\<open>fs.DirEntry.Type\<close>) has no permission bits,
  so the files it writes get none.
\<close>

fun copyDir :: "'f host \<Rightarrow> nat \<Rightarrow> string \<Rightarrow> string \<Rightarrow> 'f \<Rightarrow> goerror option \<times> 'f"
and copy_entries :: "'f host \<Rightarrow> nat \<Rightarrow> string \<Rightarrow> string \<Rightarrow> dirent list \<Rightarrow> 'f \<Rightarrow> goerror option \<times> 'f" where
  "copyDir H 0 src dst f = (Some EOutOfFuel, f)"
| "copyDir H (Suc n) src dst f =
     (case h_ReadDir H src f of
        Inl e \<Rightarrow> (Some e, f)
      | Inr entries \<Rightarrow>
          (case h_MkdirAll H dst f of
             (Some e, f1) \<Rightarrow> (Some e, f1)
           | (None, f1) \<Rightarrow> copy_entries H n src dst entries f1))"
| "copy_entries H n src dst [] f = (None, f)"
| "copy_entries H n src dst (entry # entries) f =
     (let srcPath = path_join [src, de_Name entry];
          dstPath = path_join [dst, de_Name entry]
      in if de_IsDir entry then
           (case copyDir H n srcPath dstPath f of
              (Some e, f1) \<Rightarrow> (Some e, f1)
            | (None, f1) \<Rightarrow> copy_entries H n src dst entries f1)
         else
           (case h_ReadFile H srcPath f of
              Inl e \<Rightarrow> (Some e, f)
            | Inr data \<Rightarrow>
                (case h_WriteFile H dstPath data 0 f of
                   (Some e, f1) \<Rightarrow> (Some e, f1)
                 | (None, f1) \<Rightarrow> copy_entries H n src dst entries f1)))"

definition mountNativeVolume :: "'f host \<Rightarrow> nat \<Rightarrow> string \<Rightarrow> string \<Rightarrow> 'f \<Rightarrow> 'f" where
  "mountNativeVolume H fuel hostDir mountPath f =
     (let f1 = snd (h_MkdirAll H (path_dir mountPath) f);
          f2 = h_RemoveAll H mountPath f1
      in case h_Symlink H hostDir mountPath f2 of
           (None, f3) \<Rightarrow> f3
         | (Some _, f3) \<Rightarrow> snd (copyDir H fuel hostDir mountPath f3))"

definition volume_var :: "'f host \<Rightarrow> string \<Rightarrow> string" where
  "volume_var H name = ReplaceAll (''LOK8S_VOLUME_'' @ ToUpper (h_upper H) name) ''-'' ''_''"

fun native_mounts :: "'f host \<Rightarrow> nat \<Rightarrow> volumes \<Rightarrow> VolumeMount list \<Rightarrow> EnvVar list \<Rightarrow> 'f \<Rightarrow>
    EnvVar list \<times> 'f" where
  "native_mounts H fuel vols [] env f = (env, f)"
| "native_mounts H fuel vols (vm # vms) env f =
     (case tlookup vols (vm_Name vm) of
        None \<Rightarrow> native_mounts H fuel vols vms env f
      | Some hostDir \<Rightarrow>
          native_mounts H fuel vols vms
            (env @ [\<lparr>ev_Name = volume_var H (vm_Name vm), ev_Value = hostDir\<rparr>])
            (mountNativeVolume H fuel hostDir (vm_MountPath vm) f))"

definition native_args :: "Pod \<Rightarrow> string list" where
  "native_args pod =
     (case ps_Containers (pod_Spec pod) of
        [] \<Rightarrow> []
      | c # _ \<Rightarrow> (if length (c_Command c) > 1 then tl (c_Command c) else []) @ c_Args c)"

definition first_mounts :: "Pod \<Rightarrow> VolumeMount list" where
  "first_mounts pod =
     (case ps_Containers (pod_Spec pod) of [] \<Rightarrow> [] | c # _ \<Rightarrow> c_VolumeMounts c)"

definition Native_Start :: "'f host \<Rightarrow> nat \<Rightarrow> Pod \<Rightarrow> string \<Rightarrow> EnvVar list \<Rightarrow> volumes \<Rightarrow>
    NativeEngine \<times> 'f \<Rightarrow> goerror option \<times> (NativeEngine \<times> 'f)" where
  "Native_Start H fuel pod target env vols s =
     (let name = om_Name (pod_Metadata pod); e = fst s; f = snd s
      in case resolveExecutable H target f of
           Inl err \<Rightarrow> (Some err, (e, f))
         | Inr resolvedTarget \<Rightarrow>
             if (case tlookup (ne_procs e) name of None \<Rightarrow> False | Some p \<Rightarrow> np_phase p = PodRunning)
             then (Some (EAlreadyRunning name), (e, f))
             else
               let (env1, f1) = native_mounts H fuel vols (first_mounts pod) env f
               in case h_StartCmd H resolvedTarget (native_args pod) (buildOSEnv H env1) f1 of
                    (Inl err, f2) \<Rightarrow> (Some (EStartProc target resolvedTarget err), (e, f2))
                  | (Inr pid, f2) \<Rightarrow>
                      let np = \<lparr>np_pid = pid, np_cancelled = False, np_phase = PodRunning\<rparr>
                      in (None, (e\<lparr>ne_procs := tstore name np (ne_procs e)\<rparr>, f2)))"

text \<open>The goroutine of \<open>Start\<close>: \<open>cmd.Wait\<close> returned \<open>err\<close>.\<close>

definition Native_Exited :: "string \<Rightarrow> goerror option \<Rightarrow> NativeEngine \<Rightarrow> NativeEngine" where
  "Native_Exited podName err e =
     (case tlookup (ne_procs e) podName of
        None \<Rightarrow> e
      | Some p \<Rightarrow>
          e\<lparr>ne_procs := tstore podName
             (p\<lparr>np_phase := (if err \<noteq> None then PodFailed else PodSucceeded)\<rparr>) (ne_procs e)\<rparr>)"

definition Native_Stop :: "string \<Rightarrow> NativeEngine \<Rightarrow> goerror option \<times> NativeEngine" where
  "Native_Stop podName e =
     (case tlookup (ne_procs e) podName of
        None \<Rightarrow> (Some (EProcNotFound podName), e)
      | Some p \<Rightarrow> (None, e\<lparr>ne_procs := tstore podName (p\<lparr>np_cancelled := True\<rparr>) (ne_procs e)\<rparr>))"

definition Native_Status :: "string \<Rightarrow> NativeEngine \<Rightarrow> PodPhase" where
  "Native_Status podName e =
     (case tlookup (ne_procs e) podName of Some p \<Rightarrow> np_phase p | None \<Rightarrow> PodPending)"

section \<open>The WebAssembly engine\<close>

record wasmProc =
  wp_cancelled :: bool
  wp_phase :: PodPhase

record WasmEngine =
  we_procs :: "(string, wasmProc) tbl"

definition NewWasmEngine :: WasmEngine where
  "NewWasmEngine = \<lparr>we_procs = []\<rparr>"

definition Wasm_Start :: "'f host \<Rightarrow> Pod \<Rightarrow> string \<Rightarrow> EnvVar list \<Rightarrow> volumes \<Rightarrow>
    WasmEngine \<times> 'f \<Rightarrow> goerror option \<times> (WasmEngine \<times> 'f)" where
  "Wasm_Start H pod target env vols s =
     (let name = om_Name (pod_Metadata pod); e = fst s; f = snd s
      in case h_ReadFile H target f of
           Inl err \<Rightarrow> (Some (EReadWasm err), (e, f))
         | Inr wasmBytes \<Rightarrow>
             if (case tlookup (we_procs e) name of None \<Rightarrow> False | Some p \<Rightarrow> wp_phase p = PodRunning)
             then (Some (EAlreadyRunning name), (e, f))
             else (None, (e\<lparr>we_procs := tstore name \<lparr>wp_cancelled = False, wp_phase = PodRunning\<rparr>
                              (we_procs e)\<rparr>, f)))"

text \<open>
  The configuration \<open>runModule\<close> builds: the arguments, the \<open>WithEnv\<close> calls in order, and the
  directory mounts when there is one.  The runtime runs the module to its end.
\<close>

record wasm_config =
  wc_args :: "string list"
  wc_env :: "(string \<times> string) list"
  wc_mounts :: "(string \<times> string) list option"

definition wasm_mounts :: "volumes \<Rightarrow> VolumeMount list \<Rightarrow> (string \<times> string) list" where
  "wasm_mounts vols vms =
     List.map_filter (\<lambda>vm. map_option (\<lambda>hostDir. (hostDir, vm_MountPath vm)) (tlookup vols (vm_Name vm))) vms"

definition module_config :: "Pod \<Rightarrow> EnvVar list \<Rightarrow> volumes \<Rightarrow> wasm_config" where
  "module_config pod env vols =
     \<lparr>wc_args = [om_Name (pod_Metadata pod)],
      wc_env = map (\<lambda>v. (ev_Name v, ev_Value v)) env,
      wc_mounts = (let ms = wasm_mounts vols (first_mounts pod) in if ms = [] then None else Some ms)\<rparr>"

definition runModule :: "(bytes \<Rightarrow> wasm_config \<Rightarrow> goerror option) \<Rightarrow> Pod \<Rightarrow> bytes \<Rightarrow> EnvVar list \<Rightarrow>
    volumes \<Rightarrow> PodPhase" where
  "runModule instantiate pod wasmBytes env vols =
     (case instantiate wasmBytes (module_config pod env vols) of
        Some _ \<Rightarrow> PodFailed
      | None \<Rightarrow> PodSucceeded)"

text \<open>The goroutine of \<open>Start\<close>, when \<open>runModule\<close> has returned \<open>phase\<close>.\<close>

definition Wasm_Exited :: "string \<Rightarrow> PodPhase \<Rightarrow> WasmEngine \<Rightarrow> WasmEngine" where
  "Wasm_Exited podName phase e =
     (case tlookup (we_procs e) podName of
        None \<Rightarrow> e
      | Some p \<Rightarrow> e\<lparr>we_procs := tstore podName (p\<lparr>wp_phase := phase\<rparr>) (we_procs e)\<rparr>)"

definition Wasm_Stop :: "string \<Rightarrow> WasmEngine \<Rightarrow> goerror option \<times> WasmEngine" where
  "Wasm_Stop podName e =
     (case tlookup (we_procs e) podName of
        None \<Rightarrow> (Some (EProcNotFound podName), e)
      | Some p \<Rightarrow> (None, e\<lparr>we_procs := tstore podName (p\<lparr>wp_cancelled := True\<rparr>) (we_procs e)\<rparr>))"

definition Wasm_Status :: "string \<Rightarrow> WasmEngine \<Rightarrow> PodPhase" where
  "Wasm_Status podName e =
     (case tlookup (we_procs e) podName of Some p \<Rightarrow> wp_phase p | None \<Rightarrow> PodPending)"

section \<open>The contract of an engine\<close>

text \<open>
  What a client may do, one step at a time: start a pod, ask for a stop; and what happens on its
  own: the process of a name exits, well or not.
\<close>

datatype engine_op =
    OpStart Pod string "EnvVar list" volumes
  | OpStop string
  | OpExit string bool

type_synonym 's starter = "Pod \<Rightarrow> string \<Rightarrow> EnvVar list \<Rightarrow> volumes \<Rightarrow> 's \<Rightarrow> goerror option \<times> 's"

fun engine_step :: "'s starter \<Rightarrow> (string \<Rightarrow> 's \<Rightarrow> goerror option \<times> 's) \<Rightarrow> (string \<Rightarrow> bool \<Rightarrow> 's \<Rightarrow> 's) \<Rightarrow>
    engine_op \<Rightarrow> 's \<Rightarrow> goerror option \<times> 's" where
  "engine_step start stop exited (OpStart pod target env vols) s = start pod target env vols s"
| "engine_step start stop exited (OpStop n) s = stop n s"
| "engine_step start stop exited (OpExit n ok) s = (None, exited n ok s)"

fun engine_run :: "'s starter \<Rightarrow> (string \<Rightarrow> 's \<Rightarrow> goerror option \<times> 's) \<Rightarrow> (string \<Rightarrow> bool \<Rightarrow> 's \<Rightarrow> 's) \<Rightarrow>
    engine_op list \<Rightarrow> 's \<Rightarrow> goerror option list \<times> 's" where
  "engine_run start stop exited [] s = ([], s)"
| "engine_run start stop exited (x # xs) s =
     (let (r, s1) = engine_step start stop exited x s;
          (rs, s2) = engine_run start stop exited xs s1
      in (r # rs, s2))"

text \<open>The phase of a name, from the operations and their results alone.\<close>

fun phase_spec :: "string \<Rightarrow> engine_op list \<Rightarrow> goerror option list \<Rightarrow> PodPhase \<Rightarrow> PodPhase" where
  "phase_spec n (OpStart pod target env vols # xs) (r # rs) ph =
     phase_spec n xs rs (if r = None \<and> om_Name (pod_Metadata pod) = n then PodRunning else ph)"
| "phase_spec n (OpStop m # xs) (r # rs) ph = phase_spec n xs rs ph"
| "phase_spec n (OpExit m ok # xs) (r # rs) ph =
     phase_spec n xs rs
       (if m = n \<and> ph \<noteq> PodPending then (if ok then PodSucceeded else PodFailed) else ph)"
| "phase_spec n _ _ ph = ph"

locale pod_engine =
  fixes start :: "'s starter"
    and stop :: "string \<Rightarrow> 's \<Rightarrow> goerror option \<times> 's"
    and status :: "string \<Rightarrow> 's \<Rightarrow> PodPhase"
    and exited :: "string \<Rightarrow> bool \<Rightarrow> 's \<Rightarrow> 's"
    and inv :: "'s \<Rightarrow> bool"
  assumes start_ok: "start pod target env vols s = (None, s') \<Longrightarrow>
      status (om_Name (pod_Metadata pod)) s \<noteq> PodRunning \<and>
      status n s' = (if n = om_Name (pod_Metadata pod) then PodRunning else status n s)"
    and start_err: "start pod target env vols s = (Some e, s') \<Longrightarrow> status n s' = status n s"
    and stop_status: "status n (snd (stop m s)) = status n s"
    and exit_status: "inv s \<Longrightarrow> status n (exited m ok s) =
      (if m = n \<and> status n s \<noteq> PodPending then (if ok then PodSucceeded else PodFailed) else status n s)"
    and exit_other: "n \<noteq> m \<Longrightarrow> status n (exited m ok s) = status n s"
    and inv_start: "inv s \<Longrightarrow> inv (snd (start pod target env vols s))"
    and inv_stop: "inv s \<Longrightarrow> inv (snd (stop m s))"
    and inv_exit: "inv s \<Longrightarrow> inv (exited m ok s)"
begin

lemma start_status:
  "status n (snd (start pod target env vols s)) =
   (if fst (start pod target env vols s) = None \<and> om_Name (pod_Metadata pod) = n then PodRunning
    else status n s)"
proof (cases "start pod target env vols s")
  case (Pair r s')
  then show ?thesis by (cases r) (auto simp: start_ok start_err)
qed

lemma step_keeps_running:
  assumes "status n s = PodRunning" "\<forall>ok. x \<noteq> OpExit n ok"
  shows "status n (snd (engine_step start stop exited x s)) = PodRunning"
  using assms by (cases x) (auto simp: start_status stop_status exit_other)

lemma run_keeps_running:
  "status n s = PodRunning \<Longrightarrow> \<forall>ok. OpExit n ok \<notin> set xs \<Longrightarrow>
   status n (snd (engine_run start stop exited xs s)) = PodRunning"
proof (induction xs arbitrary: s)
  case (Cons x xs)
  have "status n (snd (engine_step start stop exited x s)) = PodRunning"
    using Cons.prems by (intro step_keeps_running) auto
  with Cons show ?case by (simp add: Let_def case_prod_beta)
qed simp

lemma one_process:
  assumes "start pod target env vols s = (None, s1)"
    and "om_Name (pod_Metadata pod') = om_Name (pod_Metadata pod)"
    and "fst (start pod' target' env' vols' (snd (engine_run start stop exited xs s1))) = None"
  shows "\<exists>ok. OpExit (om_Name (pod_Metadata pod)) ok \<in> set xs"
proof (rule ccontr)
  assume "\<not> ?thesis"
  then have r: "status (om_Name (pod_Metadata pod)) (snd (engine_run start stop exited xs s1)) = PodRunning"
    using run_keeps_running start_ok [OF assms(1)] by auto
  obtain s' where "start pod' target' env' vols' (snd (engine_run start stop exited xs s1)) = (None, s')"
    using assms(3) by (metis prod.collapse)
  from start_ok [OF this] show False using r assms(2) by simp
qed

lemma status_history:
  "inv s \<Longrightarrow> engine_run start stop exited xs s = (rs, s') \<Longrightarrow>
   inv s' \<and> status n s' = phase_spec n xs rs (status n s)"
proof (induction xs arbitrary: s rs)
  case (Cons x xs)
  obtain r s1 rs1 where x: "engine_step start stop exited x s = (r, s1)"
      "engine_run start stop exited xs s1 = (rs1, s')" "rs = r # rs1"
    using Cons.prems(2) by (auto simp: Let_def split: prod.splits)
  have "inv s1" using x(1) Cons.prems(1) inv_start inv_stop inv_exit by (cases x) (auto, (metis snd_conv)+)
  then have IH: "inv s' \<and> status n s' = phase_spec n xs rs1 (status n s1)" by (rule Cons.IH [OF _ x(2)])
  show ?case
  proof (cases x)
    case (OpStart pod target env vols)
    then show ?thesis using x IH start_status [of n pod target env vols s] by simp
  next
    case (OpStop m)
    then show ?thesis using x IH stop_status [of n m s] by simp
  next
    case (OpExit m ok)
    then show ?thesis using x IH exit_status [OF Cons.prems(1), of n m ok] by simp
  qed
qed simp

end

definition native_exit :: "string \<Rightarrow> bool \<Rightarrow> NativeEngine \<times> 'f \<Rightarrow> NativeEngine \<times> 'f" where
  "native_exit n ok s = (Native_Exited n (if ok then None else Some (EExt ''exit status'')) (fst s), snd s)"

definition native_stop :: "string \<Rightarrow> NativeEngine \<times> 'f \<Rightarrow> goerror option \<times> (NativeEngine \<times> 'f)" where
  "native_stop n s = (let (r, e) = Native_Stop n (fst s) in (r, (e, snd s)))"

definition wasm_exit :: "string \<Rightarrow> bool \<Rightarrow> WasmEngine \<times> 'f \<Rightarrow> WasmEngine \<times> 'f" where
  "wasm_exit n ok s = (Wasm_Exited n (if ok then PodSucceeded else PodFailed) (fst s), snd s)"

definition wasm_stop :: "string \<Rightarrow> WasmEngine \<times> 'f \<Rightarrow> goerror option \<times> (WasmEngine \<times> 'f)" where
  "wasm_stop n s = (let (r, e) = Wasm_Stop n (fst s) in (r, (e, snd s)))"

lemma Native_Start_cases:
  assumes "Native_Start H fuel pod target env vols s = (r, s')"
  obtains e f2 where "r = Some e" "s' = (fst s, f2)"
  | p pid f2 where "resolveExecutable H target (snd s) = Inr p" "r = None"
      "Native_Status (om_Name (pod_Metadata pod)) (fst s) \<noteq> PodRunning"
      "s' = ((fst s)\<lparr>ne_procs := tstore (om_Name (pod_Metadata pod))
         \<lparr>np_pid = pid, np_cancelled = False, np_phase = PodRunning\<rparr> (ne_procs (fst s))\<rparr>, f2)"
proof (cases "resolveExecutable H target (snd s)")
  case (Inl err)
  then show ?thesis using assms that(1) [of err "snd s"] by (simp add: Native_Start_def Let_def)
next
  case (Inr p)
  let ?n = "om_Name (pod_Metadata pod)"
  show ?thesis
  proof (cases "Native_Status ?n (fst s) = PodRunning")
    case True
    then show ?thesis using assms Inr that(1) [of "EAlreadyRunning ?n" "snd s"]
      by (auto simp: Native_Start_def Native_Status_def Let_def split: option.splits)
  next
    case False
    obtain env1 f1 where m: "native_mounts H fuel vols (first_mounts pod) env (snd s) = (env1, f1)"
      by fastforce
    obtain q f2 where q: "h_StartCmd H p (native_args pod) (buildOSEnv H env1) f1 = (q, f2)"
      by fastforce
    have "(case tlookup (ne_procs (fst s)) ?n of None \<Rightarrow> False | Some p \<Rightarrow> np_phase p = PodRunning) = False"
      using False by (simp add: Native_Status_def split: option.splits)
    then show ?thesis using assms Inr m q that False
      by (cases q) (auto simp: Native_Start_def Let_def)
  qed
qed

lemma Wasm_Start_cases:
  assumes "Wasm_Start H pod target env vols s = (r, s')"
  obtains e where "r = Some e" "s' = s"
  | "r = None" "Wasm_Status (om_Name (pod_Metadata pod)) (fst s) \<noteq> PodRunning"
      "s' = ((fst s)\<lparr>we_procs := tstore (om_Name (pod_Metadata pod))
         \<lparr>wp_cancelled = False, wp_phase = PodRunning\<rparr> (we_procs (fst s))\<rparr>, snd s)"
proof (cases "h_ReadFile H target (snd s)")
  case (Inl err)
  then show ?thesis using assms that(1) [of "EReadWasm err"] by (simp add: Wasm_Start_def Let_def)
next
  case (Inr b)
  then show ?thesis
    using assms that
    by (cases "tlookup (we_procs (fst s)) (om_Name (pod_Metadata pod))")
      (auto simp: Wasm_Start_def Wasm_Status_def Let_def split: if_splits)
qed

text \<open>No process is recorded as pending.\<close>

definition native_inv :: "NativeEngine \<times> 'f \<Rightarrow> bool" where
  "native_inv s \<longleftrightarrow> (\<forall>n p. tlookup (ne_procs (fst s)) n = Some p \<longrightarrow> np_phase p \<noteq> PodPending)"

definition wasm_inv :: "WasmEngine \<times> 'f \<Rightarrow> bool" where
  "wasm_inv s \<longleftrightarrow> (\<forall>n p. tlookup (we_procs (fst s)) n = Some p \<longrightarrow> wp_phase p \<noteq> PodPending)"

interpretation native: pod_engine "Native_Start H fuel" native_stop "\<lambda>n s. Native_Status n (fst s)"
  native_exit native_inv for H :: "'f host" and fuel :: nat
proof
  fix pod target env vols and s s' :: "NativeEngine \<times> 'f" and n m e ok
  show "Native_Start H fuel pod target env vols s = (None, s') \<Longrightarrow>
      Native_Status (om_Name (pod_Metadata pod)) (fst s) \<noteq> PodRunning \<and>
      Native_Status n (fst s') =
        (if n = om_Name (pod_Metadata pod) then PodRunning else Native_Status n (fst s))"
    by (erule Native_Start_cases) (auto simp: Native_Status_def)
  show "Native_Start H fuel pod target env vols s = (Some e, s') \<Longrightarrow>
      Native_Status n (fst s') = Native_Status n (fst s)"
    by (erule Native_Start_cases) auto
  show "Native_Status n (fst (snd (native_stop m s))) = Native_Status n (fst s)"
    by (cases "tlookup (ne_procs (fst s)) m")
      (auto simp: native_stop_def Native_Stop_def Native_Status_def)
  show "native_inv s \<Longrightarrow> Native_Status n (fst (native_exit m ok s)) =
      (if m = n \<and> Native_Status n (fst s) \<noteq> PodPending then (if ok then PodSucceeded else PodFailed)
       else Native_Status n (fst s))"
    by (cases "tlookup (ne_procs (fst s)) m")
      (auto simp: native_exit_def Native_Exited_def Native_Status_def native_inv_def)
  show "n \<noteq> m \<Longrightarrow> Native_Status n (fst (native_exit m ok s)) = Native_Status n (fst s)"
    by (cases "tlookup (ne_procs (fst s)) m")
      (auto simp: native_exit_def Native_Exited_def Native_Status_def)
  show "native_inv (snd (Native_Start H fuel pod target env vols s))" if "native_inv s"
  proof -
    obtain r s1 where eq: "Native_Start H fuel pod target env vols s = (r, s1)"
      by (cases "Native_Start H fuel pod target env vols s")
    have "native_inv s1" by (rule Native_Start_cases [OF eq]) (use that in \<open>auto simp: native_inv_def\<close>)
    with eq show ?thesis by simp
  qed
  show "native_inv s \<Longrightarrow> native_inv (snd (native_stop m s))"
    by (cases "tlookup (ne_procs (fst s)) m")
      (auto simp: native_stop_def Native_Stop_def native_inv_def)
  show "native_inv s \<Longrightarrow> native_inv (native_exit m ok s)"
    by (cases "tlookup (ne_procs (fst s)) m")
      (auto simp: native_exit_def Native_Exited_def native_inv_def)
qed

interpretation wasm: pod_engine "Wasm_Start H" wasm_stop "\<lambda>n s. Wasm_Status n (fst s)"
  wasm_exit wasm_inv for H :: "'f host"
proof
  fix pod target env vols and s s' :: "WasmEngine \<times> 'f" and n m e ok
  show "Wasm_Start H pod target env vols s = (None, s') \<Longrightarrow>
      Wasm_Status (om_Name (pod_Metadata pod)) (fst s) \<noteq> PodRunning \<and>
      Wasm_Status n (fst s') =
        (if n = om_Name (pod_Metadata pod) then PodRunning else Wasm_Status n (fst s))"
    by (erule Wasm_Start_cases) (auto simp: Wasm_Status_def)
  show "Wasm_Start H pod target env vols s = (Some e, s') \<Longrightarrow>
      Wasm_Status n (fst s') = Wasm_Status n (fst s)"
    by (erule Wasm_Start_cases) auto
  show "Wasm_Status n (fst (snd (wasm_stop m s))) = Wasm_Status n (fst s)"
    by (cases "tlookup (we_procs (fst s)) m")
      (auto simp: wasm_stop_def Wasm_Stop_def Wasm_Status_def)
  show "wasm_inv s \<Longrightarrow> Wasm_Status n (fst (wasm_exit m ok s)) =
      (if m = n \<and> Wasm_Status n (fst s) \<noteq> PodPending then (if ok then PodSucceeded else PodFailed)
       else Wasm_Status n (fst s))"
    by (cases "tlookup (we_procs (fst s)) m")
      (auto simp: wasm_exit_def Wasm_Exited_def Wasm_Status_def wasm_inv_def)
  show "n \<noteq> m \<Longrightarrow> Wasm_Status n (fst (wasm_exit m ok s)) = Wasm_Status n (fst s)"
    by (cases "tlookup (we_procs (fst s)) m")
      (auto simp: wasm_exit_def Wasm_Exited_def Wasm_Status_def)
  show "wasm_inv (snd (Wasm_Start H pod target env vols s))" if "wasm_inv s"
  proof -
    obtain r s1 where eq: "Wasm_Start H pod target env vols s = (r, s1)"
      by (cases "Wasm_Start H pod target env vols s")
    have "wasm_inv s1" by (rule Wasm_Start_cases [OF eq]) (use that in \<open>auto simp: wasm_inv_def\<close>)
    with eq show ?thesis by simp
  qed
  show "wasm_inv s \<Longrightarrow> wasm_inv (snd (wasm_stop m s))"
    by (cases "tlookup (we_procs (fst s)) m") (auto simp: wasm_stop_def Wasm_Stop_def wasm_inv_def)
  show "wasm_inv s \<Longrightarrow> wasm_inv (wasm_exit m ok s)"
    by (cases "tlookup (we_procs (fst s)) m") (auto simp: wasm_exit_def Wasm_Exited_def wasm_inv_def)
qed

section \<open>Fuel\<close>

text \<open>
  A volume directory holds files only (\<open>ProjectVolumes\<close> makes no directory inside it): one unit of
  fuel is enough to copy it, and more changes nothing.
\<close>

lemma copy_files_fuel:
  "\<forall>d \<in> set ds. \<not> de_IsDir d \<Longrightarrow> copy_entries H n src dst ds f = copy_entries H m src dst ds f"
  by (induction ds arbitrary: f) (simp_all add: Let_def split: sum.splits prod.splits option.splits)

lemma copyDir_fuel:
  "h_ReadDir H src f = Inr entries \<Longrightarrow> \<forall>d \<in> set entries. \<not> de_IsDir d \<Longrightarrow>
   copyDir H (Suc n) src dst f = copyDir H 1 src dst f"
  using copy_files_fuel [of entries H n src dst _ 0]
  by (simp add: One_nat_def split: prod.splits option.splits)

lemma copy_files_no_fuel_error:
  assumes "\<And>p g. h_ReadFile H p g \<noteq> Inl EOutOfFuel" "\<And>p b m g. fst (h_WriteFile H p b m g) \<noteq> Some EOutOfFuel"
  shows "\<forall>d \<in> set ds. \<not> de_IsDir d \<Longrightarrow> fst (copy_entries H n src dst ds f) \<noteq> Some EOutOfFuel"
proof (induction ds arbitrary: f)
  case (Cons d ds)
  show ?case
  proof (cases "h_ReadFile H (path_join [src, de_Name d]) f")
    case (Inr data)
    obtain r f1 where w: "h_WriteFile H (path_join [dst, de_Name d]) data 0 f = (r, f1)" by (meson surj_pair)
    then show ?thesis
      using Cons Inr assms(2) [of "path_join [dst, de_Name d]" data 0 f] by (cases r) (simp_all add: Let_def)
  qed (use Cons.prems assms(1) [of "path_join [src, de_Name d]" f] in \<open>auto simp: Let_def\<close>)
qed simp

section \<open>Properties\<close>

text \<open>The native engine runs one process per pod name: when a start succeeds after an earlier
  successful start of the same name, whatever happened in between, a process of that name has
  exited in between.\<close>

theorem native_one_process_per_name:
  assumes "Native_Start H fuel pod target env vols s = (None, s1)"
    and "om_Name (pod_Metadata pod') = om_Name (pod_Metadata pod)"
    and "fst (Native_Start H fuel pod' target' env' vols'
      (snd (engine_run (Native_Start H fuel) native_stop native_exit xs s1))) = None"
  shows "\<exists>ok. OpExit (om_Name (pod_Metadata pod)) ok \<in> set xs"
  using native.one_process [OF assms] .

definition demo_host :: "unit host" where
  "demo_host = \<lparr>h_Stat = (\<lambda>p f. p = ''./app''), h_LookPath = (\<lambda>_ _. None),
     h_MkdirAll = (\<lambda>_ f. (None, f)), h_RemoveAll = (\<lambda>_ f. f), h_WriteFile = (\<lambda>_ _ _ f. (None, f)),
     h_ReadFile = (\<lambda>_ _. Inr ''wasm''), h_ReadDir = (\<lambda>_ _. Inr []), h_Symlink = (\<lambda>_ _ f. (None, f)),
     h_StartCmd = (\<lambda>_ _ _ f. (Inr 17, f)), h_RunCmd = (\<lambda>_ _ _ f. (None, f)),
     h_Listen = (\<lambda>_ f. (None, f)), h_Unlisten = (\<lambda>_ f. f), h_Environ = [], h_TempDir = ''/tmp'',
     h_upper = (\<lambda>s. s), h_Quote = (\<lambda>s. s)\<rparr>"



definition demo_pod :: "string \<Rightarrow> string \<Rightarrow> Pod" where
  "demo_pod ns name =
     zero_Pod\<lparr>pod_Metadata := zero_ObjectMeta\<lparr>om_Namespace := ns, om_Name := name, om_UID := ''u1''\<rparr>\<rparr>"

theorem native_one_process_per_name_witness:
  "\<exists>ok. OpExit ''web'' ok \<in> set [OpStop ''web'', OpExit ''web'' False]"
proof -
  have a: "Native_Start demo_host 1 (demo_pod ''a'' ''web'') ''app'' [] [] (NewNativeEngine, ()) =
    (None, (\<lparr>ne_procs = [(''web'', \<lparr>np_pid = 17, np_cancelled = False, np_phase = PodRunning\<rparr>)]\<rparr>, ()))"
    by code_simp
  have n: "om_Name (pod_Metadata (demo_pod ''a'' ''web'')) = ''web''" by code_simp
  have b: "fst (Native_Start demo_host 1 (demo_pod ''a'' ''web'') ''app'' [] []
      (snd (engine_run (Native_Start demo_host 1) native_stop native_exit
        [OpStop ''web'', OpExit ''web'' False]
        (\<lparr>ne_procs = [(''web'', \<lparr>np_pid = 17, np_cancelled = False, np_phase = PodRunning\<rparr>)]\<rparr>, ())))) = None"
    by code_simp
  show ?thesis using native_one_process_per_name [OF a refl b] by (simp only: n)
qed

text \<open>The phase the WebAssembly engine reports for a name is the one its history says: pending
  until a start of that name succeeds, then running until its module ends, then succeeded or
  failed as the module ended, until a start succeeds again.  Stopping does not change it by
  itself, and other names do not matter.\<close>

theorem wasm_status_is_history:
  assumes "engine_run (Wasm_Start H) wasm_stop wasm_exit xs (NewWasmEngine, f) = (rs, s')"
  shows "Wasm_Status n (fst s') = phase_spec n xs rs PodPending"
proof -
  have "wasm_inv (NewWasmEngine, f)" by (simp add: wasm_inv_def NewWasmEngine_def)
  from wasm.status_history [OF this assms] show ?thesis
    by (simp add: Wasm_Status_def NewWasmEngine_def)
qed

theorem wasm_status_is_history_witness:
  "Wasm_Status ''web'' (fst (snd (engine_run (Wasm_Start demo_host) wasm_stop wasm_exit
     [OpStart (demo_pod ''a'' ''web'') ''m.wasm'' [] [], OpStop ''web'', OpExit ''web'' True]
     (NewWasmEngine, ())))) = PodSucceeded"
proof -
  have r: "fst (engine_run (Wasm_Start demo_host) wasm_stop wasm_exit
     [OpStart (demo_pod ''a'' ''web'') ''m.wasm'' [] [], OpStop ''web'', OpExit ''web'' True]
     (NewWasmEngine, ())) = [None, None, None]" by code_simp
  show ?thesis
    by (subst wasm_status_is_history [OF prod.collapse [symmetric]], subst r)
      (simp add: demo_pod_def)
qed

text \<open>C24: Engines tell pods apart by name only: while a pod runs, starting a pod of the same name
  in another namespace is refused as already running, even though no pod of that namespace was
  started.\<close>

theorem native_namespaces_collide:
  assumes "Native_Start H fuel pod target env vols s = (None, s1)"
    and "om_Name (pod_Metadata pod') = om_Name (pod_Metadata pod)"
    and "resolveExecutable H target' (snd s1) = Inr p"
  shows "Native_Start H fuel pod' target' env' vols' s1 =
    (Some (EAlreadyRunning (om_Name (pod_Metadata pod))), s1)"
proof -
  have "Native_Status (om_Name (pod_Metadata pod)) (fst s1) = PodRunning"
    using native.start_ok [OF assms(1)] by simp
  then show ?thesis using assms(2,3)
    by (cases "tlookup (ne_procs (fst s1)) (om_Name (pod_Metadata pod))")
      (simp_all add: Native_Start_def Native_Status_def Let_def)
qed

theorem native_namespaces_collide_witness:
  "Native_Start demo_host 1 (demo_pod ''b'' ''web'') ''app'' [] []
     (snd (Native_Start demo_host 1 (demo_pod ''a'' ''web'') ''app'' [] [] (NewNativeEngine, ()))) =
   (Some (EAlreadyRunning ''web''),
     snd (Native_Start demo_host 1 (demo_pod ''a'' ''web'') ''app'' [] [] (NewNativeEngine, ())))"
proof -
  have a: "Native_Start demo_host 1 (demo_pod ''a'' ''web'') ''app'' [] [] (NewNativeEngine, ()) =
    (None, (\<lparr>ne_procs = [(''web'', \<lparr>np_pid = 17, np_cancelled = False, np_phase = PodRunning\<rparr>)]\<rparr>, ()))"
    by code_simp
  have n: "om_Name (pod_Metadata (demo_pod ''a'' ''web'')) = ''web''"
    "om_Name (pod_Metadata (demo_pod ''b'' ''web'')) = om_Name (pod_Metadata (demo_pod ''a'' ''web''))"
    by code_simp+
  have r: "resolveExecutable demo_host ''app'' () = Inr ''./app''" by code_simp
  show ?thesis
    unfolding a snd_conv
    using native_namespaces_collide [OF a n(2), of "''app''" "''./app''" "[]" "[]"] r
    by (simp add: n(1))
qed

end
