(* ===== verification/Volume.thy ===== *)
theory Volume
  imports Engine Config_Store
begin

text \<open>
  Volume projection, \<open>volume/projection.go\<close>: before a pod starts, the config maps and secrets its
  volumes name are written as files, one per key, to a directory per volume below the pod's
  directory in the temporary directory of the host.
\<close>

section \<open>Model\<close>

definition CleanupVolumes :: "'f host \<Rightarrow> Pod \<Rightarrow> 'f \<Rightarrow> 'f" where
  "CleanupVolumes H pod f =
     (if om_UID (pod_Metadata pod) = [] then f
      else h_RemoveAll H
             (path_join [h_TempDir H, ''lok8s-volumes'', om_UID (pod_Metadata pod)]) f)"

text \<open>The loop over the keys of a config map or secret; it stops at the first key that fails.\<close>

fun write_keys :: "'f host \<Rightarrow> string \<Rightarrow> int \<Rightarrow> (string \<times> bytes) list \<Rightarrow> 'f \<Rightarrow>
    (string \<times> goerror) option \<times> 'f" where
  "write_keys H volDir perm [] f = (None, f)"
| "write_keys H volDir perm ((k, v) # kvs) f =
     (case h_WriteFile H (path_join [volDir, k]) v perm f of
        (Some e, f1) \<Rightarrow> (Some (k, e), f1)
      | (None, f1) \<Rightarrow> write_keys H volDir perm kvs f1)"

text \<open>One volume: its directory, or the error the loop over the volumes returns.\<close>

definition project_volume :: "'f host \<Rightarrow> 'b cfg \<Rightarrow> Pod \<Rightarrow> Volume \<Rightarrow> 'f \<Rightarrow> (goerror + string) \<times> 'f" where
  "project_volume H configStore pod vol f =
     (let ns = om_Namespace (pod_Metadata pod);
          volDir = path_join [h_TempDir H, ''lok8s-volumes'', om_UID (pod_Metadata pod), v_Name vol]
      in case h_MkdirAll H volDir f of
           (Some e, f1) \<Rightarrow> (Inl (EVolumeDir (v_Name vol) e), CleanupVolumes H pod f1)
         | (None, f1) \<Rightarrow>
             (case v_ConfigMap vol of
                Some src \<Rightarrow>
                  (case LoadConfigMap ns (cv_Name src) configStore of
                     None \<Rightarrow> (Inl (EVolumeConfigMap (cv_Name src) (v_Name vol)), CleanupVolumes H pod f1)
                   | Some cm \<Rightarrow>
                       (case write_keys H volDir 420 (mentries (cm_Data cm)) f1 of
                          (Some (k, e), f2) \<Rightarrow>
                            (Inl (EVolumeConfigKey k (v_Name vol) e), CleanupVolumes H pod f2)
                        | (None, f2) \<Rightarrow> (Inr volDir, f2)))
              | None \<Rightarrow>
                  (case v_Secret vol of
                     Some src \<Rightarrow>
                       (case LoadSecret ns (sv_SecretName src) configStore of
                          None \<Rightarrow> (Inl (EVolumeSecret (sv_SecretName src) (v_Name vol)), CleanupVolumes H pod f1)
                        | Some sec \<Rightarrow>
                            (case write_keys H volDir 256 (mentries (sec_Data sec)) f1 of
                               (Some (k, e), f2) \<Rightarrow>
                                 (Inl (EVolumeSecretKey k (v_Name vol) e), CleanupVolumes H pod f2)
                             | (None, f2) \<Rightarrow> (Inr volDir, f2)))
                   | None \<Rightarrow> (Inr volDir, f1))))"

fun project_loop :: "'f host \<Rightarrow> 'b cfg \<Rightarrow> Pod \<Rightarrow> Volume list \<Rightarrow> volumes \<Rightarrow> 'f \<Rightarrow>
    (goerror + volumes) \<times> 'f" where
  "project_loop H configStore pod [] projected f = (Inr projected, f)"
| "project_loop H configStore pod (vol # vols) projected f =
     (case project_volume H configStore pod vol f of
        (Inl e, f1) \<Rightarrow> (Inl e, f1)
      | (Inr volDir, f1) \<Rightarrow>
          project_loop H configStore pod vols (tstore (v_Name vol) volDir projected) f1)"

definition ProjectVolumes :: "'f host \<Rightarrow> 'b cfg \<Rightarrow> Pod \<Rightarrow> 'f \<Rightarrow> (goerror + volumes) \<times> 'f" where
  "ProjectVolumes H configStore pod f =
     (if om_UID (pod_Metadata pod) = [] then (Inl EUIDRequired, f)
      else project_loop H configStore pod (ps_Volumes (pod_Spec pod)) [] f)"

section \<open>Absolute paths\<close>

text \<open>A path element that \<open>filepath.Clean\<close> leaves alone, and the path made of such elements.\<close>

definition plain :: "string \<Rightarrow> bool" where
  "plain c \<longleftrightarrow> c \<noteq> [] \<and> c \<noteq> ''.'' \<and> c \<noteq> ''..'' \<and> CHR ''/'' \<notin> set c"

definition abs_path :: "string list \<Rightarrow> string" where
  "abs_path cs = ''/'' @ join_str ''/'' cs"

lemma clean_plain: "\<forall>c \<in> set cs. plain c \<Longrightarrow> fold (clean_step r) cs st = rev cs @ st"
  by (induction cs arbitrary: st) (auto simp: plain_def)

lemma split_abs_path:
  "cs \<noteq> [] \<Longrightarrow> \<forall>c \<in> set cs. plain c \<Longrightarrow> split_str ''/'' (abs_path cs) = [] # cs"
  using split_join [of "[] # cs" "CHR ''/''"]
  by (cases cs) (auto simp: abs_path_def plain_def join_Cons)

lemma path_clean_abs:
  assumes "cs \<noteq> []" "\<forall>c \<in> set cs. plain c"
  shows "path_clean (abs_path cs) = abs_path cs"
proof -
  have "rev (fold (clean_step True) (split_str ''/'' (abs_path cs)) []) = cs"
    using assms by (simp add: split_abs_path clean_plain)
  then show ?thesis by (simp add: path_clean_def Let_def) (simp add: abs_path_def)
qed

lemma abs_path_inj:
  assumes "cs \<noteq> []" "ds \<noteq> []" "\<forall>c \<in> set cs. plain c" "\<forall>c \<in> set ds. plain c"
    and "abs_path cs = abs_path ds"
  shows "cs = ds"
  using assms split_abs_path by (metis list.inject)

lemma path_join_abs:
  assumes "cs \<noteq> []" "\<forall>c \<in> set cs. plain c" "\<forall>c \<in> set ds. plain c"
  shows "path_join (abs_path cs # ds) = abs_path (cs @ ds)"
proof -
  have f: "filter (\<lambda>p. p \<noteq> []) (abs_path cs # ds) = abs_path cs # ds"
    using assms(3) by (auto simp: abs_path_def plain_def filter_id_conv)
  have "join_str ''/'' (abs_path cs # ds) = abs_path (cs @ ds)"
    using assms(1)
  proof (induction cs)
    case (Cons c cs)
    then show ?case by (cases "cs = []"; cases "ds = []") (auto simp: abs_path_def join_Cons)
  qed simp
  then show ?thesis
    using f path_clean_abs [of "cs @ ds"] assms by (simp add: path_join_def del: filter.simps) blast
qed

section \<open>What the code relies on\<close>

text \<open>
  The paths below the volume directory \<open>T/lok8s-volumes\<close> of the host, \<open>T\<close> the elements of the
  temporary directory; and what the operating system promises there (nobody else makes symbolic
  links in it): a successful write is read back and changes no other file, making directories
  changes no file, removing a directory leaves no file below it.  \<open>fs_works\<close> adds that directories
  and files can be made.
\<close>

definition vpath :: "string list \<Rightarrow> string list \<Rightarrow> bool" where
  "vpath T cs \<longleftrightarrow> prefix (T @ [''lok8s-volumes'']) cs \<and> (\<forall>c \<in> set cs. plain c)"

definition fs_ok :: "'f host \<Rightarrow> (string \<Rightarrow> 'f \<Rightarrow> bytes option) \<Rightarrow> string list \<Rightarrow> bool" where
  "fs_ok H read T \<longleftrightarrow>
     T \<noteq> [] \<and> (\<forall>c \<in> set T. plain c) \<and> h_TempDir H = abs_path T \<and>
     (\<forall>cs ds d perm f f'. vpath T cs \<longrightarrow> vpath T ds \<longrightarrow>
        h_WriteFile H (abs_path cs) d perm f = (None, f') \<longrightarrow>
        read (abs_path ds) f' = (if ds = cs then Some d else read (abs_path ds) f)) \<and>
     (\<forall>ds p f. vpath T ds \<longrightarrow> read (abs_path ds) (snd (h_MkdirAll H p f)) = read (abs_path ds) f) \<and>
     (\<forall>cs ds f. vpath T cs \<longrightarrow> vpath T ds \<longrightarrow> strict_prefix cs ds \<longrightarrow>
        read (abs_path ds) (h_RemoveAll H (abs_path cs) f) = None)"

definition fs_works :: "'f host \<Rightarrow> string list \<Rightarrow> bool" where
  "fs_works H T \<longleftrightarrow>
     (\<forall>cs f. vpath T cs \<longrightarrow> fst (h_MkdirAll H (abs_path cs) f) = None) \<and>
     (\<forall>cs d perm f. vpath T cs \<longrightarrow> fst (h_WriteFile H (abs_path cs) d perm f) = None)"

text \<open>The elements of a volume's directory, and the files a volume asks for.\<close>

definition vol_dir :: "string list \<Rightarrow> Pod \<Rightarrow> string \<Rightarrow> string list" where
  "vol_dir T pod name = T @ [''lok8s-volumes'', om_UID (pod_Metadata pod), name]"

definition vol_entries :: "'b cfg \<Rightarrow> Pod \<Rightarrow> Volume \<Rightarrow> (string \<times> bytes) list option" where
  "vol_entries configStore pod vol =
     (let ns = om_Namespace (pod_Metadata pod)
      in case v_ConfigMap vol of
           Some src \<Rightarrow> map_option (\<lambda>cm. mentries (cm_Data cm)) (LoadConfigMap ns (cv_Name src) configStore)
         | None \<Rightarrow>
             (case v_Secret vol of
                Some src \<Rightarrow> map_option (\<lambda>sec. mentries (sec_Data sec)) (LoadSecret ns (sv_SecretName src) configStore)
              | None \<Rightarrow> Some []))"

definition names_ok :: "'b cfg \<Rightarrow> Pod \<Rightarrow> bool" where
  "names_ok configStore pod \<longleftrightarrow>
     plain (om_UID (pod_Metadata pod)) \<and>
     distinct (map v_Name (ps_Volumes (pod_Spec pod))) \<and>
     (\<forall>vol \<in> set (ps_Volumes (pod_Spec pod)). plain (v_Name vol) \<and>
        (case vol_entries configStore pod vol of
           None \<Rightarrow> True
         | Some kvs \<Rightarrow> distinct (map fst kvs) \<and> (\<forall>k \<in> fst ` set kvs. plain k)))"

section \<open>Lemmas\<close>

lemma fs_write:
  "fs_ok H read T \<Longrightarrow> vpath T cs \<Longrightarrow> vpath T ds \<Longrightarrow> h_WriteFile H (abs_path cs) d perm f = (None, f') \<Longrightarrow>
   read (abs_path ds) f' = (if ds = cs then Some d else read (abs_path ds) f)"
  unfolding fs_ok_def by blast

lemma fs_mkdir: "fs_ok H read T \<Longrightarrow> vpath T ds \<Longrightarrow> h_MkdirAll H p f = (r, f') \<Longrightarrow>
   read (abs_path ds) f' = read (abs_path ds) f"
  unfolding fs_ok_def by (metis snd_conv)

lemma fs_remove: "fs_ok H read T \<Longrightarrow> vpath T cs \<Longrightarrow> vpath T ds \<Longrightarrow> strict_prefix cs ds \<Longrightarrow>
   read (abs_path ds) (h_RemoveAll H (abs_path cs) f) = None"
  unfolding fs_ok_def by blast

lemma fs_temp: "fs_ok H read T \<Longrightarrow> T \<noteq> [] \<and> (\<forall>c \<in> set T. plain c) \<and> h_TempDir H = abs_path T"
  unfolding fs_ok_def by blast

lemma plain_root [simp]: "plain ''lok8s-volumes''"
  by (simp add: plain_def)

lemma vol_dir_vpath:
  "fs_ok H read T \<Longrightarrow> plain (om_UID (pod_Metadata pod)) \<Longrightarrow> plain name \<Longrightarrow> vpath T (vol_dir T pod name)"
  using fs_temp [of H read T] by (auto simp: vpath_def vol_dir_def)

lemma vpath_snoc: "vpath T cs \<Longrightarrow> plain k \<Longrightarrow> vpath T (cs @ [k])"
  by (auto simp: vpath_def)

lemma vpath_join: "fs_ok H read T \<Longrightarrow> vpath T cs \<Longrightarrow> plain k \<Longrightarrow> path_join [abs_path cs, k] = abs_path (cs @ [k])"
  using path_join_abs [of cs "[k]"] by (cases cs) (auto simp: vpath_def)

lemma vol_dir_path:
  assumes "fs_ok H read T" "plain (om_UID (pod_Metadata pod))" "plain name"
  shows "path_join [h_TempDir H, ''lok8s-volumes'', om_UID (pod_Metadata pod), name] =
    abs_path (vol_dir T pod name)"
  using path_join_abs [of T "[''lok8s-volumes'', om_UID (pod_Metadata pod), name]"] fs_temp [OF assms(1)] assms
  by (simp add: vol_dir_def)

lemma write_keys_effect:
  assumes "fs_ok H read T" "vpath T D"
  shows "write_keys H (abs_path D) perm kvs f = (None, f') \<Longrightarrow> \<forall>k \<in> fst ` set kvs. plain k \<Longrightarrow>
    distinct (map fst kvs) \<Longrightarrow>
    (\<forall>k v. map_of kvs k = Some v \<longrightarrow> read (abs_path (D @ [k])) f' = Some v) \<and>
    (\<forall>ds. vpath T ds \<longrightarrow> \<not> prefix D ds \<or> ds \<notin> (\<lambda>k. D @ [k]) ` fst ` set kvs \<longrightarrow>
       read (abs_path ds) f' = read (abs_path ds) f)"
proof (induction kvs arbitrary: f)
  case (Cons kv kvs)
  obtain k v where kv: "kv = (k, v)" by (cases kv)
  have k: "plain k" and p: "vpath T (D @ [k])" using Cons.prems(2) vpath_snoc [OF assms(2)] by (auto simp: kv)
  obtain f1 where f1: "h_WriteFile H (abs_path (D @ [k])) v perm f = (None, f1)"
      "write_keys H (abs_path D) perm kvs f1 = (None, f')"
    using Cons.prems(1) vpath_join [OF assms k] by (auto simp: kv split: prod.splits option.splits)
  have IH: "\<forall>k v. map_of kvs k = Some v \<longrightarrow> read (abs_path (D @ [k])) f' = Some v"
      "\<forall>ds. vpath T ds \<longrightarrow> \<not> prefix D ds \<or> ds \<notin> (\<lambda>k. D @ [k]) ` fst ` set kvs \<longrightarrow>
         read (abs_path ds) f' = read (abs_path ds) f1"
    using Cons.IH [OF f1(2)] Cons.prems by (auto simp: kv)
  note w = fs_write [OF assms(1) p _ f1(1)]
  have "read (abs_path (D @ [k])) f' = Some v"
    using IH(2) p w [OF p] Cons.prems(3) by (force simp: kv)
  moreover have "read (abs_path ds) f' = read (abs_path ds) f"
    if "vpath T ds" "\<not> prefix D ds \<or> ds \<notin> (\<lambda>k. D @ [k]) ` fst ` set (kv # kvs)" for ds
  proof -
    have "read (abs_path ds) f' = read (abs_path ds) f1" using IH(2) that by auto
    moreover have "ds \<noteq> D @ [k]" using that(2) by (auto simp: kv)
    ultimately show ?thesis using w [OF that(1)] by simp
  qed
  ultimately show ?case using IH(1) by (simp add: kv)
qed simp

lemma write_keys_works:
  assumes "fs_ok H read T" "fs_works H T" "vpath T D"
  shows "\<forall>k \<in> fst ` set kvs. plain k \<Longrightarrow> fst (write_keys H (abs_path D) perm kvs f) = None"
proof (induction kvs arbitrary: f)
  case (Cons kv kvs)
  obtain k v where kv: "kv = (k, v)" by (cases kv)
  have k: "plain k" using Cons.prems by (simp add: kv)
  obtain f1 where "h_WriteFile H (abs_path (D @ [k])) v perm f = (None, f1)"
    using assms(2) vpath_snoc [OF assms(3) k] unfolding fs_works_def by (metis prod.collapse)
  then show ?case using Cons vpath_join [OF assms(1,3) k] by (simp add: kv)
qed simp

text \<open>What the projection of a volume achieves.\<close>

definition vol_written :: "(string \<Rightarrow> 'f \<Rightarrow> bytes option) \<Rightarrow> string list \<Rightarrow> 'b cfg \<Rightarrow> Pod \<Rightarrow> 'f \<Rightarrow> Volume \<Rightarrow> bool" where
  "vol_written read T configStore pod f vol \<longleftrightarrow>
     (\<exists>kvs. vol_entries configStore pod vol = Some kvs \<and>
        (\<forall>k v. map_of kvs k = Some v \<longrightarrow> read (abs_path (vol_dir T pod (v_Name vol) @ [k])) f = Some v))"

lemma project_volume_ok:
  assumes fs: "fs_ok H read T" "fs_works H T"
    and pl: "plain (om_UID (pod_Metadata pod))" "plain (v_Name vol)"
    and kvs: "vol_entries cs pod vol = Some kvs" "distinct (map fst kvs)" "\<forall>k \<in> fst ` set kvs. plain k"
  obtains f' where "project_volume H cs pod vol f = (Inr (abs_path (vol_dir T pod (v_Name vol))), f')"
    "vol_written read T cs pod f' vol"
    "\<And>ds. vpath T ds \<Longrightarrow> \<not> prefix (vol_dir T pod (v_Name vol)) ds \<Longrightarrow>
       read (abs_path ds) f' = read (abs_path ds) f"
proof -
  let ?D = "vol_dir T pod (v_Name vol)"
  have D: "vpath T ?D" by (rule vol_dir_vpath [OF fs(1) pl])
  note path = vol_dir_path [OF fs(1) pl]
  obtain f1 where f1: "h_MkdirAll H (abs_path ?D) f = (None, f1)"
    using fs(2) D unfolding fs_works_def by (metis prod.collapse)
  have "\<exists>perm. project_volume H cs pod vol f =
      (case write_keys H (abs_path ?D) perm kvs f1 of
         (None, f2) \<Rightarrow> (Inr (abs_path ?D), f2) | (Some _, f2) \<Rightarrow> project_volume H cs pod vol f)"
  proof (cases "v_ConfigMap vol")
    case (Some src)
    then show ?thesis using kvs(1) f1 write_keys_works [OF fs D kvs(3)]
      by (intro exI [of _ 420])
        (auto simp: project_volume_def vol_entries_def path Let_def split: prod.splits option.splits)
  next
    case None
    then show ?thesis using kvs(1) f1 write_keys_works [OF fs D kvs(3)]
      by (intro exI [of _ 256])
        (auto simp: project_volume_def vol_entries_def path Let_def split: prod.splits option.splits)
  qed
  then obtain perm where perm: "project_volume H cs pod vol f =
      (case write_keys H (abs_path ?D) perm kvs f1 of
         (None, f2) \<Rightarrow> (Inr (abs_path ?D), f2) | (Some _, f2) \<Rightarrow> project_volume H cs pod vol f)" by blast
  obtain f2 where f2: "write_keys H (abs_path ?D) perm kvs f1 = (None, f2)"
    using write_keys_works [OF fs D kvs(3)] by (metis prod.collapse)
  note eff = write_keys_effect [OF fs(1) D f2 kvs(3,2)]
  show thesis
  proof (rule that)
    show "project_volume H cs pod vol f = (Inr (abs_path ?D), f2)" using perm f2 by simp
    show "vol_written read T cs pod f2 vol" using eff kvs(1) by (simp add: vol_written_def)
    show "read (abs_path ds) f2 = read (abs_path ds) f" if "vpath T ds" "\<not> prefix ?D ds" for ds
      using eff that fs_mkdir [OF fs(1) that(1) f1] by simp
  qed
qed

lemma vol_dirs_apart: "n \<noteq> m \<Longrightarrow> \<not> prefix (vol_dir T pod n) (vol_dir T pod m @ ks)"
  by (auto simp: vol_dir_def prefix_def)

lemma project_loop_ok:
  assumes fs: "fs_ok H read T" "fs_works H T" and uid: "plain (om_UID (pod_Metadata pod))"
  shows "\<forall>vol \<in> set vols. plain (v_Name vol) \<and> (\<exists>kvs. vol_entries cs pod vol = Some kvs \<and>
      distinct (map fst kvs) \<and> (\<forall>k \<in> fst ` set kvs. plain k)) \<Longrightarrow> distinct (map v_Name vols) \<Longrightarrow>
    \<exists>proj' f'. project_loop H cs pod vols proj f = (Inr proj', f') \<and>
      (\<forall>n. tlookup proj' n = (if n \<in> v_Name ` set vols then Some (abs_path (vol_dir T pod n)) else tlookup proj n)) \<and>
      (\<forall>vol \<in> set vols. vol_written read T cs pod f' vol) \<and>
      (\<forall>ds. vpath T ds \<longrightarrow> (\<forall>vol \<in> set vols. \<not> prefix (vol_dir T pod (v_Name vol)) ds) \<longrightarrow>
         read (abs_path ds) f' = read (abs_path ds) f)"
proof (induction vols arbitrary: proj f)
  case (Cons vol vols)
  obtain kvs where kvs: "vol_entries cs pod vol = Some kvs" "distinct (map fst kvs)"
      "\<forall>k \<in> fst ` set kvs. plain k" and pl: "plain (v_Name vol)" using Cons.prems(1) by auto
  obtain f1 where f1: "project_volume H cs pod vol f = (Inr (abs_path (vol_dir T pod (v_Name vol))), f1)"
      "vol_written read T cs pod f1 vol"
      "\<And>ds. vpath T ds \<Longrightarrow> \<not> prefix (vol_dir T pod (v_Name vol)) ds \<Longrightarrow> read (abs_path ds) f1 = read (abs_path ds) f"
    using project_volume_ok [OF fs uid pl kvs] by blast
  have p: "\<forall>vol \<in> set vols. plain (v_Name vol) \<and> (\<exists>kvs. vol_entries cs pod vol = Some kvs \<and>
      distinct (map fst kvs) \<and> (\<forall>k \<in> fst ` set kvs. plain k))" "distinct (map v_Name vols)"
    using Cons.prems by simp_all
  obtain proj' f' where IH: "project_loop H cs pod vols (tstore (v_Name vol) (abs_path (vol_dir T pod (v_Name vol))) proj) f1 = (Inr proj', f')"
      "\<forall>n. tlookup proj' n = (if n \<in> v_Name ` set vols then Some (abs_path (vol_dir T pod n))
         else tlookup (tstore (v_Name vol) (abs_path (vol_dir T pod (v_Name vol))) proj) n)"
      "\<forall>vol \<in> set vols. vol_written read T cs pod f' vol"
      "\<forall>ds. vpath T ds \<longrightarrow> (\<forall>vol \<in> set vols. \<not> prefix (vol_dir T pod (v_Name vol)) ds) \<longrightarrow>
         read (abs_path ds) f' = read (abs_path ds) f1"
    using Cons.IH [OF p, where f = f1] by blast
  have "vol_written read T cs pod f' vol"
    unfolding vol_written_def
  proof (intro exI conjI allI impI)
    fix k v
    assume kv: "map_of kvs k = Some v"
    then have "plain k" using kvs(3) by (metis domI dom_map_of_conv_image_fst)
    then have "vpath T (vol_dir T pod (v_Name vol) @ [k])"
      by (rule vpath_snoc [OF vol_dir_vpath [OF fs(1) uid pl]])
    moreover have "\<forall>w \<in> set vols. \<not> prefix (vol_dir T pod (v_Name w)) (vol_dir T pod (v_Name vol) @ [k])"
    proof
      fix w assume "w \<in> set vols"
      then have "v_Name w \<noteq> v_Name vol" using Cons.prems(2) by (auto simp: rev_image_eqI)
      then show "\<not> prefix (vol_dir T pod (v_Name w)) (vol_dir T pod (v_Name vol) @ [k])"
        by (rule vol_dirs_apart)
    qed
    ultimately show "read (abs_path (vol_dir T pod (v_Name vol) @ [k])) f' = Some v"
      using IH(4) f1(2) kvs(1) kv by (simp add: vol_written_def)
  qed (rule kvs(1))
  then show ?case using IH f1 by (intro exI [of _ proj'] exI [of _ f']) (auto simp: f1(1))
qed simp

lemma abs_path_prefix:
  assumes "cs \<noteq> []" "strict_prefix cs ds"
  shows "prefix (abs_path cs @ ''/'') (abs_path ds)"
proof -
  obtain es where es: "ds = cs @ es" "es \<noteq> []" using assms(2) by (metis strict_prefixE' append_Nil2 list.discI)
  have "join_str ''/'' (cs @ es) = join_str ''/'' cs @ ''/'' @ join_str ''/'' es"
    using assms(1) es(2)
  proof (induction cs)
    case (Cons c cs)
    then show ?case by (cases "cs = []") (auto simp: join_Cons)
  qed simp
  then show ?thesis by (simp add: es(1) abs_path_def)
qed

section \<open>A file system in memory\<close>

definition mem_host :: "(string, bytes) tbl host" where
  "mem_host = \<lparr>h_Stat = (\<lambda>p f. p = ''./app''), h_LookPath = (\<lambda>_ _. None),
     h_MkdirAll = (\<lambda>_ f. (None, f)),
     h_RemoveAll = (\<lambda>p f. filter (\<lambda>(q, _). \<not> (q = p \<or> prefix (p @ ''/'') q)) f),
     h_WriteFile = (\<lambda>p d _ f. (None, tstore p d f)),
     h_ReadFile = (\<lambda>p f. case tlookup f p of Some d \<Rightarrow> Inr d | None \<Rightarrow> Inl (EExt ''not found'')),
     h_ReadDir = (\<lambda>_ _. Inr []), h_Symlink = (\<lambda>_ _ f. (None, f)),
     h_StartCmd = (\<lambda>_ _ _ f. (Inr 17, f)), h_RunCmd = (\<lambda>_ _ _ f. (None, f)),
     h_Listen = (\<lambda>_ f. (None, f)), h_Unlisten = (\<lambda>_ f. f), h_Environ = [], h_TempDir = ''/tmp'',
     h_upper = (\<lambda>s. s), h_Quote = (\<lambda>s. s)\<rparr>"

lemma map_of_filter_key: "map_of (filter (\<lambda>(q, _). P q) t) k = (if P k then map_of t k else None)"
  by (induction t) auto

lemma vpath_nonempty: "vpath T cs \<Longrightarrow> cs \<noteq> []"
  by (auto simp: vpath_def)

lemma mem_host_ok: "fs_ok mem_host (\<lambda>p f. tlookup f p) [''tmp'']"
proof -
  have inj: "abs_path ds = abs_path cs \<longleftrightarrow> ds = cs" if "vpath [''tmp''] cs" "vpath [''tmp''] ds" for cs ds
    using abs_path_inj [OF vpath_nonempty [OF that(2)] vpath_nonempty [OF that(1)]] that
    by (auto simp: vpath_def)
  have rm: "prefix (abs_path cs @ ''/'') (abs_path ds)" if "vpath [''tmp''] cs" "strict_prefix cs ds" for cs ds
    using abs_path_prefix [of cs ds] that vpath_nonempty by blast
  have t: "h_TempDir mem_host = abs_path [''tmp'']" by (simp add: mem_host_def abs_path_def)
  show ?thesis
    unfolding fs_ok_def using inj rm t
    by (auto simp: mem_host_def map_of_filter_key plain_def)
qed

lemma mem_host_works: "fs_works mem_host T"
  by (simp add: fs_works_def mem_host_def)

section \<open>Properties\<close>

text \<open>Projection writes what the pod asks for.  When every config map and secret the volumes
  name exists, and the names and keys are single path elements, each used once, projection
  succeeds: every volume gets its own directory, and afterwards each key of its config map or
  secret is a file there that holds its value.\<close>

theorem ProjectVolumes_writes_files:
  assumes "fs_ok H read T" "fs_works H T" "names_ok configStore pod"
    and "\<forall>vol \<in> set (ps_Volumes (pod_Spec pod)). vol_entries configStore pod vol \<noteq> None"
  shows "\<exists>projected f'. ProjectVolumes H configStore pod f = (Inr projected, f') \<and>
    (\<forall>vol \<in> set (ps_Volumes (pod_Spec pod)).
       tlookup projected (v_Name vol) = Some (abs_path (vol_dir T pod (v_Name vol))) \<and>
       vol_written read T configStore pod f' vol)"
proof -
  have uid: "plain (om_UID (pod_Metadata pod))" and d: "distinct (map v_Name (ps_Volumes (pod_Spec pod)))"
    using assms(3) by (simp_all add: names_ok_def)
  have "\<forall>vol \<in> set (ps_Volumes (pod_Spec pod)). plain (v_Name vol) \<and>
      (\<exists>kvs. vol_entries configStore pod vol = Some kvs \<and> distinct (map fst kvs) \<and>
        (\<forall>k \<in> fst ` set kvs. plain k))"
    using assms(3,4) unfolding names_ok_def by (fastforce split: option.splits)
  from project_loop_ok [OF assms(1,2) uid this d, of "[]" f]
  show ?thesis using uid by (auto simp: ProjectVolumes_def plain_def)
qed

definition vol_pod :: Pod where
  "vol_pod = (demo_pod ''default'' ''web'')\<lparr>pod_Spec := zero_PodSpec\<lparr>ps_Volumes :=
     [\<lparr>v_Name = ''conf'', v_ConfigMap = Some \<lparr>cv_Name = ''settings''\<rparr>, v_Secret = None\<rparr>]\<rparr>\<rparr>"

definition vol_cfg :: "(string \<times> string) list \<Rightarrow> unit cfg" where
  "vol_cfg kvs = (\<lparr>cfg_configMaps = [(''default/settings'', zero_ConfigMap\<lparr>cm_Data := Some kvs\<rparr>)],
     cfg_secrets = []\<rparr>, None)"

theorem ProjectVolumes_writes_files_witness:
  "\<exists>projected f'. ProjectVolumes mem_host (vol_cfg [(''mode'', ''fast'')]) vol_pod [] = (Inr projected, f') \<and>
     tlookup f' ''/tmp/lok8s-volumes/u1/conf/mode'' = Some ''fast''"
proof -
  have v: "ps_Volumes (pod_Spec vol_pod) =
      [\<lparr>v_Name = ''conf'', v_ConfigMap = Some \<lparr>cv_Name = ''settings''\<rparr>, v_Secret = None\<rparr>]"
    by (simp add: vol_pod_def)
  have e: "vol_entries (vol_cfg [(''mode'', ''fast'')]) vol_pod
      \<lparr>v_Name = ''conf'', v_ConfigMap = Some \<lparr>cv_Name = ''settings''\<rparr>, v_Secret = None\<rparr> = Some [(''mode'', ''fast'')]"
    by (simp add: vol_entries_def vol_cfg_def vol_pod_def demo_pod_def LoadConfigMap_def)
  have u: "om_UID (pod_Metadata vol_pod) = ''u1''" by (simp add: vol_pod_def demo_pod_def)
  have n: "names_ok (vol_cfg [(''mode'', ''fast'')]) vol_pod"
    by (simp add: names_ok_def v e u plain_def)
  have p: "abs_path (vol_dir [''tmp''] vol_pod ''conf'' @ [''mode'']) = ''/tmp/lok8s-volumes/u1/conf/mode''"
    by (simp add: abs_path_def vol_dir_def u)
  show ?thesis
    using ProjectVolumes_writes_files [OF mem_host_ok mem_host_works n, of "[]"]
    by (auto simp: v e vol_written_def simp flip: p)
qed

text \<open>A projection that fails leaves nothing behind: no file is left below the pod's
  directory, whichever step failed.\<close>

theorem ProjectVolumes_failure_cleans_up:
  assumes "fs_ok H read T" "plain (om_UID (pod_Metadata pod))"
    and "ProjectVolumes H configStore pod f = (Inl e, f')"
    and "vpath T ds" "strict_prefix (T @ [''lok8s-volumes'', om_UID (pod_Metadata pod)]) ds"
  shows "read (abs_path ds) f' = None"
proof -
  let ?R = "T @ [''lok8s-volumes'', om_UID (pod_Metadata pod)]"
  have R: "path_join [h_TempDir H, ''lok8s-volumes'', om_UID (pod_Metadata pod)] = abs_path ?R" "vpath T ?R"
    using path_join_abs [of T "[''lok8s-volumes'', om_UID (pod_Metadata pod)]"] fs_temp [OF assms(1)] assms(2)
    by (auto simp: vpath_def)
  have clean: "read (abs_path ds) (CleanupVolumes H pod g) = None" for g
    using fs_remove [OF assms(1) R(2) assms(4,5)] assms(2) by (simp add: CleanupVolumes_def R(1) plain_def)
  have vol: "\<exists>g. f1 = CleanupVolumes H pod g"
    if "project_volume H configStore pod vol g0 = (Inl e1, f1)" for vol g0 e1 f1
    using that by (auto simp: project_volume_def Let_def split: prod.splits option.splits)
  have loop: "\<exists>g. f' = CleanupVolumes H pod g"
    if "project_loop H configStore pod vols proj f = (Inl e, f')" for vols proj f
    using that vol by (induction vols arbitrary: proj f) (auto split: prod.splits sum.splits)
  have "project_loop H configStore pod (ps_Volumes (pod_Spec pod)) [] f = (Inl e, f')"
    using assms(2,3) by (simp add: ProjectVolumes_def plain_def)
  then obtain g where "f' = CleanupVolumes H pod g" using loop by blast
  then show ?thesis by (simp add: clean)
qed

theorem ProjectVolumes_failure_cleans_up_witness:
  "tlookup (snd (ProjectVolumes mem_host empty_cfg vol_pod [(''/tmp/lok8s-volumes/u1/conf/mode'', ''old'')]))
     ''/tmp/lok8s-volumes/u1/conf/mode'' = None"
proof -
  let ?ds = "[''tmp'', ''lok8s-volumes'', ''u1'', ''conf'', ''mode'']"
  have u: "om_UID (pod_Metadata vol_pod) = ''u1''" by (simp add: vol_pod_def demo_pod_def)
  have f: "fst (ProjectVolumes mem_host empty_cfg vol_pod [(''/tmp/lok8s-volumes/u1/conf/mode'', ''old'')]) =
      Inl (EVolumeConfigMap ''settings'' ''conf'')" by code_simp
  have p: "abs_path ?ds = ''/tmp/lok8s-volumes/u1/conf/mode''" by (simp add: abs_path_def)
  have "vpath [''tmp''] ?ds" "strict_prefix ([''tmp''] @ [''lok8s-volumes'', om_UID (pod_Metadata vol_pod)]) ?ds"
    "plain (om_UID (pod_Metadata vol_pod))"
    by (simp_all add: vpath_def plain_def u)
  from ProjectVolumes_failure_cleans_up [OF mem_host_ok this(3) _ this(1,2)]
  show ?thesis using f p by (metis prod.collapse)
qed


end
