(* ===== verification/Service_Proxy.thy ===== *)
theory Service_Proxy
  imports Engine PortPool Service_Store
begin

text \<open>
  The proxies: \<open>network/proxy.go\<close>, which forwards a pod's host port to its container port,
  \<open>service/proxy.go\<close>, which spreads the connections of a service over its ready pods and manages
  one proxy per service, and \<open>service/envinjector.go\<close>, which tells pods where the services are.
  Opening a listener is an operation of the host; the bytes that flow through a connection are
  not modelled.  A connection is a number.
\<close>

section \<open>The pod proxy\<close>

text \<open>\<open>px_shut\<close> are the connections \<open>Close\<close> was called on.\<close>

record Proxy =
  px_listenAddr :: string
  px_targetAddr :: string
  px_listener :: bool
  px_conns :: "nat list"
  px_shut :: "nat list"
  px_closed :: bool

definition NewProxy :: "string \<Rightarrow> string \<Rightarrow> Proxy" where
  "NewProxy listenAddr targetAddr =
     \<lparr>px_listenAddr = listenAddr, px_targetAddr = targetAddr, px_listener = False,
      px_conns = [], px_shut = [], px_closed = False\<rparr>"

definition Proxy_Start :: "'w host \<Rightarrow> Proxy \<Rightarrow> 'w \<Rightarrow> goerror option \<times> Proxy \<times> 'w" where
  "Proxy_Start H p w =
     (case h_Listen H (px_listenAddr p) w of
        (Some e, w1) \<Rightarrow> (Some e, p, w1)
      | (None, w1) \<Rightarrow> (None, p\<lparr>px_listener := True\<rparr>, w1))"

text \<open>
  \<open>handleConn\<close> in two steps: it registers the connection; when the copying ends, or the target
  cannot be reached, it closes the connection and removes it.
\<close>

definition Proxy_register :: "nat \<Rightarrow> Proxy \<Rightarrow> Proxy" where
  "Proxy_register c p = p\<lparr>px_conns := List.insert c (px_conns p)\<rparr>"

definition Proxy_finish :: "nat \<Rightarrow> Proxy \<Rightarrow> Proxy" where
  "Proxy_finish c p = p\<lparr>px_conns := removeAll c (px_conns p), px_shut := List.insert c (px_shut p)\<rparr>"

definition Proxy_Close :: "'w host \<Rightarrow> Proxy \<Rightarrow> 'w \<Rightarrow> Proxy \<times> 'w" where
  "Proxy_Close H p w =
     (if px_closed p then (p, w)
      else (p\<lparr>px_closed := True, px_shut := List.union (px_conns p) (px_shut p)\<rparr>,
            if px_listener p then h_Unlisten H (px_listenAddr p) w else w))"

section \<open>The service proxy\<close>

record ServiceProxy =
  spx_svc :: Service
  spx_listener :: bool
  spx_closed :: bool
  spx_conns :: "nat list"
  spx_shut :: "nat list"
  spx_nextIdx :: "64 word"
  spx_port :: int

definition NewServiceProxy :: "Service \<Rightarrow> ServiceProxy" where
  "NewServiceProxy svc =
     \<lparr>spx_svc = svc, spx_listener = False, spx_closed = False, spx_conns = [], spx_shut = [],
      spx_nextIdx = 0, spx_port = 0\<rparr>"

definition loopback :: "int \<Rightarrow> string" where
  "loopback port = ''127.0.0.1:'' @ itoa port"

definition ServiceProxy_Start :: "'w host \<Rightarrow> int \<Rightarrow> ServiceProxy \<Rightarrow> 'w \<Rightarrow> goerror option \<times> ServiceProxy \<times> 'w" where
  "ServiceProxy_Start H port sp w =
     (case h_Listen H (loopback port) w of
        (Some e, w1) \<Rightarrow> (Some e, sp, w1)
      | (None, w1) \<Rightarrow> (None, sp\<lparr>spx_listener := True, spx_port := port\<rparr>, w1))"

fun all_labels :: "string gomap \<Rightarrow> (string \<times> string) list \<Rightarrow> bool" where
  "all_labels labels [] = True"
| "all_labels labels ((k, v) # kvs) =
     (case mlookup labels k of
        None \<Rightarrow> False
      | Some val \<Rightarrow> if val \<noteq> v then False else all_labels labels kvs)"

definition matchesSelector :: "string gomap \<Rightarrow> string gomap \<Rightarrow> bool" where
  "matchesSelector labels selector =
     (if mlen selector = 0 then False else all_labels labels (mentries selector))"

definition pod_ready :: "Pod \<Rightarrow> bool" where
  "pod_ready pod =
     (if st_Phase (pod_Status pod) = PodRunning then
        if st_ContainerStatuses (pod_Status pod) = [] then True
        else list_ex cs_Ready (st_ContainerStatuses (pod_Status pod))
      else False)"

fun backends_of :: "Service \<Rightarrow> Pod list \<Rightarrow> int list" where
  "backends_of svc [] = []"
| "backends_of svc (pod # pods) =
     (if om_Namespace (pod_Metadata pod) \<noteq> om_Namespace (svc_Metadata svc) then backends_of svc pods
      else if \<not> matchesSelector (om_Labels (pod_Metadata pod)) (ss_Selector (svc_Spec svc))
      then backends_of svc pods
      else if pod_ready pod \<and> st_HostPort (pod_Status pod) > 0
      then st_HostPort (pod_Status pod) # backends_of svc pods
      else backends_of svc pods)"

text \<open>\<open>pods\<close> is what \<open>ListActivePods\<close> of the lister returns at that moment.\<close>

definition getBackends :: "Pod list \<Rightarrow> ServiceProxy \<Rightarrow> int list" where
  "getBackends pods sp = backends_of (spx_svc sp) pods"

text \<open>
  The choice \<open>handleConn\<close> makes: no backend, or the next one in turn (\<open>AddUint64\<close> returns the new
  value of the counter, and both operations wrap around).
\<close>

definition pick_backend :: "Pod list \<Rightarrow> ServiceProxy \<Rightarrow> int option \<times> ServiceProxy" where
  "pick_backend pods sp =
     (let backends = getBackends pods sp
      in if backends = [] then (None, sp)
         else let next = spx_nextIdx sp + 1; idx = next - 1
              in (Some (backends ! unat (idx mod word_of_nat (length backends))),
                  sp\<lparr>spx_nextIdx := next\<rparr>))"

definition ServiceProxy_register :: "nat \<Rightarrow> ServiceProxy \<Rightarrow> ServiceProxy" where
  "ServiceProxy_register c sp = sp\<lparr>spx_conns := List.insert c (spx_conns sp)\<rparr>"

definition ServiceProxy_finish :: "nat \<Rightarrow> ServiceProxy \<Rightarrow> ServiceProxy" where
  "ServiceProxy_finish c sp =
     sp\<lparr>spx_conns := removeAll c (spx_conns sp), spx_shut := List.insert c (spx_shut sp)\<rparr>"

definition ServiceProxy_Close :: "'w host \<Rightarrow> ServiceProxy \<Rightarrow> 'w \<Rightarrow> ServiceProxy \<times> 'w" where
  "ServiceProxy_Close H sp w =
     (if spx_closed sp then (sp, w)
      else (sp\<lparr>spx_closed := True, spx_shut := List.union (spx_conns sp) (spx_shut sp)\<rparr>,
            if spx_listener sp then h_Unlisten H (loopback (spx_port sp)) w else w))"

section \<open>The proxy manager\<close>

text \<open>The pool is shared with the lifecycle manager, so it is part of the state that is passed.\<close>

record ProxyManager =
  pm_proxies :: "(string, ServiceProxy) tbl"

type_synonym 'w pxs = "ProxyManager \<times> PortPool \<times> 'w"

definition NewProxyManager :: ProxyManager where
  "NewProxyManager = \<lparr>pm_proxies = []\<rparr>"

definition svc_key :: "Service \<Rightarrow> string" where
  "svc_key svc = om_Namespace (svc_Metadata svc) @ ''/'' @ om_Name (svc_Metadata svc)"

text \<open>The second half of \<open>StartProxy\<close>: a port of the pool.\<close>

definition start_dynamic :: "'w host \<Rightarrow> string \<Rightarrow> int \<Rightarrow> ServiceProxy \<Rightarrow> 'w pxs \<Rightarrow> (goerror + int) \<times> 'w pxs" where
  "start_dynamic H key requestedPort sp s =
     (case s of (pm, pool, w) \<Rightarrow>
       (case Allocate key pool of
          (Inl e, pool1) \<Rightarrow> (Inl (EBindAndAllocate requestedPort e), (pm, pool1, w))
        | (Inr dynPort, pool1) \<Rightarrow>
            (case ServiceProxy_Start H dynPort sp w of
               (Some e, sp1, w1) \<Rightarrow> (Inl (EBindDynamic dynPort e), (pm, Release key pool1, w1))
             | (None, sp1, w1) \<Rightarrow>
                 (Inr dynPort, (pm\<lparr>pm_proxies := tstore key sp1 (pm_proxies pm)\<rparr>, pool1, w1)))))"

definition StartProxy :: "'w host \<Rightarrow> Service \<Rightarrow> 'w pxs \<Rightarrow> (goerror + int) \<times> 'w pxs" where
  "StartProxy H svc s =
     (case s of (pm, pool, w) \<Rightarrow>
       (let key = svc_key svc
        in case tlookup (pm_proxies pm) key of
             Some existing \<Rightarrow> (Inr (spx_port existing), s)
           | None \<Rightarrow>
               (case ss_Ports (svc_Spec svc) of
                  [] \<Rightarrow> (Inl (EServiceNoPorts key), s)
                | p # _ \<Rightarrow>
                    let requestedPort = sp_Port p; sp = NewServiceProxy svc
                    in if requestedPort > 0 then
                         (case ServiceProxy_Start H requestedPort sp w of
                            (None, sp1, w1) \<Rightarrow>
                              (Inr requestedPort,
                               (pm\<lparr>pm_proxies := tstore key sp1 (pm_proxies pm)\<rparr>, pool, w1))
                          | (Some _, sp1, w1) \<Rightarrow> start_dynamic H key requestedPort sp1 (pm, pool, w1))
                       else start_dynamic H key requestedPort sp s)))"

definition StopProxy :: "'w host \<Rightarrow> string \<Rightarrow> string \<Rightarrow> 'w pxs \<Rightarrow> 'w pxs" where
  "StopProxy H namespace name s =
     (case s of (pm, pool, w) \<Rightarrow>
       (let key = namespace @ ''/'' @ name
        in case tlookup (pm_proxies pm) key of
             None \<Rightarrow> s
           | Some sp \<Rightarrow>
               (pm\<lparr>pm_proxies := tdelete key (pm_proxies pm)\<rparr>, Release key pool,
                snd (ServiceProxy_Close H sp w))))"

fun shutdown_loop :: "'w host \<Rightarrow> (string, ServiceProxy) tbl \<Rightarrow> PortPool \<Rightarrow> 'w \<Rightarrow> PortPool \<times> 'w" where
  "shutdown_loop H [] pool w = (pool, w)"
| "shutdown_loop H ((key, sp) # ps) pool w =
     shutdown_loop H ps (Release key pool) (snd (ServiceProxy_Close H sp w))"

definition ProxyManager_Shutdown :: "'w host \<Rightarrow> 'w pxs \<Rightarrow> 'w pxs" where
  "ProxyManager_Shutdown H s =
     (case s of (pm, pool, w) \<Rightarrow>
       (let (pool1, w1) = shutdown_loop H (pm_proxies pm) pool w
        in (pm\<lparr>pm_proxies := []\<rparr>, pool1, w1)))"

section \<open>Service variables\<close>

definition service_var :: "'w host \<Rightarrow> string \<Rightarrow> string" where
  "service_var H name = ReplaceAll (ToUpper (h_upper H) name) ''-'' ''_''"

definition service_port :: "ProxyManager \<Rightarrow> Service \<Rightarrow> int" where
  "service_port pm svc =
     (let port = (case tlookup (pm_proxies pm) (svc_key svc) of Some sp \<Rightarrow> spx_port sp | None \<Rightarrow> 0)
      in case ss_Ports (svc_Spec svc) of
           [] \<Rightarrow> port
         | p # _ \<Rightarrow> if port = 0 then sp_Port p else port)"

definition GenerateServiceEnv :: "'w host \<Rightarrow> string \<Rightarrow> 'b sst \<Rightarrow> ProxyManager \<Rightarrow> EnvVar list" where
  "GenerateServiceEnv H namespace st pm =
     concat (map (\<lambda>svc.
       [\<lparr>ev_Name = service_var H (om_Name (svc_Metadata svc)) @ ''_SERVICE_HOST'', ev_Value = ''127.0.0.1''\<rparr>,
        \<lparr>ev_Name = service_var H (om_Name (svc_Metadata svc)) @ ''_SERVICE_PORT'',
         ev_Value = itoa (service_port pm svc)\<rparr>])
       (ServiceStore_List namespace st))"

section \<open>Lemmas\<close>

lemma all_labels_iff: "all_labels labels kvs \<longleftrightarrow> (\<forall>(k, v) \<in> set kvs. mlookup labels k = Some v)"
  by (induction labels kvs rule: all_labels.induct) (auto split: option.splits)

lemma backends_of_filter:
  "backends_of svc pods =
   map (\<lambda>pod. st_HostPort (pod_Status pod))
     (filter (\<lambda>pod. om_Namespace (pod_Metadata pod) = om_Namespace (svc_Metadata svc) \<and>
        matchesSelector (om_Labels (pod_Metadata pod)) (ss_Selector (svc_Spec svc)) \<and>
        pod_ready pod \<and> st_HostPort (pod_Status pod) > 0) pods)"
  by (induction pods) auto

text \<open>The choices of the next \<open>n\<close> connections while the pods stay the same.\<close>

fun picks :: "nat \<Rightarrow> Pod list \<Rightarrow> ServiceProxy \<Rightarrow> int option list" where
  "picks 0 pods sp = []"
| "picks (Suc n) pods sp = (let (b, sp1) = pick_backend pods sp in b # picks n pods sp1)"

lemma pick_backend_some:
  assumes "getBackends pods sp = bs" "bs \<noteq> []" "length bs < 2 ^ 64"
  shows "pick_backend pods sp =
    (Some (bs ! (unat (spx_nextIdx sp) mod length bs)), sp\<lparr>spx_nextIdx := spx_nextIdx sp + 1\<rparr>)"
proof -
  have "unat (word_of_nat (length bs) :: 64 word) = length bs"
    using assms(3) by (simp add: unat_of_nat take_bit_nat_eq_self)
  then show ?thesis using assms by (simp add: pick_backend_def Let_def unat_mod_distrib)
qed

lemma picks_in_turn:
  assumes "bs \<noteq> []" "length bs < 2 ^ 64"
  shows "getBackends pods sp = bs \<Longrightarrow> unat (spx_nextIdx sp) + n \<le> 2 ^ 64 \<Longrightarrow>
    picks n pods sp = map (\<lambda>i. Some (bs ! ((unat (spx_nextIdx sp) + i) mod length bs))) [0..<n]"
proof (induction n arbitrary: sp)
  case (Suc n)
  let ?sp = "sp\<lparr>spx_nextIdx := spx_nextIdx sp + 1\<rparr>"
  show ?case
  proof (cases n)
    case 0
    then show ?thesis using pick_backend_some [OF Suc.prems(1) assms] by simp
  next
    case (Suc m)
    then have "unat (spx_nextIdx sp) + 1 < 2 ^ 64" using Suc.prems(2) by simp
    then have u: "unat (spx_nextIdx sp + 1) = Suc (unat (spx_nextIdx sp))"
      by (simp add: unat_word_ariths)
    have b: "getBackends pods ?sp = bs" using Suc.prems(1) by (simp add: getBackends_def)
    have "picks n pods ?sp = map (\<lambda>i. Some (bs ! ((unat (spx_nextIdx ?sp) + i) mod length bs))) [0..<n]"
      by (rule Suc.IH [OF b]) (use Suc.prems(2) u in simp)
    then show ?thesis
      using pick_backend_some [OF Suc.prems(1) assms] u
      by (simp add: upt_conv_Cons map_Suc_upt [symmetric] del: upt_Suc)
  qed
qed simp

lemma ServiceProxy_Start_cases:
  "ServiceProxy_Start H port sp w = (r, sp1, w1) \<Longrightarrow>
   (if r = None then sp1 = sp\<lparr>spx_listener := True, spx_port := port\<rparr> else sp1 = sp)"
  by (auto simp: ServiceProxy_Start_def split: prod.splits option.splits)

lemma start_dynamic_outcome:
  assumes "pp_inv pool" "pp_holds pool key = None"
    and "start_dynamic H key rp sp (pm, pool, w) = (r, (pm', pool', w'))"
  shows "pp_inv pool' \<and>
    (case r of
       Inl _ \<Rightarrow> pm' = pm \<and> pp_holds pool' = pp_holds pool
     | Inr port \<Rightarrow> pp_holds pool' = (pp_holds pool)(key \<mapsto> port) \<and>
         pm' = pm\<lparr>pm_proxies := tstore key (sp\<lparr>spx_listener := True, spx_port := port\<rparr>) (pm_proxies pm)\<rparr>)"
proof -
  obtain a pool1 where a: "Allocate key pool = (a, pool1)" by (cases "Allocate key pool")
  note inv1 = pp_inv_Allocate [OF assms(1) a]
  show ?thesis
  proof (cases a)
    case (Inl e)
    then have "pool1 = pool" using a assms(2) by (auto simp: Allocate_def pp_holds_def split: option.splits)
    then show ?thesis using assms(1,3) a Inl by (simp add: start_dynamic_def) auto
  next
    case (Inr port)
    obtain q sp1 w1 where q: "ServiceProxy_Start H port sp w = (q, sp1, w1)"
      by (cases "ServiceProxy_Start H port sp w")
    have h: "pp_holds pool1 = (pp_holds pool)(key \<mapsto> port)"
      using pp_holds_Allocate [of key pool port pool1] a Inr assms(2) by simp
    show ?thesis
    proof (cases q)
      case None
      then show ?thesis using assms(3) a Inr q inv1 h ServiceProxy_Start_cases [OF q]
        by (auto simp: start_dynamic_def)
    next
      case (Some e)
      then show ?thesis using assms(3) a Inr q pool.alloc_release [OF assms(1,2) a] pp_inv_Release [OF inv1]
        by (auto simp: start_dynamic_def)
    qed
  qed
qed

section \<open>Properties\<close>

text \<open>Connections go round the backends: while the pods stay the same, as many connections in
  a row as the service has backends reach each of them once, in their order, from where the
  counter stands (until the 64-bit counter overflows).\<close>

theorem round_robin:
  assumes "getBackends pods sp = bs" "bs \<noteq> []" "length bs < 2 ^ 64"
    and "unat (spx_nextIdx sp) + length bs \<le> 2 ^ 64"
  shows "picks (length bs) pods sp = map Some (rotate (unat (spx_nextIdx sp)) bs)"
  by (rule nth_equalityI)
    (simp_all add: picks_in_turn [OF assms(2,3,1,4)] nth_rotate assms(2))

definition web_pod :: "string \<Rightarrow> int \<Rightarrow> Pod" where
  "web_pod name port =
     zero_Pod\<lparr>pod_Metadata := zero_ObjectMeta\<lparr>om_Namespace := ''default'', om_Name := name,
        om_Labels := Some [(''app'', ''web'')]\<rparr>,
      pod_Status := zero_PodStatus\<lparr>st_Phase := PodRunning, st_HostPort := port\<rparr>\<rparr>"

definition web_svc :: Service where
  "web_svc = zero_Service\<lparr>svc_Metadata := zero_ObjectMeta\<lparr>om_Namespace := ''default'', om_Name := ''web''\<rparr>,
     svc_Spec := \<lparr>ss_Ports = [\<lparr>sp_Name = [], sp_Protocol = [], sp_Port = 8080, sp_TargetPort = 0, sp_NodePort = 0\<rparr>],
       ss_Selector = Some [(''app'', ''web'')], ss_Type = []\<rparr>\<rparr>"

lemma web_backends:
  "getBackends [web_pod ''a'' 30000, web_pod ''b'' 30001] (NewServiceProxy web_svc) = [30000, 30001]"
  by (simp add: getBackends_def backends_of_filter web_pod_def NewServiceProxy_def web_svc_def
      matchesSelector_def mlen_def mlookup_def pod_ready_def zero_PodStatus_def)

theorem round_robin_witness:
  "picks 2 [web_pod ''a'' 30000, web_pod ''b'' 30001] (NewServiceProxy web_svc) = [Some 30000, Some 30001]"
proof -
  have "picks (length [30000 :: int, 30001]) [web_pod ''a'' 30000, web_pod ''b'' 30001] (NewServiceProxy web_svc) =
      map Some (rotate (unat (spx_nextIdx (NewServiceProxy web_svc))) [30000, 30001])"
    by (rule round_robin [OF web_backends]) (simp_all add: NewServiceProxy_def)
  then show ?thesis by (simp add: NewServiceProxy_def eval_nat_numeral del: picks.simps)
qed

text \<open>The backends of a service are the host ports of exactly those pods that are in its
  namespace, carry every label of its (non-empty) selector, run, are ready and have a port.\<close>

theorem getBackends_exact:
  "port \<in> set (getBackends pods sp) \<longleftrightarrow>
   (\<exists>pod \<in> set pods.
      om_Namespace (pod_Metadata pod) = om_Namespace (svc_Metadata (spx_svc sp)) \<and>
      mentries (ss_Selector (svc_Spec (spx_svc sp))) \<noteq> [] \<and>
      (\<forall>(k, v) \<in> set (mentries (ss_Selector (svc_Spec (spx_svc sp)))).
         mlookup (om_Labels (pod_Metadata pod)) k = Some v) \<and>
      st_Phase (pod_Status pod) = PodRunning \<and>
      (st_ContainerStatuses (pod_Status pod) = [] \<or>
       (\<exists>cs \<in> set (st_ContainerStatuses (pod_Status pod)). cs_Ready cs)) \<and>
      st_HostPort (pod_Status pod) = port \<and> port > 0)"
  by (auto simp: getBackends_def backends_of_filter matchesSelector_def all_labels_iff mlen_def
      pod_ready_def list_ex_iff)

theorem getBackends_exact_witness:
  "30001 \<in> set (getBackends [web_pod ''a'' 30000, web_pod ''b'' 30001] (NewServiceProxy web_svc))"
  by (subst getBackends_exact)
    (simp add: web_pod_def NewServiceProxy_def web_svc_def mlookup_def zero_PodStatus_def)

text \<open>Starting a service's proxy either fails and leaves the proxies and the assignment of
  ports as they were, or records a listening proxy under the service's key; its port is the one
  the service asked for, or one the pool now holds for the service.  Starting it again changes
  nothing and gives the same port.\<close>

theorem StartProxy_outcome:
  assumes "pp_inv pool" "pp_holds pool (svc_key svc) = None"
    and "tlookup (pm_proxies pm) (svc_key svc) = None"
    and "StartProxy H svc (pm, pool, w) = (r, (pm', pool', w'))"
  shows "pp_inv pool' \<and>
    (case r of
       Inl _ \<Rightarrow> pm' = pm \<and> pp_holds pool' = pp_holds pool
     | Inr port \<Rightarrow>
         (\<exists>sp. tlookup (pm_proxies pm') (svc_key svc) = Some sp \<and> spx_listener sp \<and> spx_port sp = port) \<and>
         (pp_holds pool' = pp_holds pool \<and> port = sp_Port (hd (ss_Ports (svc_Spec svc))) \<or>
          pp_holds pool' = (pp_holds pool)(svc_key svc \<mapsto> port)) \<and>
         StartProxy H svc (pm', pool', w') = (Inr port, (pm', pool', w')))"
proof -
  have again: "StartProxy H svc (pm', pool', w') = (Inr (spx_port sp), (pm', pool', w'))"
    if "tlookup (pm_proxies pm') (svc_key svc) = Some sp" for sp
    using that by (simp add: StartProxy_def Let_def)
  note dyn = start_dynamic_outcome [OF assms(1,2), of H _ _ pm _ r pm' pool' w']
  show ?thesis
  proof (cases "ss_Ports (svc_Spec svc)")
    case Nil
    then show ?thesis using assms by (auto simp: StartProxy_def Let_def)
  next
    case (Cons p ps)
    show ?thesis
    proof (cases "sp_Port p > 0")
      case False
      then have "start_dynamic H (svc_key svc) (sp_Port p) (NewServiceProxy svc) (pm, pool, w) =
          (r, (pm', pool', w'))" using assms(3,4) Cons by (simp add: StartProxy_def Let_def)
      from dyn [OF this] again show ?thesis by (cases r) auto
    next
      case True
      obtain q sp1 w1 where q: "ServiceProxy_Start H (sp_Port p) (NewServiceProxy svc) w = (q, sp1, w1)"
        by (cases "ServiceProxy_Start H (sp_Port p) (NewServiceProxy svc) w")
      show ?thesis
      proof (cases q)
        case None
        then have "r = Inr (sp_Port p)" "pool' = pool"
            "pm' = pm\<lparr>pm_proxies := tstore (svc_key svc) sp1 (pm_proxies pm)\<rparr>"
          using assms(3,4) Cons True q by (simp_all add: StartProxy_def Let_def)
        then show ?thesis using assms(1) again ServiceProxy_Start_cases [OF q] None Cons by simp
      next
        case (Some e)
        then have "start_dynamic H (svc_key svc) (sp_Port p) sp1 (pm, pool, w1) = (r, (pm', pool', w'))"
          using assms(3,4) Cons True q by (simp add: StartProxy_def Let_def)
        from dyn [OF this] again show ?thesis by (cases r) auto
      qed
    qed
  qed
qed

theorem StartProxy_outcome_witness:
  "fst (StartProxy demo_host web_svc (NewProxyManager, NewPortPool 30000 32767, ())) = Inr 8080 \<and>
   pp_inv (fst (snd (snd (StartProxy demo_host web_svc (NewProxyManager, NewPortPool 30000 32767, ())))))"
proof -
  have r: "StartProxy demo_host web_svc (NewProxyManager, NewPortPool 30000 32767, ()) =
    (Inr 8080, (\<lparr>pm_proxies = [(''default/web'',
       (NewServiceProxy web_svc)\<lparr>spx_listener := True, spx_port := 8080\<rparr>)]\<rparr>, NewPortPool 30000 32767, ()))"
    by (simp add: StartProxy_def NewProxyManager_def web_svc_def svc_key_def ServiceProxy_Start_def
        demo_host_def)
  show ?thesis
    using StartProxy_outcome [OF pp_inv_New _ _ r] r
    by (simp add: pp_holds_def NewPortPool_def NewProxyManager_def)
qed

text \<open>C26: Pods and services share the names of the port pool.  When a pod holds a port and a
  service of the same namespace and name has a proxy, stopping the service's proxy takes the
  pod's port away: the pool holds nothing for the pod any more, and the port is free for others.\<close>

theorem StopProxy_frees_pod_port:
  assumes "pp_inv pool" "pp_holds pool (ns @ ''/'' @ name) = Some port"
    and "tlookup (pm_proxies pm) (ns @ ''/'' @ name) = Some sp"
    and "StopProxy H ns name (pm, pool, w) = (pm', pool', w')"
  shows "pp_holds pool' (ns @ ''/'' @ name) = None \<and> tlookup (pp_usedPorts pool') port = None"
proof -
  have "pool' = Release (ns @ ''/'' @ name) pool" using assms(3,4) by (simp add: StopProxy_def Let_def)
  then show ?thesis using assms(2) by (simp add: Release_def pp_holds_def)
qed

theorem StopProxy_frees_pod_port_witness:
  "fst (Allocate ''default/db'' (fst (snd (StopProxy demo_host ''default'' ''web''
     (snd (StartProxy demo_host web_svc (NewProxyManager,
        snd (Allocate ''default/web'' (NewPortPool 30000 32767)), ()))))))) = Inr 30000"
proof -
  let ?pool = "\<lparr>pp_minPort = 30000, pp_maxPort = 32767, pp_allocated = [(''default/web'', 30000)],
    pp_usedPorts = [(30000, ''default/web'')]\<rparr>"
  let ?sp = "(NewServiceProxy web_svc)\<lparr>spx_listener := True, spx_port := 8080\<rparr>"
  have a: "Allocate ''default/web'' (NewPortPool 30000 32767) = (Inr 30000, ?pool)"
    by (simp add: Allocate_def NewPortPool_def find_free.simps)
  have s: "StartProxy demo_host web_svc (NewProxyManager, ?pool, ()) =
      (Inr 8080, (\<lparr>pm_proxies = [(''default/web'', ?sp)]\<rparr>, ?pool, ()))"
    by (simp add: StartProxy_def NewProxyManager_def web_svc_def svc_key_def ServiceProxy_Start_def
        demo_host_def)
  have "pp_inv ?pool" using pp_inv_Allocate [OF pp_inv_New a] .
  moreover have t: "StopProxy demo_host ''default'' ''web'' (\<lparr>pm_proxies = [(''default/web'', ?sp)]\<rparr>, ?pool, ()) =
      (\<lparr>pm_proxies = []\<rparr>, Release ''default/web'' ?pool, ())"
    by (simp add: StopProxy_def)
  ultimately have "tlookup (pp_usedPorts (Release ''default/web'' ?pool)) 30000 = None"
    using StopProxy_frees_pod_port [OF _ _ _ t, of 30000 ?sp] by (simp add: pp_holds_def)
  then show ?thesis unfolding a snd_conv s t
    by (simp add: Release_def Allocate_def find_free.simps)
qed

end
