(* ===== verification/Lifecycle.thy ===== *)
theory Lifecycle
  imports Logs Health Volume Service_Proxy
begin

text \<open>
  The lifecycle manager of \<open>engine/lifecycle.go\<close>: it launches pods (port, volumes, init
  containers, engine, proxy), watches over them with one monitor each, restarts them with a
  backoff, terminates them, and tells watchers about every change.

  The table of managed pods holds pointers, and monitors and probes keep the pointer after the
  pod is gone: the pods live in a heap of addresses.  Every operation of the manager is one step
  on its state; the goroutines (a monitor, the callbacks of a probe, the first events of a
  watcher) are split into the steps between their waits.
\<close>

section \<open>State\<close>

record managedPod =
  mp_pod :: Pod
  mp_engineType :: string
  mp_target :: string
  mp_env :: "EnvVar list"
  mp_cancelled :: bool
  mp_logBuffer :: RingBuffer
  mp_stdout :: PrefixWriter
  mp_stderr :: PrefixWriter
  mp_restartCount :: int
  mp_ready :: bool
  mp_hostPort :: int
  mp_proxy :: "Proxy option"
  mp_projectedVolumes :: volumes

text \<open>Where a monitor stands: at its ticker, in the backoff before restart \<open>n\<close>, or returned.\<close>

datatype monitor_pc = MWait | MBackoff int | MDone

record 'w LifecycleManager =
  lm_portPool :: PortPool
  lm_pods :: "(string, nat) tbl"
  lm_heap :: "(nat, managedPod) tbl"
  lm_nextAddr :: nat
  lm_monitors :: "(nat, monitor_pc) tbl"
  lm_watchers :: "(int, WatchEvent list) tbl"
  lm_nextWatchID :: int
  lm_resourceVersion :: int
  lm_world :: 'w

text \<open>
  What the manager is given: the host, the registry of engines and the store of config maps and
  secrets, all on the same world.
\<close>

record ('w, 'b) lm_env =
  le_host :: "'w host"
  le_registry :: "'w Registry"
  le_config :: "'b cfg"

definition NewLifecycleManager :: "PortPool \<Rightarrow> 'w \<Rightarrow> 'w LifecycleManager" where
  "NewLifecycleManager portPool w =
     \<lparr>lm_portPool = portPool, lm_pods = [], lm_heap = [], lm_nextAddr = 0, lm_monitors = [],
      lm_watchers = [], lm_nextWatchID = 0, lm_resourceVersion = 0, lm_world = w\<rparr>"

definition podKey :: "string \<Rightarrow> string \<Rightarrow> string" where
  "podKey namespace name = namespace @ ''/'' @ name"

definition pod_key :: "Pod \<Rightarrow> string" where
  "pod_key pod = podKey (om_Namespace (pod_Metadata pod)) (om_Name (pod_Metadata pod))"

definition get_mp :: "'w LifecycleManager \<Rightarrow> nat \<Rightarrow> managedPod option" where
  "get_mp lm addr = tlookup (lm_heap lm) addr"

definition set_mp :: "nat \<Rightarrow> managedPod \<Rightarrow> 'w LifecycleManager \<Rightarrow> 'w LifecycleManager" where
  "set_mp addr mp lm = lm\<lparr>lm_heap := tstore addr mp (lm_heap lm)\<rparr>"

definition load_pod :: "'w LifecycleManager \<Rightarrow> string \<Rightarrow> (nat \<times> managedPod) option" where
  "load_pod lm key =
     (case tlookup (lm_pods lm) key of
        None \<Rightarrow> None
      | Some addr \<Rightarrow> map_option (\<lambda>mp. (addr, mp)) (get_mp lm addr))"

section \<open>Watchers\<close>

definition watchCap :: nat where
  "watchCap = 100"

definition broadcast :: "WatchEvent \<Rightarrow> 'w LifecycleManager \<Rightarrow> 'w LifecycleManager" where
  "broadcast event lm =
     lm\<lparr>lm_watchers := map (\<lambda>(i, ch). (i, chan_send watchCap event ch)) (lm_watchers lm)\<rparr>"

definition Watch :: "'w LifecycleManager \<Rightarrow> int \<times> 'w LifecycleManager" where
  "Watch lm =
     (lm_nextWatchID lm,
      lm\<lparr>lm_nextWatchID := wrap64 (lm_nextWatchID lm + 1),
         lm_watchers := tstore (lm_nextWatchID lm) [] (lm_watchers lm)\<rparr>)"

text \<open>One blocking send of the goroutine of \<open>Watch\<close>: it waits (no step) while the channel is full.\<close>

definition Watch_send :: "int \<Rightarrow> Pod \<Rightarrow> 'w LifecycleManager \<Rightarrow> 'w LifecycleManager option" where
  "Watch_send i pod lm =
     (case tlookup (lm_watchers lm) i of
        None \<Rightarrow> None
      | Some ch \<Rightarrow>
          if length ch < watchCap
          then Some (lm\<lparr>lm_watchers := tstore i (ch @ [\<lparr>we_Type = ''ADDED'', we_Object = pod\<rparr>]) (lm_watchers lm)\<rparr>)
          else None)"

definition Watch_done :: "int \<Rightarrow> 'w LifecycleManager \<Rightarrow> 'w LifecycleManager" where
  "Watch_done i lm = lm\<lparr>lm_watchers := tdelete i (lm_watchers lm)\<rparr>"

text \<open>The next resource version, under \<open>watchMu\<close>.\<close>

definition next_rv :: "'w LifecycleManager \<Rightarrow> string \<times> 'w LifecycleManager" where
  "next_rv lm =
     (let rv = wrap64 (lm_resourceVersion lm + 1)
      in (itoa rv, lm\<lparr>lm_resourceVersion := rv\<rparr>))"

section \<open>Status\<close>

definition LM_Status :: "('w, 'b) lm_env \<Rightarrow> string \<Rightarrow> string \<Rightarrow> 'w LifecycleManager \<Rightarrow> PodStatus option" where
  "LM_Status E namespace name lm =
     (case load_pod lm (podKey namespace name) of
        None \<Rightarrow> None
      | Some (addr, mp) \<Rightarrow>
          (case Registry_Get (le_registry E) (mp_engineType mp) of
             Inl _ \<Rightarrow> Some (zero_PodStatus\<lparr>st_Phase := PodFailed,
               st_Message := ''no engine registered for '' @ h_Quote (le_host E) (mp_engineType mp)\<rparr>)
           | Inr eng \<Rightarrow>
               let phase = eng_Status eng name (lm_world lm);
                   status = zero_PodStatus\<lparr>st_Phase := phase, st_RestartCount := mp_restartCount mp,
                     st_StartTime := st_StartTime (pod_Status (mp_pod mp)),
                     st_HostPort := mp_hostPort mp,
                     st_PodIP := (if mp_hostPort mp > 0 then ''127.0.0.1'' else [])\<rparr>
               in Some (case ps_Containers (pod_Spec (mp_pod mp)) of
                          [] \<Rightarrow> status
                        | c # _ \<Rightarrow> status\<lparr>st_ContainerStatuses :=
                            [\<lparr>cs_Name = c_Name c, cs_Ready = (mp_ready mp \<and> phase = PodRunning),
                              cs_RestartCount = mp_restartCount mp, cs_State = phase,
                              cs_ExitCode = None\<rparr>]\<rparr>)))"

definition status_or_zero :: "PodStatus option \<Rightarrow> PodStatus" where
  "status_or_zero s = (case s of None \<Rightarrow> zero_PodStatus | Some st \<Rightarrow> st)"

definition with_status :: "Pod \<Rightarrow> PodStatus \<Rightarrow> string \<Rightarrow> Pod" where
  "with_status pod status rv =
     pod\<lparr>pod_Status := status, pod_Metadata := (pod_Metadata pod)\<lparr>om_ResourceVersion := rv\<rparr>\<rparr>"

definition updatePodStatus :: "('w, 'b) lm_env \<Rightarrow> managedPod \<Rightarrow> 'w LifecycleManager \<Rightarrow> 'w LifecycleManager" where
  "updatePodStatus E mp lm =
     (let m = pod_Metadata (mp_pod mp);
          status = status_or_zero (LM_Status E (om_Namespace m) (om_Name m) lm);
          (rv, lm1) = next_rv lm
      in broadcast \<lparr>we_Type = ''MODIFIED'', we_Object = with_status (mp_pod mp) status rv\<rparr> lm1)"

definition ListActivePods :: "('w, 'b) lm_env \<Rightarrow> 'w LifecycleManager \<Rightarrow> Pod list" where
  "ListActivePods E lm =
     List.map_filter (\<lambda>(key, addr).
       map_option (\<lambda>mp.
         let m = pod_Metadata (mp_pod mp)
         in (mp_pod mp)\<lparr>pod_Status := status_or_zero (LM_Status E (om_Namespace m) (om_Name m) lm)\<rparr>)
       (get_mp lm addr)) (lm_pods lm)"

definition LM_Logs :: "string \<Rightarrow> string \<Rightarrow> 'w LifecycleManager \<Rightarrow> RingBuffer option" where
  "LM_Logs namespace name lm = map_option (\<lambda>(addr, mp). mp_logBuffer mp) (load_pod lm (podKey namespace name))"

section \<open>Launching\<close>

fun runInitContainers :: "'w host \<Rightarrow> EnvVar list \<Rightarrow> Container list \<Rightarrow> 'w \<Rightarrow> goerror option \<times> 'w" where
  "runInitContainers H env [] w = (None, w)"
| "runInitContainers H env (ic # ics) w =
     (case c_Command ic of
        [] \<Rightarrow> runInitContainers H env ics w
      | prog # cargs \<Rightarrow>
          (case h_RunCmd H prog (cargs @ c_Args ic)
                  (buildOSEnv H env @ map (\<lambda>e. ev_Name e @ ''='' @ ev_Value e) (c_Env ic)) w of
             (Some e, w1) \<Rightarrow> (Some (EInitContainer (c_Name ic) e), w1)
           | (None, w1) \<Rightarrow> runInitContainers H env ics w1))"

definition wants_port :: "Pod \<Rightarrow> bool" where
  "wants_port pod =
     (case ps_Containers (pod_Spec pod) of [] \<Rightarrow> False | c # _ \<Rightarrow> c_Ports c \<noteq> [])"

definition release_if :: "int \<Rightarrow> string \<Rightarrow> 'w LifecycleManager \<Rightarrow> 'w LifecycleManager" where
  "release_if hostPort key lm =
     (if hostPort > 0 then lm\<lparr>lm_portPool := Release key (lm_portPool lm)\<rparr> else lm)"

text \<open>The annotation \<open>lok8s.io/container-port\<close>: 0 without one, an error when it is not a number.\<close>

definition container_port :: "Pod \<Rightarrow> goerror + int" where
  "container_port pod =
     (case mlookup (om_Annotations (pod_Metadata pod)) ''lok8s.io/container-port'' of
        None \<Rightarrow> Inr 0
      | Some val \<Rightarrow> (case Atoi val of None \<Rightarrow> Inl (EContainerPort val) | Some n \<Rightarrow> Inr n))"

text \<open>The clean-up of the error paths once the pod is in the table.\<close>

definition abort_launch :: "('w, 'b) lm_env \<Rightarrow> string \<Rightarrow> Pod \<Rightarrow> int \<Rightarrow> nat \<Rightarrow> 'w LifecycleManager \<Rightarrow> 'w LifecycleManager" where
  "abort_launch E key pod hostPort addr lm =
     (let lm1 = release_if hostPort key lm;
          lm2 = lm1\<lparr>lm_world := CleanupVolumes (le_host E) pod (lm_world lm1)\<rparr>;
          lm3 = lm2\<lparr>lm_pods := tdelete key (lm_pods lm2)\<rparr>
      in case get_mp lm3 addr of
           None \<Rightarrow> lm3
         | Some mp \<Rightarrow> set_mp addr (mp\<lparr>mp_cancelled := True\<rparr>) lm3)"

text \<open>The last part of \<open>Launch\<close>, after the engine has started the pod.\<close>

definition finish_launch :: "('w, 'b) lm_env \<Rightarrow> string \<Rightarrow> Pod \<Rightarrow> int \<Rightarrow> int \<Rightarrow> nat \<Rightarrow> managedPod \<Rightarrow>
    'w LifecycleManager \<Rightarrow> 'w LifecycleManager" where
  "finish_launch E key pod hostPort containerPort addr mp lm =
     (let (proxy, w1) =
            (if hostPort > 0 \<and> containerPort > 0 \<and> hostPort \<noteq> containerPort then
               (case Proxy_Start (le_host E) (NewProxy (loopback hostPort) (loopback containerPort)) (lm_world lm) of
                  (Some _, _, w1) \<Rightarrow> (None, w1)
                | (None, px, w1) \<Rightarrow> (Some px, w1))
             else (None, lm_world lm));
          lm1 = set_mp addr (mp\<lparr>mp_proxy := proxy, mp_ready := True\<rparr>) (lm\<lparr>lm_world := w1\<rparr>);
          (rv, lm2) = next_rv lm1;
          status = (case LM_Status E (om_Namespace (pod_Metadata pod)) (om_Name (pod_Metadata pod)) lm2 of
                      Some st \<Rightarrow> st | None \<Rightarrow> pod_Status pod);
          lm3 = broadcast \<lparr>we_Type = ''ADDED'', we_Object = with_status pod status rv\<rparr> lm2
      in lm3\<lparr>lm_monitors := tstore addr
               (case Registry_Get (le_registry E) (mp_engineType mp) of Inl _ \<Rightarrow> MDone | Inr _ \<Rightarrow> MWait)
               (lm_monitors lm3)\<rparr>)"

text \<open>From the storing of the pod on.\<close>

definition start_launch :: "('w, 'b) lm_env \<Rightarrow> string \<Rightarrow> Pod \<Rightarrow> string \<Rightarrow> string \<Rightarrow> EnvVar list \<Rightarrow> int \<Rightarrow> int \<Rightarrow>
    volumes \<Rightarrow> 'w LifecycleManager \<Rightarrow> goerror option \<times> 'w LifecycleManager" where
  "start_launch E key pod engineType target env hostPort containerPort projected lm =
     (let addr = lm_nextAddr lm;
          prefix = ''['' @ om_Name (pod_Metadata pod) @ ''] '';
          mp = \<lparr>mp_pod = pod, mp_engineType = engineType, mp_target = target, mp_env = env,
                mp_cancelled = False, mp_logBuffer = NewRingBuffer DefaultCapacity,
                mp_stdout = NewPrefixWriter prefix, mp_stderr = NewPrefixWriter prefix,
                mp_restartCount = 0, mp_ready = False, mp_hostPort = hostPort, mp_proxy = None,
                mp_projectedVolumes = projected\<rparr>;
          lm1 = (set_mp addr mp lm)\<lparr>lm_nextAddr := Suc addr, lm_pods := tstore key addr (lm_pods lm)\<rparr>;
          (ierr, w1) = runInitContainers (le_host E) env (ps_InitContainers (pod_Spec pod)) (lm_world lm1);
          lm2 = lm1\<lparr>lm_world := w1\<rparr>
      in case ierr of
           Some e \<Rightarrow> (Some (EInitContainers e), abort_launch E key pod hostPort addr lm2)
         | None \<Rightarrow>
             (case Registry_Get (le_registry E) engineType of
                Inl e \<Rightarrow> (Some e, abort_launch E key pod hostPort addr lm2)
              | Inr eng \<Rightarrow>
                  (case eng_Start eng pod target env projected (lm_world lm2) of
                     (Some e, w2) \<Rightarrow> (Some e, abort_launch E key pod hostPort addr (lm2\<lparr>lm_world := w2\<rparr>))
                   | (None, w2) \<Rightarrow>
                       (None, finish_launch E key pod hostPort containerPort addr mp (lm2\<lparr>lm_world := w2\<rparr>)))))"

text \<open>
  \<open>Launch\<close> changes the pod it is given (its host port and address), which its caller sees: the pod
  is a result too.
\<close>

definition set_host_port :: "int \<Rightarrow> Pod \<Rightarrow> Pod" where
  "set_host_port hostPort pod =
     (if hostPort > 0
      then pod\<lparr>pod_Status := (pod_Status pod)\<lparr>st_HostPort := hostPort, st_PodIP := ''127.0.0.1''\<rparr>\<rparr>
      else pod)"

definition Launch :: "('w, 'b) lm_env \<Rightarrow> Pod \<Rightarrow> string \<Rightarrow> string \<Rightarrow> EnvVar list \<Rightarrow> 'w LifecycleManager \<Rightarrow>
    (goerror option \<times> Pod) \<times> 'w LifecycleManager" where
  "Launch E pod engineType target env lm =
     (let key = pod_key pod
      in if tlookup (lm_pods lm) key \<noteq> None then ((Some (EAlreadyManaged key), pod), lm)
         else
           case (if wants_port pod then Allocate key (lm_portPool lm) else (Inr 0, lm_portPool lm)) of
             (Inl e, pool) \<Rightarrow> ((Some (EAllocPort e), pod), lm\<lparr>lm_portPool := pool\<rparr>)
           | (Inr hostPort, pool) \<Rightarrow>
               let lm1 = lm\<lparr>lm_portPool := pool\<rparr>;
                   env1 = (if hostPort > 0
                           then env @ [\<lparr>ev_Name = ''LOK8S_PORT'', ev_Value = itoa hostPort\<rparr>] else env);
                   pod1 = set_host_port hostPort pod
               in case container_port pod1 of
                    Inl e \<Rightarrow> ((Some e, pod1), release_if hostPort key lm1)
                  | Inr containerPort \<Rightarrow>
                      (case ProjectVolumes (le_host E) (le_config E) pod1 (lm_world lm1) of
                         (Inl e, w1) \<Rightarrow>
                           ((Some (EProjectVolumes e), pod1), release_if hostPort key (lm1\<lparr>lm_world := w1\<rparr>))
                       | (Inr projected, w1) \<Rightarrow>
                           let (r, lm2) = start_launch E key pod1 engineType target env1 hostPort
                                 containerPort projected (lm1\<lparr>lm_world := w1\<rparr>)
                           in ((r, pod1), lm2)))"

section \<open>Terminating\<close>

definition remove_mounts :: "'w host \<Rightarrow> Pod \<Rightarrow> 'w \<Rightarrow> 'w" where
  "remove_mounts H pod w = fold (\<lambda>vm. h_RemoveAll H (vm_MountPath vm)) (first_mounts pod) w"

definition close_proxy :: "'w host \<Rightarrow> managedPod \<Rightarrow> 'w \<Rightarrow> managedPod \<times> 'w" where
  "close_proxy H mp w =
     (case mp_proxy mp of
        None \<Rightarrow> (mp, w)
      | Some px \<Rightarrow> let (px1, w1) = Proxy_Close H px w in (mp\<lparr>mp_proxy := Some px1\<rparr>, w1))"

definition stop_engine :: "('w, 'b) lm_env \<Rightarrow> string \<Rightarrow> string \<Rightarrow> 'w \<Rightarrow> 'w" where
  "stop_engine E engineType name w =
     (case Registry_Get (le_registry E) engineType of
        Inl _ \<Rightarrow> w
      | Inr eng \<Rightarrow> snd (eng_Stop eng name w))"

definition Terminate :: "('w, 'b) lm_env \<Rightarrow> string \<Rightarrow> string \<Rightarrow> 'w LifecycleManager \<Rightarrow>
    goerror option \<times> 'w LifecycleManager" where
  "Terminate E namespace name lm =
     (let key = podKey namespace name
      in case load_pod lm key of
           None \<Rightarrow> (Some (ENotManaged namespace name), lm)
         | Some (addr, mp) \<Rightarrow>
             let status = status_or_zero (LM_Status E namespace name lm);
                 lm1 = lm\<lparr>lm_pods := tdelete key (lm_pods lm)\<rparr>;
                 (mp1, w1) = close_proxy (le_host E) (mp\<lparr>mp_cancelled := True\<rparr>) (lm_world lm1);
                 lm2 = release_if (mp_hostPort mp) key (set_mp addr mp1 lm1);
                 w2 = remove_mounts (le_host E) (mp_pod mp) w1;
                 w3 = CleanupVolumes (le_host E) (mp_pod mp) w2;
                 w4 = stop_engine E (mp_engineType mp) name w3;
                 (rv, lm3) = next_rv (lm2\<lparr>lm_world := w4\<rparr>)
             in (None, broadcast \<lparr>we_Type = ''DELETED'', we_Object = with_status (mp_pod mp) status rv\<rparr> lm3))"

text \<open>The pods are collected first and terminated one by one; errors are ignored.\<close>

definition managed_pods :: "'w LifecycleManager \<Rightarrow> Pod list" where
  "managed_pods lm =
     List.map_filter (\<lambda>(key, addr). map_option mp_pod (get_mp lm addr)) (lm_pods lm)"

definition LM_Shutdown :: "('w, 'b) lm_env \<Rightarrow> 'w LifecycleManager \<Rightarrow> 'w LifecycleManager" where
  "LM_Shutdown E lm =
     fold (\<lambda>pod lm. snd (Terminate E (om_Namespace (pod_Metadata pod)) (om_Name (pod_Metadata pod)) lm))
       (managed_pods lm) lm"

section \<open>Restarting\<close>

definition maxBackoff :: int where
  "maxBackoff = 5 * 60 * second"

definition shouldRestart :: "Pod \<Rightarrow> PodPhase \<Rightarrow> bool" where
  "shouldRestart pod phase =
     (let policy = (if ps_RestartPolicy (pod_Spec pod) = [] then RestartAlways
                    else ps_RestartPolicy (pod_Spec pod))
      in if policy = RestartAlways then True
         else if policy = RestartOnFailure then phase = PodFailed
         else if policy = RestartNever then False
         else False)"

text \<open>
  \<open>10<<uint(restartCount-1)\<close> is a shift of a 64-bit integer: 64 places or more give 0.  The
  conversion to \<open>uint\<close> turns a negative count into a huge one.
\<close>

definition shl64 :: "int \<Rightarrow> int \<Rightarrow> int" where
  "shl64 x n = (if n \<ge> 64 then 0 else wrap64 (x * 2 ^ nat n))"

definition backoffDuration :: "int \<Rightarrow> int" where
  "backoffDuration restartCount =
     (let shift = (restartCount - 1) mod 2 ^ 64;
          d = wrap64 (shl64 10 shift * second)
      in if d > maxBackoff then maxBackoff else d)"

definition set_pc :: "nat \<Rightarrow> monitor_pc \<Rightarrow> 'w LifecycleManager \<Rightarrow> 'w LifecycleManager" where
  "set_pc addr pc lm = lm\<lparr>lm_monitors := tstore addr pc (lm_monitors lm)\<rparr>"

text \<open>The ticker of a monitor fires.\<close>

definition monitor_tick :: "('w, 'b) lm_env \<Rightarrow> nat \<Rightarrow> 'w LifecycleManager \<Rightarrow> 'w LifecycleManager" where
  "monitor_tick E addr lm =
     (case (tlookup (lm_monitors lm) addr, get_mp lm addr) of
        (Some MWait, Some mp) \<Rightarrow>
          (case Registry_Get (le_registry E) (mp_engineType mp) of
             Inl _ \<Rightarrow> lm
           | Inr eng \<Rightarrow>
               let phase = eng_Status eng (om_Name (pod_Metadata (mp_pod mp))) (lm_world lm)
               in if phase \<noteq> PodSucceeded \<and> phase \<noteq> PodFailed then lm
                  else if \<not> shouldRestart (mp_pod mp) phase
                  then set_pc addr MDone (updatePodStatus E mp lm)
                  else let count = wrap64 (mp_restartCount mp + 1);
                           mp1 = mp\<lparr>mp_restartCount := count, mp_ready := False\<rparr>
                       in set_pc addr (MBackoff count) (updatePodStatus E mp1 (set_mp addr mp1 lm)))
      | _ \<Rightarrow> lm)"

text \<open>The backoff is over: the engine starts the pod again.\<close>

definition monitor_restart :: "('w, 'b) lm_env \<Rightarrow> nat \<Rightarrow> 'w LifecycleManager \<Rightarrow> 'w LifecycleManager" where
  "monitor_restart E addr lm =
     (case (tlookup (lm_monitors lm) addr, get_mp lm addr) of
        (Some (MBackoff _), Some mp) \<Rightarrow>
          (case Registry_Get (le_registry E) (mp_engineType mp) of
             Inl _ \<Rightarrow> lm
           | Inr eng \<Rightarrow>
               (case eng_Start eng (mp_pod mp) (mp_target mp) (mp_env mp) (mp_projectedVolumes mp) (lm_world lm) of
                  (Some _, w1) \<Rightarrow> set_pc addr MDone (updatePodStatus E mp (lm\<lparr>lm_world := w1\<rparr>))
                | (None, w1) \<Rightarrow>
                    let mp1 = mp\<lparr>mp_ready := True\<rparr>
                    in set_pc addr MWait (updatePodStatus E mp1 (set_mp addr mp1 (lm\<lparr>lm_world := w1\<rparr>)))))
      | _ \<Rightarrow> lm)"

text \<open>A cancelled context ends the monitor, at the ticker or in the backoff.\<close>

definition monitor_cancelled :: "nat \<Rightarrow> 'w LifecycleManager \<Rightarrow> 'w LifecycleManager" where
  "monitor_cancelled addr lm =
     (case get_mp lm addr of
        Some mp \<Rightarrow> if mp_cancelled mp then set_pc addr MDone lm else lm
      | None \<Rightarrow> lm)"

section \<open>Probes\<close>

definition startProbes :: "managedPod \<Rightarrow> ProbeRunner list" where
  "startProbes mp =
     (case ps_Containers (pod_Spec (mp_pod mp)) of
        [] \<Rightarrow> []
      | c # _ \<Rightarrow>
          (case c_LivenessProbe c of
             None \<Rightarrow> []
           | Some p \<Rightarrow> [NewProbeRunner p (om_Name (pod_Metadata (mp_pod mp))) ''liveness'']) @
          (case c_ReadinessProbe c of
             None \<Rightarrow> []
           | Some p \<Rightarrow> [NewProbeRunner p (om_Name (pod_Metadata (mp_pod mp))) ''readiness'']))"

text \<open>The callbacks: liveness stops the process, readiness sets the flag and reports a change.\<close>

definition liveness_event :: "('w, 'b) lm_env \<Rightarrow> nat \<Rightarrow> probe_event \<Rightarrow> 'w LifecycleManager \<Rightarrow> 'w LifecycleManager" where
  "liveness_event E addr ev lm =
     (case (ev, get_mp lm addr) of
        (ThresholdReached, Some mp) \<Rightarrow>
          lm\<lparr>lm_world := stop_engine E (mp_engineType mp) (om_Name (pod_Metadata (mp_pod mp))) (lm_world lm)\<rparr>
      | _ \<Rightarrow> lm)"

definition readiness_event :: "('w, 'b) lm_env \<Rightarrow> nat \<Rightarrow> probe_event \<Rightarrow> 'w LifecycleManager \<Rightarrow> 'w LifecycleManager" where
  "readiness_event E addr ev lm =
     (case get_mp lm addr of
        None \<Rightarrow> lm
      | Some mp \<Rightarrow>
          let wasReady = mp_ready mp; now = (ev = Recovered);
              mp1 = mp\<lparr>mp_ready := now\<rparr>;
              lm1 = set_mp addr mp1 lm
          in if wasReady \<noteq> now then updatePodStatus E mp1 lm1 else lm1)"

end
