(* ===== verification/Lifecycle_Correct.thy ===== *)
theory Lifecycle_Correct
  imports Lifecycle
begin

text \<open>
  Correctness of the lifecycle manager: what launching, terminating, restarting and shutting down
  do to the managed pods, to the pool of ports and to the watchers, and the invariant of every
  reachable state.
\<close>

section \<open>What the operations leave alone\<close>

named_theorems lm_frame \<open>parts of the manager an operation does not change\<close>

lemma broadcast_frame [lm_frame]:
  "lm_portPool (broadcast ev lm) = lm_portPool lm" "lm_pods (broadcast ev lm) = lm_pods lm"
  "lm_heap (broadcast ev lm) = lm_heap lm" "lm_nextAddr (broadcast ev lm) = lm_nextAddr lm"
  "lm_monitors (broadcast ev lm) = lm_monitors lm" "lm_world (broadcast ev lm) = lm_world lm"
  "lm_resourceVersion (broadcast ev lm) = lm_resourceVersion lm"
  by (simp_all add: broadcast_def)

lemma next_rv_frame [lm_frame]:
  "lm_portPool (snd (next_rv lm)) = lm_portPool lm" "lm_pods (snd (next_rv lm)) = lm_pods lm"
  "lm_heap (snd (next_rv lm)) = lm_heap lm" "lm_nextAddr (snd (next_rv lm)) = lm_nextAddr lm"
  "lm_monitors (snd (next_rv lm)) = lm_monitors lm" "lm_world (snd (next_rv lm)) = lm_world lm"
  "lm_watchers (snd (next_rv lm)) = lm_watchers lm"
  by (simp_all add: next_rv_def Let_def)

lemma updatePodStatus_frame [lm_frame]:
  "lm_portPool (updatePodStatus E mp lm) = lm_portPool lm" "lm_pods (updatePodStatus E mp lm) = lm_pods lm"
  "lm_heap (updatePodStatus E mp lm) = lm_heap lm" "lm_nextAddr (updatePodStatus E mp lm) = lm_nextAddr lm"
  "lm_monitors (updatePodStatus E mp lm) = lm_monitors lm" "lm_world (updatePodStatus E mp lm) = lm_world lm"
  by (simp_all add: updatePodStatus_def Let_def case_prod_beta lm_frame)

lemma set_pc_frame [lm_frame]:
  "lm_portPool (set_pc a pc lm) = lm_portPool lm" "lm_pods (set_pc a pc lm) = lm_pods lm"
  "lm_heap (set_pc a pc lm) = lm_heap lm" "lm_nextAddr (set_pc a pc lm) = lm_nextAddr lm"
  "lm_world (set_pc a pc lm) = lm_world lm" "lm_watchers (set_pc a pc lm) = lm_watchers lm"
  by (simp_all add: set_pc_def)

lemma set_mp_frame [lm_frame]:
  "lm_portPool (set_mp a mp lm) = lm_portPool lm" "lm_pods (set_mp a mp lm) = lm_pods lm"
  "lm_nextAddr (set_mp a mp lm) = lm_nextAddr lm" "lm_monitors (set_mp a mp lm) = lm_monitors lm"
  "lm_world (set_mp a mp lm) = lm_world lm" "lm_watchers (set_mp a mp lm) = lm_watchers lm"
  "lm_resourceVersion (set_mp a mp lm) = lm_resourceVersion lm"
  by (simp_all add: set_mp_def)

lemma release_if_frame [lm_frame]:
  "lm_pods (release_if p k lm) = lm_pods lm" "lm_heap (release_if p k lm) = lm_heap lm"
  "lm_nextAddr (release_if p k lm) = lm_nextAddr lm" "lm_monitors (release_if p k lm) = lm_monitors lm"
  "lm_world (release_if p k lm) = lm_world lm" "lm_watchers (release_if p k lm) = lm_watchers lm"
  "lm_resourceVersion (release_if p k lm) = lm_resourceVersion lm"
  "lm_portPool (release_if p k lm) = (if p > 0 then Release k (lm_portPool lm) else lm_portPool lm)"
  by (simp_all add: release_if_def)

lemma get_set_mp [simp]: "get_mp (set_mp a mp lm) b = (if b = a then Some mp else get_mp lm b)"
  by (simp add: get_mp_def set_mp_def)

lemma get_mp_frame [simp]:
  "get_mp (lm\<lparr>lm_portPool := pool\<rparr>) a = get_mp lm a" "get_mp (lm\<lparr>lm_world := w\<rparr>) a = get_mp lm a"
  by (simp_all add: get_mp_def)

lemma get_mp_cong: "lm_heap lm = lm_heap lm' \<Longrightarrow> get_mp lm a = get_mp lm' a"
  by (simp add: get_mp_def)

section \<open>The invariant\<close>

text \<open>
  A managed pod is recorded under its own key, at an address below the next free one; the pool
  holds its port, if it has one, in its name; and ports are positive numbers.
\<close>

definition mp_inv :: "PortPool \<Rightarrow> string \<Rightarrow> managedPod \<Rightarrow> bool" where
  "mp_inv pool key mp \<longleftrightarrow> pod_key (mp_pod mp) = key \<and>
     (mp_hostPort mp > 0 \<longrightarrow> pp_holds pool key = Some (mp_hostPort mp))"

definition lm_inv :: "'w LifecycleManager \<Rightarrow> bool" where
  "lm_inv lm \<longleftrightarrow> pp_inv (lm_portPool lm) \<and> pp_in_range (lm_portPool lm) \<and> 0 < pp_minPort (lm_portPool lm) \<and>
     tdistinct (lm_pods lm) \<and>
     (\<forall>a mp. get_mp lm a = Some mp \<longrightarrow> a < lm_nextAddr lm) \<and>
     (\<forall>key a. tlookup (lm_pods lm) key = Some a \<longrightarrow>
        (\<exists>mp. get_mp lm a = Some mp \<and> mp_inv (lm_portPool lm) key mp))"

lemma lm_inv_cong:
  assumes "lm_portPool lm' = lm_portPool lm" "lm_pods lm' = lm_pods lm" "lm_heap lm' = lm_heap lm"
    "lm_nextAddr lm' = lm_nextAddr lm"
  shows "lm_inv lm' = lm_inv lm"
  using assms by (simp add: lm_inv_def get_mp_def)

lemma lm_invD:
  assumes "lm_inv lm" "tlookup (lm_pods lm) key = Some a"
  obtains mp where "get_mp lm a = Some mp" "mp_inv (lm_portPool lm) key mp" "load_pod lm key = Some (a, mp)"
  using assms unfolding lm_inv_def load_pod_def by fastforce

lemma mp_inv_cong:
  "mp_pod mp' = mp_pod mp \<Longrightarrow> mp_hostPort mp' = mp_hostPort mp \<Longrightarrow> mp_inv pool key mp' = mp_inv pool key mp"
  by (simp add: mp_inv_def)

lemma lm_inv_set_mp:
  assumes "lm_inv lm" "get_mp lm a = Some mp" "mp_pod mp' = mp_pod mp" "mp_hostPort mp' = mp_hostPort mp"
  shows "lm_inv (set_mp a mp' lm)"
proof -
  have "\<exists>m. get_mp (set_mp a mp' lm) b = Some m \<and> mp_inv (lm_portPool lm) key m"
    if "tlookup (lm_pods lm) key = Some b" for key b
    by (rule lm_invD [OF assms(1) that]) (use assms(2) mp_inv_cong [OF assms(3,4)] in auto)
  then show ?thesis using assms(1,2) unfolding lm_inv_def by (auto simp: lm_frame)
qed

lemma lm_inv_new: "0 < lo \<Longrightarrow> lm_inv (NewLifecycleManager (NewPortPool lo hi) w)"
  by (simp add: lm_inv_def NewLifecycleManager_def get_mp_def) (simp add: NewPortPool_def)

lemma Release_minPort [simp]: "pp_minPort (Release k p) = pp_minPort p"
  by (simp add: Release_def split: option.splits)

lemma Allocate_minPort: "Allocate k p = (r, p') \<Longrightarrow> pp_minPort p' = pp_minPort p"
  by (erule Allocate_cases) auto

lemma Release_holds [simp]: "pp_holds (Release k p) = (pp_holds p)(k := None)"
  by (auto simp: Release_def pp_holds_def fun_eq_iff split: option.splits)

text \<open>Removing a pod together with its port.\<close>

lemma lm_inv_remove:
  assumes "lm_inv lm" "lm_portPool lm' = (if p > 0 then Release key (lm_portPool lm) else lm_portPool lm)"
    and "lm_pods lm' = tdelete key (lm_pods lm)" "lm_nextAddr lm' = lm_nextAddr lm"
    and "\<forall>a mp'. get_mp lm' a = Some mp' \<longrightarrow> (\<exists>mp. get_mp lm a = Some mp \<and> mp_pod mp' = mp_pod mp \<and>
        mp_hostPort mp' = mp_hostPort mp)"
    and "\<forall>a mp. get_mp lm a = Some mp \<longrightarrow> (\<exists>mp'. get_mp lm' a = Some mp')"
  shows "lm_inv lm'"
proof -
  have "\<exists>mp'. get_mp lm' a = Some mp' \<and> mp_inv (lm_portPool lm') k mp'"
    if "tlookup (lm_pods lm') k = Some a" for k a
  proof -
    from that assms(3) have k: "k \<noteq> key" "tlookup (lm_pods lm) k = Some a" by (auto split: if_splits)
    then obtain mp where mp: "get_mp lm a = Some mp" "mp_inv (lm_portPool lm) k mp"
      using assms(1) unfolding lm_inv_def by blast
    then obtain mp' where mp': "get_mp lm' a = Some mp'" using assms(6) by blast
    then have "mp_pod mp' = mp_pod mp" "mp_hostPort mp' = mp_hostPort mp" using assms(5) mp(1) by fastforce+
    then show ?thesis using assms(2) mp mp' k(1) by (simp add: mp_inv_def)
  qed
  moreover have "a < lm_nextAddr lm'" if "get_mp lm' a = Some mp" for a mp
    using that assms(1,4,5) unfolding lm_inv_def by metis
  ultimately show ?thesis
    using assms(1-3) unfolding lm_inv_def by (auto intro: pp_inv_Release pp_in_range_Release)
qed

section \<open>Launching\<close>

text \<open>The managed pod that \<open>start_launch\<close> stores.\<close>

definition launched :: "managedPod \<Rightarrow> Pod \<Rightarrow> string \<Rightarrow> string \<Rightarrow> EnvVar list \<Rightarrow> int \<Rightarrow> volumes \<Rightarrow> bool" where
  "launched mp pod engineType target env hostPort projected \<longleftrightarrow>
     mp_pod mp = pod \<and> mp_engineType mp = engineType \<and> mp_target mp = target \<and> mp_env mp = env \<and>
     \<not> mp_cancelled mp \<and> mp_restartCount mp = 0 \<and> mp_ready mp \<and> mp_hostPort mp = hostPort \<and>
     mp_projectedVolumes mp = projected"

lemma abort_launch_frame:
  assumes "abort_launch E key pod hostPort addr lm = lm'"
  shows "lm_pods lm' = tdelete key (lm_pods lm)" "lm_nextAddr lm' = lm_nextAddr lm"
    "lm_portPool lm' = (if hostPort > 0 then Release key (lm_portPool lm) else lm_portPool lm)"
    "lm_watchers lm' = lm_watchers lm" "lm_resourceVersion lm' = lm_resourceVersion lm"
    "lm_monitors lm' = lm_monitors lm"
    "b \<noteq> addr \<Longrightarrow> get_mp lm' b = get_mp lm b"
    "get_mp lm addr = Some mp \<Longrightarrow> get_mp lm' addr = Some (mp\<lparr>mp_cancelled := True\<rparr>)"
  unfolding assms [symmetric] abort_launch_def
  by (simp_all add: Let_def lm_frame get_mp_def set_mp_def split: option.splits)

text \<open>The watchers after an event: each channel that is not full has it at its end.\<close>

definition told :: "WatchEvent \<Rightarrow> (int, WatchEvent list) tbl \<Rightarrow> (int, WatchEvent list) tbl" where
  "told event watchers = map (\<lambda>(i, ch). (i, chan_send watchCap event ch)) watchers"

lemma told_lookup: "tlookup (told event ws) i = map_option (chan_send watchCap event) (tlookup ws i)"
  by (induction ws) (auto simp: told_def)

lemma broadcast_told: "lm_watchers (broadcast event lm) = told event (lm_watchers lm)"
  by (simp add: broadcast_def told_def)

text \<open>The event that \<open>finish_launch\<close> sends, and the state it leaves.\<close>

lemma finish_launch_frame:
  assumes "finish_launch E key pod hostPort containerPort addr mp lm = lm'"
  shows "lm_pods lm' = lm_pods lm" "lm_nextAddr lm' = lm_nextAddr lm" "lm_portPool lm' = lm_portPool lm"
    "b \<noteq> addr \<Longrightarrow> get_mp lm' b = get_mp lm b"
    "\<exists>proxy. get_mp lm' addr = Some (mp\<lparr>mp_proxy := proxy, mp_ready := True\<rparr>)"
    "lm_resourceVersion lm' = wrap64 (lm_resourceVersion lm + 1)"
    "\<exists>status. lm_watchers lm' = told \<lparr>we_Type = ''ADDED'',
        we_Object = with_status pod status (itoa (wrap64 (lm_resourceVersion lm + 1)))\<rparr> (lm_watchers lm)"
  unfolding assms [symmetric] finish_launch_def
  by (simp_all add: Let_def case_prod_beta lm_frame get_mp_def set_mp_def next_rv_def broadcast_def told_def) blast+

lemma start_launch_ok:
  assumes "start_launch E key pod engineType target env hostPort containerPort projected lm = (None, lm')"
  obtains mp status where "lm_pods lm' = tstore key (lm_nextAddr lm) (lm_pods lm)"
    "lm_nextAddr lm' = Suc (lm_nextAddr lm)" "lm_portPool lm' = lm_portPool lm"
    "get_mp lm' (lm_nextAddr lm) = Some mp" "launched mp pod engineType target env hostPort projected"
    "\<And>b. b \<noteq> lm_nextAddr lm \<Longrightarrow> get_mp lm' b = get_mp lm b"
    "lm_watchers lm' = told \<lparr>we_Type = ''ADDED'',
        we_Object = with_status pod status (itoa (wrap64 (lm_resourceVersion lm + 1)))\<rparr> (lm_watchers lm)"
    "lm_resourceVersion lm' = wrap64 (lm_resourceVersion lm + 1)"
proof -
  let ?a = "lm_nextAddr lm"
  let ?p = "''['' @ om_Name (pod_Metadata pod) @ ''] ''"
  let ?mp = "\<lparr>mp_pod = pod, mp_engineType = engineType, mp_target = target, mp_env = env,
    mp_cancelled = False, mp_logBuffer = NewRingBuffer DefaultCapacity,
    mp_stdout = NewPrefixWriter ?p, mp_stderr = NewPrefixWriter ?p,
    mp_restartCount = 0, mp_ready = False, mp_hostPort = hostPort, mp_proxy = None,
    mp_projectedVolumes = projected\<rparr>"
  obtain w2 where fin: "finish_launch E key pod hostPort containerPort ?a ?mp
      ((set_mp ?a ?mp lm)\<lparr>lm_nextAddr := Suc ?a, lm_pods := tstore key ?a (lm_pods lm), lm_world := w2\<rparr>) = lm'"
    using assms
    by (auto simp: start_launch_def Let_def case_prod_beta split: option.splits sum.splits prod.splits)
  note fr = finish_launch_frame [OF fin]
  obtain proxy where proxy: "get_mp lm' ?a = Some (?mp\<lparr>mp_proxy := proxy, mp_ready := True\<rparr>)"
    using fr(5) by blast
  obtain status where status: "lm_watchers lm' = told \<lparr>we_Type = ''ADDED'',
        we_Object = with_status pod status (itoa (wrap64 (lm_resourceVersion lm + 1)))\<rparr> (lm_watchers lm)" using fr(7) by (auto simp: lm_frame)
  show thesis
  proof (rule that)
    show "launched (?mp\<lparr>mp_proxy := proxy, mp_ready := True\<rparr>) pod engineType target env hostPort projected"
      by (simp add: launched_def)
    show "get_mp lm' b = get_mp lm b" if "b \<noteq> ?a" for b
      using fr(4) [OF that] that by (simp add: get_mp_def set_mp_def)
    show "lm_watchers lm' = told \<lparr>we_Type = ''ADDED'',
        we_Object = with_status pod status (itoa (wrap64 (lm_resourceVersion lm + 1)))\<rparr> (lm_watchers lm)"
      by (rule status)
  qed (use fr(1-3,6) proxy in \<open>simp_all add: lm_frame\<close>)
qed

lemma start_launch_err:
  assumes "start_launch E key pod engineType target env hostPort containerPort projected lm = (Some e, lm')"
  shows "lm_pods lm' = tdelete key (tstore key (lm_nextAddr lm) (lm_pods lm))"
    "lm_nextAddr lm' = Suc (lm_nextAddr lm)"
    "lm_portPool lm' = (if hostPort > 0 then Release key (lm_portPool lm) else lm_portPool lm)"
    "b \<noteq> lm_nextAddr lm \<Longrightarrow> get_mp lm' b = get_mp lm b"
    "lm_watchers lm' = lm_watchers lm" "lm_resourceVersion lm' = lm_resourceVersion lm"
    "lm_monitors lm' = lm_monitors lm"
proof -
  obtain lm2 where ab: "abort_launch E key pod hostPort (lm_nextAddr lm) lm2 = lm'"
    and lm2: "lm_pods lm2 = tstore key (lm_nextAddr lm) (lm_pods lm)" "lm_nextAddr lm2 = Suc (lm_nextAddr lm)"
      "lm_portPool lm2 = lm_portPool lm" "lm_watchers lm2 = lm_watchers lm"
      "lm_resourceVersion lm2 = lm_resourceVersion lm" "lm_monitors lm2 = lm_monitors lm"
      "\<And>b. b \<noteq> lm_nextAddr lm \<Longrightarrow> get_mp lm2 b = get_mp lm b"
    using assms that
    by (auto simp: start_launch_def Let_def case_prod_beta lm_frame get_mp_def set_mp_def
        split: option.splits sum.splits prod.splits)
  note fr = abort_launch_frame [OF ab]
  show "lm_pods lm' = tdelete key (tstore key (lm_nextAddr lm) (lm_pods lm))"
    "lm_nextAddr lm' = Suc (lm_nextAddr lm)"
    "lm_portPool lm' = (if hostPort > 0 then Release key (lm_portPool lm) else lm_portPool lm)"
    "b \<noteq> lm_nextAddr lm \<Longrightarrow> get_mp lm' b = get_mp lm b"
    "lm_watchers lm' = lm_watchers lm" "lm_resourceVersion lm' = lm_resourceVersion lm"
    "lm_monitors lm' = lm_monitors lm"
    using fr(1-7) lm2 by simp_all
qed

text \<open>The ways \<open>Launch\<close> goes.  The first three leave the table of pods alone.\<close>

lemma Launch_cases:
  assumes "Launch E pod engineType target env lm = ((r, pod'), lm')"
  obtains (managed) "tlookup (lm_pods lm) (pod_key pod) \<noteq> None" "r = Some (EAlreadyManaged (pod_key pod))" "lm' = lm"
  | (no_port) e where "tlookup (lm_pods lm) (pod_key pod) = None" "wants_port pod"
      "Allocate (pod_key pod) (lm_portPool lm) = (Inl e, lm_portPool lm')" "r = Some (EAllocPort e)"
      "lm' = lm\<lparr>lm_portPool := lm_portPool lm'\<rparr>"
  | (early) hostPort pool e w where "tlookup (lm_pods lm) (pod_key pod) = None"
      "(if wants_port pod then Allocate (pod_key pod) (lm_portPool lm) else (Inr 0, lm_portPool lm)) = (Inr hostPort, pool)"
      "r = Some e" "lm' = release_if hostPort (pod_key pod) (lm\<lparr>lm_portPool := pool, lm_world := w\<rparr>)"
  | (started) hostPort pool containerPort projected w where "tlookup (lm_pods lm) (pod_key pod) = None"
      "(if wants_port pod then Allocate (pod_key pod) (lm_portPool lm) else (Inr 0, lm_portPool lm)) = (Inr hostPort, pool)"
      "pod' = set_host_port hostPort pod"
      "start_launch E (pod_key pod) (set_host_port hostPort pod) engineType target
         (if hostPort > 0 then env @ [\<lparr>ev_Name = ''LOK8S_PORT'', ev_Value = itoa hostPort\<rparr>] else env)
         hostPort containerPort projected (lm\<lparr>lm_portPool := pool, lm_world := w\<rparr>) = (r, lm')"
proof (cases "tlookup (lm_pods lm) (pod_key pod) = None")
  case False
  then have "Launch E pod engineType target env lm = ((Some (EAlreadyManaged (pod_key pod)), pod), lm)"
    unfolding Launch_def Let_def by (simp only: if_True if_False not_True_eq_False False simp_thms)
  then show ?thesis using managed False assms by simp
next
  case True
  obtain a pool where a: "(if wants_port pod then Allocate (pod_key pod) (lm_portPool lm)
      else (Inr 0, lm_portPool lm)) = (a, pool)" by (meson surj_pair)
  show ?thesis
  proof (cases a)
    case (Inl e)
    then have "wants_port pod" using a by (auto split: if_splits)
    then show ?thesis using assms True a Inl no_port [of e] by (auto simp: Launch_def Let_def)
  next
    case (Inr hostPort)
    let ?pod = "set_host_port hostPort pod"
    show ?thesis
    proof (cases "container_port ?pod")
      case (Inl e)
      then show ?thesis using assms True a Inr early [of hostPort pool e "lm_world lm"]
        by (auto simp: Launch_def Let_def)
    next
      case (Inr containerPort)
      obtain v w where v: "ProjectVolumes (le_host E) (le_config E) ?pod (lm_world lm) = (v, w)"
        by (meson surj_pair)
      show ?thesis
      proof (cases v)
        case (Inl e)
        then show ?thesis using assms True a \<open>a = Inr hostPort\<close> Inr v early [of hostPort pool _ w]
          by (auto simp: Launch_def Let_def)
      next
        case (Inr projected)
        then show ?thesis using assms True a \<open>a = Inr hostPort\<close> \<open>container_port ?pod = Inr containerPort\<close> v
            started [of hostPort pool containerPort projected w]
          by (auto simp: Launch_def Let_def split: prod.splits)
      qed
    qed
  qed
qed

lemma port_choice:
  assumes "lm_inv lm" "pp_holds (lm_portPool lm) key = None"
    and "(if w then Allocate key (lm_portPool lm) else (Inr 0, lm_portPool lm)) = (Inr hostPort, pool)"
  shows "(hostPort > 0) = w" "pp_inv pool" "pp_in_range pool" "0 < pp_minPort pool"
    "pp_holds pool = (if w then (pp_holds (lm_portPool lm))(key \<mapsto> hostPort) else pp_holds (lm_portPool lm))"
proof -
  have "pp_inv pool \<and> pp_in_range pool \<and> 0 < pp_minPort pool \<and> (hostPort > 0) = w \<and>
    pp_holds pool = (if w then (pp_holds (lm_portPool lm))(key \<mapsto> hostPort) else pp_holds (lm_portPool lm))"
  proof (cases w)
    case True
    then have al: "Allocate key (lm_portPool lm) = (Inr hostPort, pool)" using assms(3) by simp
    have i: "pp_inv (lm_portPool lm)" "pp_in_range (lm_portPool lm)" "0 < pp_minPort (lm_portPool lm)"
      using assms(1) by (simp_all add: lm_inv_def)
    have h: "pp_holds pool = (pp_holds (lm_portPool lm))(key \<mapsto> hostPort)"
      by (rule pp_holds_Allocate [OF al assms(2)])
    have inv: "pp_inv pool" "pp_in_range pool" "pp_minPort pool = pp_minPort (lm_portPool lm)"
      using pp_inv_Allocate [OF i(1) al] pp_in_range_Allocate [OF i(2) al] Allocate_minPort [OF al] by auto
    have "tlookup (pp_usedPorts pool) hostPort = Some key"
      using h inv(1) by (simp add: pp_inv_iff [symmetric] pp_holds_def fun_eq_iff)
    then have "pp_minPort pool \<le> hostPort" using inv(2) by (simp add: pp_in_range_def)
    then show ?thesis using True h inv i(3) by simp
  qed (use assms in \<open>simp add: lm_inv_def\<close>)
  then show "(hostPort > 0) = w" "pp_inv pool" "pp_in_range pool" "0 < pp_minPort pool"
    "pp_holds pool = (if w then (pp_holds (lm_portPool lm))(key \<mapsto> hostPort) else pp_holds (lm_portPool lm))"
    by auto
qed

lemma pod_key_set_host_port [simp]: "pod_key (set_host_port p pod) = pod_key pod"
  by (simp add: set_host_port_def pod_key_def)

text \<open>A new pod under a key that is free.\<close>

lemma lm_inv_add:
  assumes "lm_inv lm" "tlookup (lm_pods lm) key = None"
    and pool: "pp_inv (lm_portPool lm')" "pp_in_range (lm_portPool lm')" "0 < pp_minPort (lm_portPool lm')"
    and frame: "\<And>k. k \<noteq> key \<Longrightarrow> pp_holds (lm_portPool lm') k = pp_holds (lm_portPool lm) k"
    and new: "lm_pods lm' = tstore key (lm_nextAddr lm) (lm_pods lm)"
      "lm_nextAddr lm' = Suc (lm_nextAddr lm)" "get_mp lm' (lm_nextAddr lm) = Some mp"
      "mp_inv (lm_portPool lm') key mp"
    and heap: "\<And>b. b \<noteq> lm_nextAddr lm \<Longrightarrow> get_mp lm' b = get_mp lm b"
  shows "lm_inv lm'"
proof -
  have addr: "a < lm_nextAddr lm" if "get_mp lm a = Some m" for a m
    using assms(1) that by (auto simp: lm_inv_def)
  have "\<exists>m. get_mp lm' a = Some m \<and> mp_inv (lm_portPool lm') k m"
    if k: "tlookup (lm_pods lm') k = Some a" for k a
  proof (cases "k = key")
    case True
    then show ?thesis using k new by simp
  next
    case False
    then have "tlookup (lm_pods lm) k = Some a" using k new(1) by simp
    then obtain m where m: "get_mp lm a = Some m" "mp_inv (lm_portPool lm) k m"
      by (rule lm_invD [OF assms(1)])
    then have "get_mp lm' a = Some m" using heap addr by force
    then show ?thesis using m(2) frame [OF False] by (simp add: mp_inv_def)
  qed
  moreover have "a < lm_nextAddr lm'" if "get_mp lm' a = Some m" for a m
    using that heap addr new(2) by (cases "a = lm_nextAddr lm") (force simp: less_SucI)+
  ultimately show ?thesis using assms(1) pool new(1) unfolding lm_inv_def by simp
qed

lemma lm_inv_same_pods:
  assumes "lm_inv lm" "\<And>k. tlookup (lm_pods lm') k = tlookup (lm_pods lm) k" "tdistinct (lm_pods lm')"
    "pp_inv (lm_portPool lm')" "pp_in_range (lm_portPool lm')" "0 < pp_minPort (lm_portPool lm')"
    "pp_holds (lm_portPool lm') = pp_holds (lm_portPool lm)"
    "\<And>a. a < lm_nextAddr lm \<Longrightarrow> get_mp lm' a = get_mp lm a" "\<And>a m. get_mp lm' a = Some m \<Longrightarrow> a < lm_nextAddr lm'"
  shows "lm_inv lm'"
proof -
  have "\<exists>m. get_mp lm' a = Some m \<and> mp_inv (lm_portPool lm') k m"
    if k: "tlookup (lm_pods lm') k = Some a" for k a
  proof (rule lm_invD [OF assms(1), of k a])
    show "tlookup (lm_pods lm) k = Some a" using k assms(2) by simp
    fix m assume m: "get_mp lm a = Some m" "mp_inv (lm_portPool lm) k m"
    then have "a < lm_nextAddr lm" using assms(1) unfolding lm_inv_def by blast
    then show ?thesis using m assms(7,8) by (simp add: mp_inv_def)
  qed
  then show ?thesis using assms unfolding lm_inv_def by blast
qed

lemma Launch_err:
  assumes "lm_inv lm" "pp_holds (lm_portPool lm) (pod_key pod) = None"
    and "Launch E pod engineType target env lm = ((Some e, pod'), lm')"
  shows "tlookup (lm_pods lm') k = tlookup (lm_pods lm) k"
    "pp_holds (lm_portPool lm') = pp_holds (lm_portPool lm)"
    "a < lm_nextAddr lm \<Longrightarrow> get_mp lm' a = get_mp lm a" "lm_inv lm'"
    "lm_watchers lm' = lm_watchers lm" "lm_resourceVersion lm' = lm_resourceVersion lm"
    "lm_monitors lm' = lm_monitors lm"
proof -
  have inv: "pp_inv (lm_portPool lm)" "pp_in_range (lm_portPool lm)" "0 < pp_minPort (lm_portPool lm)"
      "tdistinct (lm_pods lm)" "\<And>a m. get_mp lm a = Some m \<Longrightarrow> a < lm_nextAddr lm"
    using assms(1) by (auto simp: lm_inv_def)
  have "(\<forall>k. tlookup (lm_pods lm') k = tlookup (lm_pods lm) k) \<and>
    pp_holds (lm_portPool lm') = pp_holds (lm_portPool lm) \<and>
    (\<forall>a < lm_nextAddr lm. get_mp lm' a = get_mp lm a) \<and> lm_inv lm' \<and>
    lm_watchers lm' = lm_watchers lm \<and> lm_resourceVersion lm' = lm_resourceVersion lm \<and>
    lm_monitors lm' = lm_monitors lm"
    using assms(3)
  proof (cases rule: Launch_cases)
    case managed
    then show ?thesis using assms(1) by simp
  next
    case (no_port err)
    from no_port(3) have "lm_portPool lm' = lm_portPool lm"
      using assms(2) by (auto elim: Allocate_cases)
    then have "lm' = lm" using no_port(5) by simp
    then show ?thesis using assms(1) by simp
  next
    case (early hostPort pool err w)
    note pc = port_choice [OF assms(1,2) early(2)]
    have l: "lm_pods lm' = lm_pods lm" "lm_heap lm' = lm_heap lm" "lm_nextAddr lm' = lm_nextAddr lm"
      "lm_watchers lm' = lm_watchers lm" "lm_resourceVersion lm' = lm_resourceVersion lm"
      "lm_monitors lm' = lm_monitors lm"
      "lm_portPool lm' = (if hostPort > 0 then Release (pod_key pod) pool else pool)"
      by (simp_all add: early(4) lm_frame)
    have h: "pp_holds (lm_portPool lm') = pp_holds (lm_portPool lm)"
      using pc(1,5) assms(2) by (simp add: l(7)) auto
    have "lm_inv lm'"
      by (rule lm_inv_same_pods [OF assms(1)])
        (use l h pc inv in \<open>auto simp: get_mp_def intro: pp_inv_Release pp_in_range_Release\<close>)
    then show ?thesis using l h by (simp add: get_mp_def)
  next
    case (started hostPort pool containerPort projected w)
    note pc = port_choice [OF assms(1,2) started(2)]
    note er = start_launch_err [OF started(4), simplified]
    have h: "pp_holds (lm_portPool lm') = pp_holds (lm_portPool lm)"
      using pc(1,5) assms(2) by (simp add: er(3)) auto
    have t: "tlookup (lm_pods lm') k = tlookup (lm_pods lm) k" for k
      using started(1) by (simp add: er(1))
    have g: "get_mp lm' b = get_mp lm b" if "b < lm_nextAddr lm" for b
      using er(4) [of b] that by (simp add: get_mp_def)
    have "lm_inv lm'"
    proof (rule lm_inv_same_pods [OF assms(1) t])
      fix a m assume "get_mp lm' a = Some m"
      then show "a < lm_nextAddr lm'"
        using er(2) er(4) [of a] inv(5) [of a m] by (cases "a = lm_nextAddr lm") (auto simp: get_mp_def)
    qed (use er pc h inv g in \<open>auto intro: pp_inv_Release pp_in_range_Release\<close>)
    then show ?thesis using t h g er by simp
  qed
  then show "tlookup (lm_pods lm') k = tlookup (lm_pods lm) k"
    "pp_holds (lm_portPool lm') = pp_holds (lm_portPool lm)"
    "a < lm_nextAddr lm \<Longrightarrow> get_mp lm' a = get_mp lm a" "lm_inv lm'"
    "lm_watchers lm' = lm_watchers lm" "lm_resourceVersion lm' = lm_resourceVersion lm"
    "lm_monitors lm' = lm_monitors lm" by blast+
qed

text \<open>A launch that succeeds.\<close>

lemma Launch_ok:
  assumes "lm_inv lm" "pp_holds (lm_portPool lm) (pod_key pod) = None"
    and "Launch E pod engineType target env lm = ((None, pod'), lm')"
  obtains hostPort projected mp status where "tlookup (lm_pods lm) (pod_key pod) = None"
    "(hostPort > 0) = wants_port pod" "pod' = set_host_port hostPort pod"
    "load_pod lm' (pod_key pod) = Some (lm_nextAddr lm, mp)"
    "launched mp pod' engineType target
       (if hostPort > 0 then env @ [\<lparr>ev_Name = ''LOK8S_PORT'', ev_Value = itoa hostPort\<rparr>] else env)
       hostPort projected"
    "\<And>k. k \<noteq> pod_key pod \<Longrightarrow> tlookup (lm_pods lm') k = tlookup (lm_pods lm) k"
    "\<And>k. k \<noteq> pod_key pod \<Longrightarrow> load_pod lm' k = load_pod lm k"
    "pp_holds (lm_portPool lm') =
       (if wants_port pod then (pp_holds (lm_portPool lm))(pod_key pod \<mapsto> hostPort) else pp_holds (lm_portPool lm))"
    "lm_watchers lm' = told \<lparr>we_Type = ''ADDED'',
       we_Object = with_status pod' status (itoa (wrap64 (lm_resourceVersion lm + 1)))\<rparr> (lm_watchers lm)"
    "lm_inv lm'"
  using assms(3)
proof (cases rule: Launch_cases)
  case (started hostPort pool containerPort projected w)
  note pc = port_choice [OF assms(1,2) started(2)]
  obtain mp status where ok: "lm_pods lm' = tstore (pod_key pod) (lm_nextAddr lm) (lm_pods lm)"
    "lm_nextAddr lm' = Suc (lm_nextAddr lm)" "lm_portPool lm' = pool"
    "get_mp lm' (lm_nextAddr lm) = Some mp"
    "launched mp (set_host_port hostPort pod) engineType target
       (if hostPort > 0 then env @ [\<lparr>ev_Name = ''LOK8S_PORT'', ev_Value = itoa hostPort\<rparr>] else env)
       hostPort projected"
    "\<And>b. b \<noteq> lm_nextAddr lm \<Longrightarrow> get_mp lm' b = get_mp lm b"
    "lm_watchers lm' = told \<lparr>we_Type = ''ADDED'', we_Object =
       with_status (set_host_port hostPort pod) status (itoa (wrap64 (lm_resourceVersion lm + 1)))\<rparr> (lm_watchers lm)"
    by (rule start_launch_ok [OF started(4)], rule that) simp_all
  have m: "mp_inv (lm_portPool lm') (pod_key pod) mp"
    using ok(5) pc(1,5) by (auto simp: mp_inv_def launched_def ok(3))
  have inv: "lm_inv lm'"
    by (rule lm_inv_add [OF assms(1) started(1) _ _ _ _ ok(1,2,4) m ok(6)]) (use pc in \<open>auto simp: ok(3)\<close>)
  have "load_pod lm' k = load_pod lm k" if "k \<noteq> pod_key pod" for k
  proof (cases "tlookup (lm_pods lm) k")
    case (Some a)
    then obtain m where "get_mp lm a = Some m" by (rule lm_invD [OF assms(1)])
    then have "a < lm_nextAddr lm" using assms(1) unfolding lm_inv_def by blast
    then show ?thesis using that Some ok(6) [of a] by (simp add: load_pod_def ok(1))
  qed (use that in \<open>simp add: load_pod_def ok(1)\<close>)
  then show thesis
    using that [OF started(1) pc(1) started(3)] ok pc(5) inv by (simp add: load_pod_def started(3))
qed (use assms in auto)

section \<open>Terminating\<close>

lemma close_proxy_same:
  "mp_pod (fst (close_proxy H mp w)) = mp_pod mp" "mp_hostPort (fst (close_proxy H mp w)) = mp_hostPort mp"
  "mp_cancelled (fst (close_proxy H mp w)) = mp_cancelled mp"
  by (auto simp: close_proxy_def Let_def split: option.splits prod.splits)

lemma Terminate_managed:
  assumes "load_pod lm (podKey ns name) = Some (addr, mp)" "Terminate E ns name lm = (r, lm')"
  obtains mp' status where "r = None" "lm_pods lm' = tdelete (podKey ns name) (lm_pods lm)"
    "lm_nextAddr lm' = lm_nextAddr lm"
    "lm_portPool lm' = (if mp_hostPort mp > 0 then Release (podKey ns name) (lm_portPool lm) else lm_portPool lm)"
    "get_mp lm' addr = Some mp'" "mp_pod mp' = mp_pod mp" "mp_hostPort mp' = mp_hostPort mp" "mp_cancelled mp'"
    "\<And>b. b \<noteq> addr \<Longrightarrow> get_mp lm' b = get_mp lm b" "lm_monitors lm' = lm_monitors lm"
    "lm_watchers lm' = told \<lparr>we_Type = ''DELETED'',
       we_Object = with_status (mp_pod mp) status (itoa (wrap64 (lm_resourceVersion lm + 1)))\<rparr> (lm_watchers lm)"
proof -
  let ?mp = "fst (close_proxy (le_host E) (mp\<lparr>mp_cancelled := True\<rparr>) (lm_world lm))"
  show thesis
  proof (rule that)
    show "get_mp lm' addr = Some ?mp" "\<And>b. b \<noteq> addr \<Longrightarrow> get_mp lm' b = get_mp lm b"
      using assms by (auto simp: Terminate_def Let_def case_prod_beta get_mp_def lm_frame set_mp_def)
    show "lm_watchers lm' = told \<lparr>we_Type = ''DELETED'', we_Object = with_status (mp_pod mp)
        (status_or_zero (LM_Status E ns name lm)) (itoa (wrap64 (lm_resourceVersion lm + 1)))\<rparr> (lm_watchers lm)"
      using assms
      by (auto simp: Terminate_def Let_def case_prod_beta lm_frame broadcast_told next_rv_def)
  qed (use assms in \<open>auto simp: Terminate_def Let_def case_prod_beta lm_frame close_proxy_same\<close>)
qed

lemma Terminate_unmanaged:
  "load_pod lm (podKey ns name) = None \<Longrightarrow> Terminate E ns name lm = (Some (ENotManaged ns name), lm)"
  by (simp add: Terminate_def Let_def)

lemma load_podD: "load_pod lm key = Some (a, mp) \<Longrightarrow> tlookup (lm_pods lm) key = Some a \<and> get_mp lm a = Some mp"
  by (auto simp: load_pod_def split: option.splits)

lemma load_pod_iff: "lm_inv lm \<Longrightarrow> load_pod lm key = None \<longleftrightarrow> tlookup (lm_pods lm) key = None"
  by (auto simp: load_pod_def elim: lm_invD split: option.splits)

lemma lm_inv_Terminate:
  assumes "lm_inv lm" "Terminate E ns name lm = (r, lm')"
  shows "lm_inv lm'"
proof (cases "load_pod lm (podKey ns name)")
  case None
  then show ?thesis using assms Terminate_unmanaged [of lm ns name E] by simp
next
  case (Some am)
  obtain addr mp where am: "am = (addr, mp)" by (cases am)
  note mp = load_podD [OF Some [unfolded am]]
  show ?thesis
  proof (rule Terminate_managed [OF Some [unfolded am] assms(2)])
    fix mp' status
    assume t: "lm_pods lm' = tdelete (podKey ns name) (lm_pods lm)" "lm_nextAddr lm' = lm_nextAddr lm"
      "lm_portPool lm' = (if mp_hostPort mp > 0 then Release (podKey ns name) (lm_portPool lm) else lm_portPool lm)"
      "get_mp lm' addr = Some mp'" "mp_pod mp' = mp_pod mp" "mp_hostPort mp' = mp_hostPort mp"
      "\<And>b. b \<noteq> addr \<Longrightarrow> get_mp lm' b = get_mp lm b"
    show ?thesis
    proof (rule lm_inv_remove [OF assms(1) t(3,1,2)])
      show "\<forall>a m'. get_mp lm' a = Some m' \<longrightarrow>
          (\<exists>m. get_mp lm a = Some m \<and> mp_pod m' = mp_pod m \<and> mp_hostPort m' = mp_hostPort m)"
      proof (intro allI impI)
        fix a m' assume "get_mp lm' a = Some m'"
        then show "\<exists>m. get_mp lm a = Some m \<and> mp_pod m' = mp_pod m \<and> mp_hostPort m' = mp_hostPort m"
          using t(4-7) mp by (cases "a = addr") auto
      qed
      show "\<forall>a m. get_mp lm a = Some m \<longrightarrow> (\<exists>m'. get_mp lm' a = Some m')"
        using t(4,7) by (metis (no_types))
    qed
  qed
qed

text \<open>The pods that remain are the ones under other keys, as they were.\<close>

lemma Terminate_others:
  assumes "lm_inv lm" "Terminate E ns name lm = (r, lm')" "k \<noteq> podKey ns name"
  shows "load_pod lm' k = load_pod lm k"
proof (cases "load_pod lm (podKey ns name)")
  case None
  then show ?thesis using assms(2) Terminate_unmanaged [of lm ns name E] by simp
next
  case (Some am)
  obtain addr mp where am: "am = (addr, mp)" by (cases am)
  note mp = load_podD [OF Some [unfolded am]]
  have d: "a \<noteq> addr" if k: "tlookup (lm_pods lm) k = Some a" for a
  proof
    assume "a = addr"
    obtain m where "get_mp lm a = Some m" "pod_key (mp_pod m) = k"
      using lm_invD [OF assms(1) k] by (auto simp: mp_inv_def)
    moreover obtain m' where "get_mp lm addr = Some m'" "pod_key (mp_pod m') = podKey ns name"
      using lm_invD [OF assms(1) conjunct1 [OF mp]] by (auto simp: mp_inv_def)
    ultimately show False using \<open>a = addr\<close> assms(3) by simp
  qed
  show ?thesis
    by (rule Terminate_managed [OF Some [unfolded am] assms(2)])
      (use d assms(3) in \<open>auto simp: load_pod_def split: option.splits\<close>)
qed

section \<open>Shutting down\<close>

lemma fold_Terminate:
  assumes "lm_inv lm"
  shows "lm_inv (fold (\<lambda>pod lm. snd (Terminate E (om_Namespace (pod_Metadata pod)) (om_Name (pod_Metadata pod)) lm)) pods lm) \<and>
    (\<forall>k. load_pod (fold (\<lambda>pod lm. snd (Terminate E (om_Namespace (pod_Metadata pod)) (om_Name (pod_Metadata pod)) lm)) pods lm) k =
      (if k \<in> pod_key ` set pods then None else load_pod lm k))"
  using assms
proof (induction pods arbitrary: lm)
  case (Cons pod pods)
  let ?m = "pod_Metadata pod"
  obtain r lm1 where t: "Terminate E (om_Namespace ?m) (om_Name ?m) lm = (r, lm1)" by (meson surj_pair)
  have inv1: "lm_inv lm1" by (rule lm_inv_Terminate [OF Cons.prems t])
  have gone: "load_pod lm1 (pod_key pod) = None"
  proof (cases "load_pod lm (pod_key pod)")
    case None
    then show ?thesis using t Terminate_unmanaged [of lm "om_Namespace ?m" "om_Name ?m" E]
      by (simp add: pod_key_def)
  next
    case (Some am)
    obtain addr mp where am: "am = (addr, mp)" by (cases am)
    show ?thesis
      by (rule Terminate_managed [OF Some [unfolded am pod_key_def] t])
        (simp add: load_pod_def pod_key_def)
  qed
  have other: "load_pod lm1 k = load_pod lm k" if "k \<noteq> pod_key pod" for k
    using Terminate_others [OF Cons.prems t] that by (simp add: pod_key_def)
  show ?case using Cons.IH [OF inv1] gone other t by (auto simp: image_iff)
qed simp

end
