(* ===== verification/Lifecycle_Steps.thy ===== *)
theory Lifecycle_Steps
  imports Lifecycle_Correct
begin

text \<open>
  The lifecycle manager as a state machine: its operations, the steps of its goroutines, and the
  changes of the world around it, in any order; the invariant of every state it reaches; and the
  properties of the manager.
\<close>

section \<open>Steps\<close>

inductive lm_step :: "('w, 'b) lm_env \<Rightarrow> 'w LifecycleManager \<Rightarrow> 'w LifecycleManager \<Rightarrow> bool"
  for E :: "('w, 'b) lm_env" where
  launch: "lm_step E lm (snd (Launch E pod engineType target env lm))"
| terminate: "lm_step E lm (snd (Terminate E ns name lm))"
| shutdown: "lm_step E lm (LM_Shutdown E lm)"
| tick: "lm_step E lm (monitor_tick E a lm)"
| restart: "lm_step E lm (monitor_restart E a lm)"
| cancelled: "lm_step E lm (monitor_cancelled a lm)"
| liveness: "lm_step E lm (liveness_event E a ev lm)"
| readiness: "lm_step E lm (readiness_event E a ev lm)"
| watch: "lm_step E lm (snd (Watch lm))"
| watch_send: "Watch_send i pod lm = Some lm' \<Longrightarrow> lm_step E lm lm'"
| watch_recv: "tlookup (lm_watchers lm) i = Some (ev # ch) \<Longrightarrow>
    lm_step E lm (lm\<lparr>lm_watchers := tstore i ch (lm_watchers lm)\<rparr>)"
| watch_done: "lm_step E lm (Watch_done i lm)"
| world: "lm_step E lm (lm\<lparr>lm_world := w\<rparr>)"

inductive_simps lm_step_iff: "lm_step E lm lm'"

inductive reachable :: "('w, 'b) lm_env \<Rightarrow> 'w LifecycleManager \<Rightarrow> 'w LifecycleManager \<Rightarrow> bool"
  for E :: "('w, 'b) lm_env" and lm0 :: "'w LifecycleManager" where
  start: "reachable E lm0 lm0"
| step: "reachable E lm0 lm \<Longrightarrow> lm_step E lm lm' \<Longrightarrow> reachable E lm0 lm'"

section \<open>The invariant of reachable states\<close>

text \<open>The pool holds ports for managed pods only (while the manager is its only user).\<close>

definition lm_own :: "'w LifecycleManager \<Rightarrow> bool" where
  "lm_own lm \<longleftrightarrow> (\<forall>key port. pp_holds (lm_portPool lm) key = Some port \<longrightarrow>
     (\<exists>a mp. load_pod lm key = Some (a, mp) \<and> mp_hostPort mp = port))"

text \<open>Steps that change neither the pods nor the ports.\<close>

definition core_same :: "'w LifecycleManager \<Rightarrow> 'w LifecycleManager \<Rightarrow> bool" where
  "core_same lm lm' \<longleftrightarrow> lm_portPool lm' = lm_portPool lm \<and> lm_pods lm' = lm_pods lm \<and>
     lm_nextAddr lm' = lm_nextAddr lm \<and>
     (\<forall>a. map_option (\<lambda>mp. (mp_pod mp, mp_hostPort mp)) (get_mp lm' a) =
          map_option (\<lambda>mp. (mp_pod mp, mp_hostPort mp)) (get_mp lm a))"

lemma core_sameD:
  assumes "core_same lm lm'" "get_mp lm' a = Some mp'"
  obtains mp where "get_mp lm a = Some mp" "mp_pod mp' = mp_pod mp" "mp_hostPort mp' = mp_hostPort mp"
proof -
  have "map_option (\<lambda>mp. (mp_pod mp, mp_hostPort mp)) (get_mp lm' a) =
      map_option (\<lambda>mp. (mp_pod mp, mp_hostPort mp)) (get_mp lm a)"
    using assms(1) by (simp add: core_same_def)
  then show thesis using assms(2) that by (cases "get_mp lm a") auto
qed

lemma core_sameD2:
  assumes "core_same lm lm'" "get_mp lm a = Some mp"
  obtains mp' where "get_mp lm' a = Some mp'" "mp_pod mp' = mp_pod mp" "mp_hostPort mp' = mp_hostPort mp"
proof -
  have "map_option (\<lambda>mp. (mp_pod mp, mp_hostPort mp)) (get_mp lm' a) =
      map_option (\<lambda>mp. (mp_pod mp, mp_hostPort mp)) (get_mp lm a)"
    using assms(1) by (simp add: core_same_def)
  then show thesis using assms(2) that by (cases "get_mp lm' a") auto
qed

lemma core_same_heap:
  "lm_portPool lm' = lm_portPool lm \<Longrightarrow> lm_pods lm' = lm_pods lm \<Longrightarrow> lm_nextAddr lm' = lm_nextAddr lm \<Longrightarrow>
   lm_heap lm' = lm_heap lm \<Longrightarrow> core_same lm lm'"
  by (simp add: core_same_def get_mp_def)

lemma core_same_mp:
  "lm_portPool lm' = lm_portPool lm \<Longrightarrow> lm_pods lm' = lm_pods lm \<Longrightarrow> lm_nextAddr lm' = lm_nextAddr lm \<Longrightarrow>
   get_mp lm a = Some mp \<Longrightarrow> lm_heap lm' = tstore a mp' (lm_heap lm) \<Longrightarrow> mp_pod mp' = mp_pod mp \<Longrightarrow>
   mp_hostPort mp' = mp_hostPort mp \<Longrightarrow> core_same lm lm'"
  by (simp add: core_same_def get_mp_def)

lemma core_same_inv:
  assumes "core_same lm lm'" "lm_inv lm" "lm_own lm"
  shows "lm_inv lm' \<and> lm_own lm'"
proof -
  have eq: "lm_portPool lm' = lm_portPool lm" "lm_pods lm' = lm_pods lm" "lm_nextAddr lm' = lm_nextAddr lm"
    using assms(1) by (simp_all add: core_same_def)
  have "\<exists>m. get_mp lm' a = Some m \<and> mp_inv (lm_portPool lm) k m" if "tlookup (lm_pods lm) k = Some a" for k a
  proof (rule lm_invD [OF assms(2) that])
    fix m assume m: "get_mp lm a = Some m" "mp_inv (lm_portPool lm) k m"
    show ?thesis by (rule core_sameD2 [OF assms(1) m(1)]) (use m(2) mp_inv_cong in blast)
  qed
  moreover have "a < lm_nextAddr lm" if "get_mp lm' a = Some m" for a m
    by (rule core_sameD [OF assms(1) that]) (use assms(2) in \<open>auto simp: lm_inv_def\<close>)
  ultimately have "lm_inv lm'" using assms(2) eq unfolding lm_inv_def by simp
  moreover have "\<exists>a mp. load_pod lm' k = Some (a, mp) \<and> mp_hostPort mp = port"
    if "pp_holds (lm_portPool lm) k = Some port" for k port
  proof -
    obtain a mp where l: "load_pod lm k = Some (a, mp)" and p: "mp_hostPort mp = port"
      using assms(3) \<open>pp_holds (lm_portPool lm) k = Some port\<close> unfolding lm_own_def by blast
    show ?thesis
      by (rule core_sameD2 [OF assms(1) conjunct2 [OF load_podD [OF l]]])
        (use load_podD [OF l] p in \<open>auto simp: load_pod_def eq\<close>)
  qed
  ultimately show ?thesis by (simp add: lm_own_def eq)
qed

lemma core_same_refl: "core_same lm lm"
  by (simp add: core_same_def)

lemma tick_core: "core_same lm (monitor_tick E a lm)"
proof (cases "tlookup (lm_monitors lm) a = Some MWait")
  case True
  show ?thesis
  proof (cases "get_mp lm a")
    case (Some mp)
    show ?thesis
      using True Some core_same_refl [of lm]
      by (cases "Registry_Get (le_registry E) (mp_engineType mp)")
        (auto simp: monitor_tick_def Let_def lm_frame intro: core_same_heap core_same_mp [OF _ _ _ Some]
          simp: set_mp_def)
  qed (simp add: monitor_tick_def core_same_refl split: option.splits monitor_pc.splits)
qed (auto simp: monitor_tick_def core_same_refl split: option.splits monitor_pc.splits)

lemma restart_core: "core_same lm (monitor_restart E a lm)"
proof (cases "get_mp lm a")
  case (Some mp)
  show ?thesis
    using Some core_same_refl [of lm]
    by (auto simp: monitor_restart_def Let_def lm_frame set_mp_def
        intro: core_same_heap core_same_mp [OF _ _ _ Some]
        split: option.splits monitor_pc.splits sum.splits prod.splits)
qed (simp add: monitor_restart_def core_same_refl split: option.splits monitor_pc.splits)

lemma readiness_core: "core_same lm (readiness_event E a ev lm)"
proof (cases "get_mp lm a")
  case (Some mp)
  show ?thesis
    using Some
    by (auto simp: readiness_event_def Let_def lm_frame set_mp_def intro: core_same_mp [OF _ _ _ Some])
qed (simp add: readiness_event_def core_same_refl)

lemma other_core:
  "core_same lm (monitor_cancelled a lm)" "core_same lm (liveness_event E a ev lm)"
  "core_same lm (snd (Watch lm))" "Watch_send i pod lm = Some lm' \<Longrightarrow> core_same lm lm'"
  "core_same lm (lm\<lparr>lm_watchers := ws\<rparr>)" "core_same lm (Watch_done i lm)" "core_same lm (lm\<lparr>lm_world := w\<rparr>)"
  by (auto intro!: core_same_heap simp: monitor_cancelled_def liveness_event_def Watch_def Watch_send_def
      Watch_done_def lm_frame split: option.splits probe_event.splits if_splits)

lemma own_key_free: "lm_own lm \<Longrightarrow> tlookup (lm_pods lm) key = None \<Longrightarrow> pp_holds (lm_portPool lm) key = None"
proof (cases "pp_holds (lm_portPool lm) key")
  case (Some p)
  assume "lm_own lm" "tlookup (lm_pods lm) key = None"
  moreover obtain a mp where "load_pod lm key = Some (a, mp)"
    using \<open>lm_own lm\<close> Some unfolding lm_own_def by blast
  ultimately show ?thesis using load_podD by fastforce
qed

lemma Launch_err_load:
  assumes "lm_inv lm" "pp_holds (lm_portPool lm) (pod_key pod) = None"
    and "Launch E pod engineType target env lm = ((Some e, pod'), lm')"
  shows "load_pod lm' k = load_pod lm k"
proof -
  note er = Launch_err [OF assms]
  show ?thesis
  proof (cases "tlookup (lm_pods lm) k")
    case (Some b)
    then obtain m where "get_mp lm b = Some m" by (rule lm_invD [OF assms(1)])
    then have "b < lm_nextAddr lm" using assms(1) unfolding lm_inv_def by blast
    then show ?thesis using Some er(1,3) by (simp add: load_pod_def)
  qed (use er(1) in \<open>simp add: load_pod_def\<close>)
qed

lemma Launch_inv_own:
  assumes "lm_inv lm" "lm_own lm" "Launch E pod engineType target env lm = ((r, pod'), lm')"
  shows "lm_inv lm' \<and> lm_own lm'"
proof (cases "tlookup (lm_pods lm) (pod_key pod)")
  case (Some a)
  then show ?thesis using assms by (auto elim: Launch_cases)
next
  case None
  note free = own_key_free [OF assms(2) None]
  show ?thesis
  proof (cases r)
    case (Some e)
    note er = Launch_err [OF assms(1) free assms(3) [unfolded Some]]
    have "load_pod lm' k = load_pod lm k" for k
      by (rule Launch_err_load [OF assms(1) free assms(3) [unfolded Some]])
    then show ?thesis using assms(2) er(2,4) by (simp add: lm_own_def)
  next
    case None
    show ?thesis
    proof (rule Launch_ok [OF assms(1) free assms(3) [unfolded None]])
      fix hostPort projected mp
      assume ok: "(hostPort > 0) = wants_port pod" "load_pod lm' (pod_key pod) = Some (lm_nextAddr lm, mp)"
        "launched mp pod' engineType target
          (if hostPort > 0 then env @ [\<lparr>ev_Name = ''LOK8S_PORT'', ev_Value = itoa hostPort\<rparr>] else env)
          hostPort projected"
        "\<And>k. k \<noteq> pod_key pod \<Longrightarrow> load_pod lm' k = load_pod lm k"
        "pp_holds (lm_portPool lm') =
          (if wants_port pod then (pp_holds (lm_portPool lm))(pod_key pod \<mapsto> hostPort) else pp_holds (lm_portPool lm))"
        "lm_inv lm'"
      have "\<exists>a mp. load_pod lm' k = Some (a, mp) \<and> mp_hostPort mp = port"
        if "pp_holds (lm_portPool lm') k = Some port" for k port
        using that ok assms(2) free
        by (cases "k = pod_key pod") (auto simp: lm_own_def launched_def split: if_splits)
      then show ?thesis using ok(6) by (simp add: lm_own_def)
    qed
  qed
qed

lemma Terminate_inv_own:
  assumes "lm_inv lm" "lm_own lm" "Terminate E ns name lm = (r, lm')"
  shows "lm_inv lm' \<and> lm_own lm'"
proof (cases "load_pod lm (podKey ns name)")
  case None
  then show ?thesis using assms Terminate_unmanaged [of lm ns name E] by simp
next
  case (Some am)
  obtain addr mp where am: "am = (addr, mp)" by (cases am)
  have pool: "pp_holds (lm_portPool lm') = (pp_holds (lm_portPool lm))(podKey ns name := None)"
  proof (rule Terminate_managed [OF Some [unfolded am] assms(3)])
    assume p: "lm_portPool lm' =
      (if mp_hostPort mp > 0 then Release (podKey ns name) (lm_portPool lm) else lm_portPool lm)"
    have "pp_holds (lm_portPool lm) (podKey ns name) = None" if "\<not> mp_hostPort mp > 0"
    proof (rule ccontr)
      assume "pp_holds (lm_portPool lm) (podKey ns name) \<noteq> None"
      then obtain q where q: "pp_holds (lm_portPool lm) (podKey ns name) = Some q" by blast
      then have "mp_hostPort mp = q" using assms(2) Some am unfolding lm_own_def by fastforce
      moreover have "0 < q" using q assms(1)
        by (force simp: lm_inv_def pp_holds_def pp_inv_iff pp_in_range_def)
      ultimately show False using that by simp
    qed
    then show ?thesis using p by (auto simp: fun_eq_iff)
  qed
  have "\<exists>a mp. load_pod lm' k = Some (a, mp) \<and> mp_hostPort mp = port"
    if "pp_holds (lm_portPool lm') k = Some port" for k port
    using that pool Terminate_others [OF assms(1,3), of k] assms(2)
    by (auto simp: lm_own_def split: if_splits)
  then show ?thesis using lm_inv_Terminate [OF assms(1,3)] by (simp add: lm_own_def)
qed

lemma Shutdown_inv_own:
  assumes "lm_inv lm" "lm_own lm"
  shows "lm_inv (LM_Shutdown E lm) \<and> lm_own (LM_Shutdown E lm)"
proof -
  have "lm_inv (fold (\<lambda>pod lm. snd (Terminate E (om_Namespace (pod_Metadata pod)) (om_Name (pod_Metadata pod)) lm)) pods lm) \<and>
    lm_own (fold (\<lambda>pod lm. snd (Terminate E (om_Namespace (pod_Metadata pod)) (om_Name (pod_Metadata pod)) lm)) pods lm)" for pods
    using assms
  proof (induction pods arbitrary: lm)
    case (Cons pod pods)
    obtain r lm1 where t: "Terminate E (om_Namespace (pod_Metadata pod)) (om_Name (pod_Metadata pod)) lm = (r, lm1)"
      by (meson surj_pair)
    then show ?case using Cons.IH Terminate_inv_own [OF Cons.prems t] by simp
  qed simp
  then show ?thesis by (simp add: LM_Shutdown_def)
qed

lemma step_inv_own:
  assumes "lm_step E lm lm'" "lm_inv lm" "lm_own lm"
  shows "lm_inv lm' \<and> lm_own lm'"
  using assms
proof (cases rule: lm_step.cases)
  case (launch pod engineType target env)
  then show ?thesis using Launch_inv_own [OF assms(2,3)] by (metis prod.collapse)
next
  case (terminate ns name)
  then show ?thesis using Terminate_inv_own [OF assms(2,3)] by (metis prod.collapse)
next
  case shutdown
  then show ?thesis using Shutdown_inv_own [OF assms(2,3)] by simp
next
  case (watch_send i pod)
  then show ?thesis using core_same_inv [OF other_core(4) assms(2,3)] by blast
qed (rule core_same_inv [OF _ assms(2,3)]; simp add: tick_core restart_core readiness_core other_core)+

lemma reachable_inv_own:
  assumes "reachable E (NewLifecycleManager (NewPortPool lo hi) w) lm" "0 < lo"
  shows "lm_inv lm \<and> lm_own lm"
  using assms
proof (induction rule: reachable.induct)
  case start
  then show ?case
    using lm_inv_new by (auto simp: lm_own_def NewLifecycleManager_def NewPortPool_def pp_holds_def)
next
  case (step lm lm')
  then show ?case using step_inv_own by blast
qed

section \<open>Backoff\<close>

lemma mod_shift: "\<exists>k. (x + h) mod m - h = x + k * m" for x h m :: int
  by (rule exI [of _ "- ((x + h) div m)"]) (simp add: minus_div_mult_eq_mod [symmetric])

lemma wrap64_mult: "wrap64 (wrap64 x * y) = wrap64 (x * y)"
proof -
  obtain k where k: "wrap64 x = x + k * 2 ^ 64"
    using mod_shift [of x "2 ^ 63" "2 ^ 64"] unfolding wrap64_def by blast
  have "wrap64 x * y + 2 ^ 63 = x * y + 2 ^ 63 + k * y * 2 ^ 64" by (simp add: k algebra_simps)
  then show ?thesis by (simp only: wrap64_def mod_mult_self1)
qed

lemma wrap64_multiple: "wrap64 (2 ^ 64 * m) = 0"
  by (simp add: wrap64_def)

lemma backoff_small:
  assumes "1 \<le> n" "n \<le> 30"
  shows "backoffDuration n = min (10 * 2 ^ nat (n - 1) * second) maxBackoff"
proof -
  define p where "p = (2 :: int) ^ nat (n - 1)"
  have "p \<le> 2 ^ 29" unfolding p_def using assms by (intro power_increasing) auto
  then have b: "0 < p" "p \<le> 536870912" by (simp_all add: p_def)
  have s: "(n - 1) mod 2 ^ 64 = n - 1" using assms by simp
  have "in64 (10 * p)" "in64 (10 * p * second)" using b by (simp_all add: in64_def second_def)
  then have "wrap64 (10 * p) = 10 * p" "wrap64 (10 * p * second) = 10 * p * second" by simp_all
  then have "backoffDuration n = (if 10 * p * second > maxBackoff then maxBackoff else 10 * p * second)"
    using assms by (simp only: backoffDuration_def shl64_def s Let_def p_def [symmetric]) simp
  then show ?thesis by (simp add: p_def min_def)
qed

lemma backoff_zero:
  assumes "55 \<le> n" "n < 2 ^ 63"
  shows "backoffDuration n = 0"
proof -
  have s: "(n - 1) mod 2 ^ 64 = n - 1" using assms by simp
  have "wrap64 (shl64 10 (n - 1) * second) = 0"
  proof (cases "n - 1 \<ge> 64")
    case False
    have "(2 :: int) ^ nat (n - 1) = 2 ^ 54 * 2 ^ nat (n - 55)"
      using assms by (simp add: power_add [symmetric] nat_add_distrib [symmetric] flip: nat_numeral)
    then have eq: "10 * 2 ^ nat (n - 1) * second = 2 ^ 64 * (5 ^ 10 * 2 ^ nat (n - 55))"
      by (simp add: second_def)
    show ?thesis using False by (simp only: shl64_def if_False wrap64_mult eq wrap64_multiple)
  qed (simp add: shl64_def wrap64_def)
  then have "backoffDuration n = (if 0 > maxBackoff then maxBackoff else 0)"
    by (simp only: backoffDuration_def Let_def s)
  then show ?thesis by (simp add: maxBackoff_def second_def)
qed

end
