(* ===== verification/Daemon.thy ===== *)
theory Daemon
  imports Lifecycle_Steps
begin

text \<open>
  The parts of the daemon put together as \<open>serve\<close> in \<open>main.go\<close> does: both engines registered, a
  pool of the node ports, and a lifecycle manager over them.  The world is the state of the two
  engines and of the operating system.
\<close>

section \<open>The world of the daemon\<close>

record 'f World =
  w_native :: NativeEngine
  w_wasm :: WasmEngine
  w_os :: 'f

definition on_os :: "('f \<Rightarrow> 'r \<times> 'f) \<Rightarrow> 'f World \<Rightarrow> 'r \<times> 'f World" where
  "on_os g w = (let (r, f) = g (w_os w) in (r, w\<lparr>w_os := f\<rparr>))"

definition lift_host :: "'f host \<Rightarrow> 'f World host" where
  "lift_host H =
     \<lparr>h_Stat = (\<lambda>p w. h_Stat H p (w_os w)), h_LookPath = (\<lambda>p w. h_LookPath H p (w_os w)),
      h_MkdirAll = (\<lambda>p. on_os (h_MkdirAll H p)),
      h_RemoveAll = (\<lambda>p w. w\<lparr>w_os := h_RemoveAll H p (w_os w)\<rparr>),
      h_WriteFile = (\<lambda>p d m. on_os (h_WriteFile H p d m)),
      h_ReadFile = (\<lambda>p w. h_ReadFile H p (w_os w)), h_ReadDir = (\<lambda>p w. h_ReadDir H p (w_os w)),
      h_Symlink = (\<lambda>p q. on_os (h_Symlink H p q)),
      h_StartCmd = (\<lambda>c xs vs. on_os (h_StartCmd H c xs vs)),
      h_RunCmd = (\<lambda>c xs vs. on_os (h_RunCmd H c xs vs)),
      h_Listen = (\<lambda>a. on_os (h_Listen H a)), h_Unlisten = (\<lambda>a w. w\<lparr>w_os := h_Unlisten H a (w_os w)\<rparr>),
      h_Environ = h_Environ H, h_TempDir = h_TempDir H, h_upper = h_upper H, h_Quote = h_Quote H\<rparr>"

definition native_eng :: "'f host \<Rightarrow> nat \<Rightarrow> 'f World PodEngine" where
  "native_eng H fuel =
     \<lparr>eng_Start = (\<lambda>pod target env vols w.
        let (r, (e, f)) = Native_Start H fuel pod target env vols (w_native w, w_os w)
        in (r, w\<lparr>w_native := e, w_os := f\<rparr>)),
      eng_Stop = (\<lambda>name w. let (r, e) = Native_Stop name (w_native w) in (r, w\<lparr>w_native := e\<rparr>)),
      eng_Status = (\<lambda>name w. Native_Status name (w_native w))\<rparr>"

definition wasm_eng :: "'f host \<Rightarrow> 'f World PodEngine" where
  "wasm_eng H =
     \<lparr>eng_Start = (\<lambda>pod target env vols w.
        let (r, (e, f)) = Wasm_Start H pod target env vols (w_wasm w, w_os w)
        in (r, w\<lparr>w_wasm := e, w_os := f\<rparr>)),
      eng_Stop = (\<lambda>name w. let (r, e) = Wasm_Stop name (w_wasm w) in (r, w\<lparr>w_wasm := e\<rparr>)),
      eng_Status = (\<lambda>name w. Wasm_Status name (w_wasm w))\<rparr>"

definition daemon_registry :: "'f host \<Rightarrow> nat \<Rightarrow> 'f World Registry" where
  "daemon_registry H fuel =
     Registry_Register ''wasm'' (wasm_eng H) (Registry_Register ''native'' (native_eng H fuel) NewRegistry)"

definition daemon_env :: "'f host \<Rightarrow> nat \<Rightarrow> 'b cfg \<Rightarrow> ('f World, 'b) lm_env" where
  "daemon_env H fuel cfg =
     \<lparr>le_host = lift_host H, le_registry = daemon_registry H fuel, le_config = cfg\<rparr>"

definition new_daemon :: "'f \<Rightarrow> 'f World LifecycleManager" where
  "new_daemon f = NewLifecycleManager (NewPortPool 30000 32767)
     \<lparr>w_native = NewNativeEngine, w_wasm = NewWasmEngine, w_os = f\<rparr>"

text \<open>Both engines of the registry report a started pod as running.\<close>

definition reports_running :: "'w PodEngine \<Rightarrow> bool" where
  "reports_running eng \<longleftrightarrow> (\<forall>pod target env vols w w'. eng_Start eng pod target env vols w = (None, w') \<longrightarrow>
     eng_Status eng (om_Name (pod_Metadata pod)) w' = PodRunning)"

lemma native_reports: "reports_running (native_eng H fuel)"
  using native.start_ok [of H fuel]
  by (fastforce simp: reports_running_def native_eng_def split: prod.splits)

lemma wasm_reports: "reports_running (wasm_eng H)"
  using wasm.start_ok [of H]
  by (fastforce simp: reports_running_def wasm_eng_def split: prod.splits)

lemma daemon_registry_get:
  "Registry_Get (daemon_registry H fuel) t =
   (if t = ''wasm'' then Inr (wasm_eng H) else if t = ''native'' then Inr (native_eng H fuel)
    else Inl (ENoEngine t))"
  by (simp add: daemon_registry_def Registry_Get_def Registry_Register_def NewRegistry_def)

lemma listen_keeps_status:
  assumes "Registry_Get (daemon_registry H fuel) t = Inr eng"
  shows "eng_Status eng n (snd (h_Listen (lift_host H) a w)) = eng_Status eng n w"
  using assms
  by (auto simp: daemon_registry_get lift_host_def on_os_def native_eng_def wasm_eng_def
      split: if_splits prod.splits)

section \<open>A small daemon\<close>

definition demo_env :: "(unit World, mem_db) lm_env" where
  "demo_env = daemon_env demo_host 1 empty_cfg"

definition port_pod :: "string \<Rightarrow> Pod" where
  "port_pod name = (demo_pod ''default'' name)\<lparr>pod_Spec := zero_PodSpec\<lparr>ps_Containers :=
     [zero_Container\<lparr>c_Name := ''main'', c_Ports := [\<lparr>cp_Name = [], cp_ContainerPort = 80, cp_Protocol = []\<rparr>]\<rparr>]\<rparr>\<rparr>"

lemma port_pod_simps [simp]:
  "pod_key (port_pod name) = ''default/'' @ name" "wants_port (port_pod name)"
  "om_UID (pod_Metadata (port_pod name)) = ''u1''" "ps_Volumes (pod_Spec (port_pod name)) = []"
  "ps_InitContainers (pod_Spec (port_pod name)) = []"
  "om_Annotations (pod_Metadata (port_pod name)) = None" "om_Name (pod_Metadata (port_pod name)) = name"
  by (simp_all add: port_pod_def demo_pod_def pod_key_def podKey_def wants_port_def zero_PodSpec_def
      zero_ObjectMeta_def)

lemma demo_start: "Native_Start demo_host 1 (set_host_port p (port_pod name)) ''app'' env []
    (NewNativeEngine, ()) = (None, (\<lparr>ne_procs = [(name, \<lparr>np_pid = 17, np_cancelled = False, np_phase = PodRunning\<rparr>)]\<rparr>, ()))"
  by (simp add: Native_Start_def set_host_port_def resolveExecutable_def exec_candidates_def demo_host_def
      NewNativeEngine_def first_mounts_def port_pod_def demo_pod_def zero_Container_def native_args_def)

lemma demo_launch: "fst (fst (Launch demo_env (port_pod ''web'') ''native'' ''app'' [] (new_daemon ()))) = None"
  using demo_start [of 30000 "''web''"]
  by (simp add: Launch_def Let_def new_daemon_def NewLifecycleManager_def NewPortPool_def Allocate_def
      find_free.simps container_port_def set_host_port_def mlookup_def ProjectVolumes_def start_launch_def
      demo_env_def daemon_env_def daemon_registry_get native_eng_def lm_frame)

lemma demo_inv: "lm_inv (new_daemon ())" "pp_holds (lm_portPool (new_daemon ())) k = None"
  by (simp add: new_daemon_def lm_inv_new)
    (simp add: new_daemon_def NewLifecycleManager_def NewPortPool_def pp_holds_def)

section \<open>Properties of launching\<close>



text \<open>C10: A launch that succeeds adds exactly one pod, under its key, which was free: ready, never
  restarted, with the engine, target and environment asked for; it has a host port exactly when
  its first container declares ports, the pool holds that port for it and the environment says
  which it is.  Every watcher with room is told.\<close>

theorem Launch_success:
  assumes "lm_inv lm" "pp_holds (lm_portPool lm) (pod_key pod) = None"
    and "Launch E pod engineType target env lm = ((None, pod'), lm')"
  shows "load_pod lm (pod_key pod) = None \<and>
    (\<forall>k. k \<noteq> pod_key pod \<longrightarrow> load_pod lm' k = load_pod lm k) \<and>
    (\<exists>a mp. load_pod lm' (pod_key pod) = Some (a, mp) \<and> mp_ready mp \<and> mp_restartCount mp = 0 \<and>
       mp_engineType mp = engineType \<and> mp_target mp = target \<and> mp_pod mp = pod' \<and>
       (mp_hostPort mp > 0) = wants_port pod \<and>
       (if wants_port pod
        then pp_holds (lm_portPool lm') = (pp_holds (lm_portPool lm))(pod_key pod \<mapsto> mp_hostPort mp) \<and>
          mp_env mp = env @ [\<lparr>ev_Name = ''LOK8S_PORT'', ev_Value = itoa (mp_hostPort mp)\<rparr>]
        else pp_holds (lm_portPool lm') = pp_holds (lm_portPool lm) \<and> mp_env mp = env)) \<and>
    (\<exists>status. \<forall>i. tlookup (lm_watchers lm') i = map_option (chan_send watchCap \<lparr>we_Type = ''ADDED'',
       we_Object = with_status pod' status (itoa (wrap64 (lm_resourceVersion lm + 1)))\<rparr>)
       (tlookup (lm_watchers lm) i)) \<and>
    lm_inv lm'"
proof (rule Launch_ok [OF assms])
  fix hostPort projected mp status
  assume ok: "tlookup (lm_pods lm) (pod_key pod) = None" "(hostPort > 0) = wants_port pod"
    "load_pod lm' (pod_key pod) = Some (lm_nextAddr lm, mp)"
    "launched mp pod' engineType target
      (if hostPort > 0 then env @ [\<lparr>ev_Name = ''LOK8S_PORT'', ev_Value = itoa hostPort\<rparr>] else env)
      hostPort projected"
    "\<And>k. k \<noteq> pod_key pod \<Longrightarrow> load_pod lm' k = load_pod lm k"
    "pp_holds (lm_portPool lm') =
      (if wants_port pod then (pp_holds (lm_portPool lm))(pod_key pod \<mapsto> hostPort) else pp_holds (lm_portPool lm))"
    "lm_watchers lm' = told \<lparr>we_Type = ''ADDED'',
      we_Object = with_status pod' status (itoa (wrap64 (lm_resourceVersion lm + 1)))\<rparr> (lm_watchers lm)"
    "lm_inv lm'"
  have "\<exists>status. \<forall>i. tlookup (lm_watchers lm') i = map_option (chan_send watchCap \<lparr>we_Type = ''ADDED'',
       we_Object = with_status pod' status (itoa (wrap64 (lm_resourceVersion lm + 1)))\<rparr>)
       (tlookup (lm_watchers lm) i)" by (rule exI [of _ status]) (simp add: ok(7) told_lookup)
  moreover have "load_pod lm (pod_key pod) = None" using ok(1) by (simp add: load_pod_def)
  ultimately show ?thesis using ok(2-6,8) by (auto simp: launched_def)
qed

theorem Launch_success_witness:
  "\<exists>a mp. load_pod (snd (Launch demo_env (port_pod ''web'') ''native'' ''app'' [] (new_daemon ()))) ''default/web'' =
     Some (a, mp) \<and> mp_ready mp \<and> mp_hostPort mp > 0"
proof -
  obtain pod' lm' where l: "Launch demo_env (port_pod ''web'') ''native'' ''app'' [] (new_daemon ()) = ((None, pod'), lm')"
    using demo_launch by (metis prod.collapse)
  show ?thesis using Launch_success [OF demo_inv l] by (auto simp: l)
qed

lemma finish_launch_status:
  assumes "finish_launch E (pod_key pod) pod hostPort containerPort a mp lm = lm'"
    and "Registry_Get (le_registry E) (mp_engineType mp) = Inr eng" "mp_pod mp = pod"
    and "tlookup (lm_pods lm) (pod_key pod) = Some a"
    and "eng_Status eng (om_Name (pod_Metadata pod)) (lm_world lm) = PodRunning"
    and listen: "\<And>addr w. eng_Status eng (om_Name (pod_Metadata pod)) (snd (h_Listen (le_host E) addr w)) =
      eng_Status eng (om_Name (pod_Metadata pod)) w"
  shows "\<exists>st. LM_Status E (om_Namespace (pod_Metadata pod)) (om_Name (pod_Metadata pod)) lm' = Some st \<and>
    st_Phase st = PodRunning \<and> list_all cs_Ready (st_ContainerStatuses st)"
proof -
  obtain proxy where m: "get_mp lm' a = Some (mp\<lparr>mp_proxy := proxy, mp_ready := True\<rparr>)"
    using finish_launch_frame(5) [OF assms(1)] by blast
  have w: "eng_Status eng (om_Name (pod_Metadata pod)) (lm_world lm') = PodRunning"
    using assms(5) listen [of "loopback hostPort" "lm_world lm"] unfolding assms(1) [symmetric]
    by (auto simp: finish_launch_def Let_def case_prod_beta lm_frame Proxy_Start_def NewProxy_def
        split: prod.splits option.splits)
  have l: "load_pod lm' (podKey (om_Namespace (pod_Metadata pod)) (om_Name (pod_Metadata pod))) =
      Some (a, mp\<lparr>mp_proxy := proxy, mp_ready := True\<rparr>)"
    using m finish_launch_frame(1) [OF assms(1)] assms(4) by (simp add: load_pod_def pod_key_def)
  show ?thesis
    using l w assms(2) by (simp add: LM_Status_def Let_def zero_PodStatus_def split: list.splits)
qed

lemma start_launch_finish:
  assumes "start_launch E key pod engineType target env hostPort containerPort projected lm = (None, lm')"
  obtains eng mp w1 w2 lm1 where "Registry_Get (le_registry E) engineType = Inr eng"
    "eng_Start eng pod target env projected w1 = (None, w2)"
    "finish_launch E key pod hostPort containerPort (lm_nextAddr lm) mp lm1 = lm'"
    "mp_pod mp = pod" "mp_engineType mp = engineType" "lm_world lm1 = w2"
    "tlookup (lm_pods lm1) key = Some (lm_nextAddr lm)"
proof -
  let ?a = "lm_nextAddr lm"
  let ?p = "''['' @ om_Name (pod_Metadata pod) @ ''] ''"
  let ?mp = "\<lparr>mp_pod = pod, mp_engineType = engineType, mp_target = target, mp_env = env,
    mp_cancelled = False, mp_logBuffer = NewRingBuffer DefaultCapacity,
    mp_stdout = NewPrefixWriter ?p, mp_stderr = NewPrefixWriter ?p,
    mp_restartCount = 0, mp_ready = False, mp_hostPort = hostPort, mp_proxy = None,
    mp_projectedVolumes = projected\<rparr>"
  let ?lm = "\<lambda>w. (set_mp ?a ?mp lm)\<lparr>lm_nextAddr := Suc ?a, lm_pods := tstore key ?a (lm_pods lm), lm_world := w\<rparr>"
  obtain eng w1 w2 where e: "Registry_Get (le_registry E) engineType = Inr eng"
      "eng_Start eng pod target env projected w1 = (None, w2)"
      "finish_launch E key pod hostPort containerPort ?a ?mp (?lm w2) = lm'"
    using assms
    by (simp add: start_launch_def Let_def split: option.splits sum.splits prod.splits)
  show thesis by (rule that [OF e]) simp_all
qed

lemma Launch_runs:
  assumes "Launch (daemon_env H fuel cfg) pod engineType target env lm = ((None, pod'), lm')"
  shows "\<exists>st. LM_Status (daemon_env H fuel cfg) (om_Namespace (pod_Metadata pod)) (om_Name (pod_Metadata pod)) lm' =
      Some st \<and> st_Phase st = PodRunning \<and> list_all cs_Ready (st_ContainerStatuses st)"
  using assms
proof (cases rule: Launch_cases)
  case (started hostPort pool containerPort projected w)
  let ?E = "daemon_env H fuel cfg" and ?pod = "set_host_port hostPort pod"
  have m: "pod_Metadata ?pod = pod_Metadata pod" by (simp add: set_host_port_def)
  from started(4)
  obtain eng mp w1 w2 lm1 where eng: "Registry_Get (le_registry ?E) engineType = Inr eng"
      "eng_Start eng ?pod target (if hostPort > 0
         then env @ [\<lparr>ev_Name = ''LOK8S_PORT'', ev_Value = itoa hostPort\<rparr>] else env) projected w1 = (None, w2)"
    and fin: "finish_launch ?E (pod_key pod) ?pod hostPort containerPort (lm_nextAddr lm) mp lm1 = lm'"
      "mp_pod mp = ?pod" "mp_engineType mp = engineType" "lm_world lm1 = w2"
      "tlookup (lm_pods lm1) (pod_key pod) = Some (lm_nextAddr lm)"
    by (rule start_launch_finish) simp_all
  have r: "reports_running eng"
    using eng(1) native_reports wasm_reports by (auto simp: daemon_env_def daemon_registry_get split: if_splits)
  have ls: "eng_Status eng n (snd (h_Listen (le_host ?E) a w)) = eng_Status eng n w" for n a w
    using listen_keeps_status [of H fuel engineType eng] eng(1) by (simp add: daemon_env_def)
  have "eng_Status eng (om_Name (pod_Metadata ?pod)) (lm_world lm1) = PodRunning"
    using r eng(2) fin(4) unfolding reports_running_def by blast
  from finish_launch_status [of ?E ?pod, OF fin(1) [folded pod_key_set_host_port [of hostPort pod]] _ fin(2) _ this ls]
  show ?thesis using eng(1) fin(3,5) by (simp add: m)
qed (use assms in auto)

text \<open>On the daemon's engines, a pod that was launched runs: its status says running, and its
  container is ready.\<close>

theorem launched_pod_runs:
  assumes "Launch (daemon_env H fuel cfg) pod engineType target env lm = ((None, pod'), lm')"
  shows "\<exists>st. LM_Status (daemon_env H fuel cfg) (om_Namespace (pod_Metadata pod)) (om_Name (pod_Metadata pod)) lm' =
      Some st \<and> st_Phase st = PodRunning \<and> list_all cs_Ready (st_ContainerStatuses st)"
  by (rule Launch_runs [OF assms])

theorem launched_pod_runs_witness:
  "\<exists>st. LM_Status demo_env ''default'' ''web''
      (snd (Launch demo_env (port_pod ''web'') ''native'' ''app'' [] (new_daemon ()))) = Some st \<and>
    st_Phase st = PodRunning"
proof -
  obtain pod' lm' where l: "Launch (daemon_env demo_host 1 empty_cfg) (port_pod ''web'') ''native'' ''app'' []
      (new_daemon ()) = ((None, pod'), lm')"
    using demo_launch unfolding demo_env_def by (metis prod.collapse)
  have "om_Namespace (pod_Metadata (port_pod ''web'')) = ''default''"
    by (simp add: port_pod_def demo_pod_def)
  then show ?thesis unfolding demo_env_def l snd_conv using launched_pod_runs [OF l] by auto
qed

section \<open>Properties of terminating\<close>



lemma managed_pods_cover:
  assumes "lm_inv lm" "load_pod lm k = Some (a, mp)"
  shows "k \<in> pod_key ` set (managed_pods lm)"
proof -
  have l: "tlookup (lm_pods lm) k = Some a" "get_mp lm a = Some mp" using load_podD [OF assms(2)] by auto
  have "mp_pod mp \<in> set (managed_pods lm)"
    using l map_of_SomeD [OF l(1)] by (force simp: managed_pods_def map_filter_def)
  moreover have "pod_key (mp_pod mp) = k"
    by (rule lm_invD [OF assms(1) l(1)]) (use l(2) in \<open>simp add: mp_inv_def\<close>)
  ultimately show ?thesis by blast
qed

text \<open>After a shutdown, from any state the daemon's manager reaches by launching, terminating,
  monitoring, probing and watching in any order, no pod is managed and no port is held.\<close>

theorem Shutdown_clears:
  assumes "reachable E (NewLifecycleManager (NewPortPool lo hi) w) lm" "0 < lo"
  shows "load_pod (LM_Shutdown E lm) k = None \<and> pp_holds (lm_portPool (LM_Shutdown E lm)) k = None"
proof -
  have inv: "lm_inv lm" "lm_own lm" using reachable_inv_own [OF assms] by auto
  have none: "load_pod (LM_Shutdown E lm) k' = None" for k'
  proof -
    have "load_pod lm k' = None \<or> k' \<in> pod_key ` set (managed_pods lm)"
      using managed_pods_cover [OF inv(1)] by (cases "load_pod lm k'") auto
    then show ?thesis
      using fold_Terminate [OF inv(1), of E "managed_pods lm"] unfolding LM_Shutdown_def by auto
  qed
  have "pp_holds (lm_portPool (LM_Shutdown E lm)) k = None"
    using conjunct2 [OF Shutdown_inv_own [OF inv, of E]] none
    by (cases "pp_holds (lm_portPool (LM_Shutdown E lm)) k") (auto simp: lm_own_def)
  with none show ?thesis by blast
qed

lemma demo_reachable:
  "reachable demo_env (new_daemon ()) (snd (Launch demo_env (port_pod ''web'') ''native'' ''app'' [] (new_daemon ())))"
  by (rule reachable.step [OF reachable.start lm_step.launch])

theorem Shutdown_clears_witness:
  "load_pod (LM_Shutdown demo_env (snd (Launch demo_env (port_pod ''web'') ''native'' ''app'' [] (new_daemon ()))))
     ''default/web'' = None"
  using Shutdown_clears [OF demo_reachable [unfolded new_daemon_def]] by (simp add: new_daemon_def)



section \<open>Properties of restarting\<close>

text \<open>C27: When a pod's process has ended, its monitor follows the restart policy.  With \<open>Always\<close> (or
  no policy), or \<open>OnFailure\<close> after a failure, the restart count goes up by one, the pod is not
  ready and the monitor waits out the backoff of that count; otherwise the pod is left as it is
  and the monitor ends: no later tick or restart of it does anything.\<close>

theorem monitor_follows_policy:
  assumes "tlookup (lm_monitors lm) a = Some MWait" "get_mp lm a = Some mp"
    and "Registry_Get (le_registry E) (mp_engineType mp) = Inr eng"
    and "eng_Status eng (om_Name (pod_Metadata (mp_pod mp))) (lm_world lm) = phase"
    and "phase = PodSucceeded \<or> phase = PodFailed"
    and "monitor_tick E a lm = lm'" and "policy = ps_RestartPolicy (pod_Spec (mp_pod mp))"
  shows "if policy = [] \<or> policy = ''Always'' \<or> policy = ''OnFailure'' \<and> phase = PodFailed
    then tlookup (lm_monitors lm') a = Some (MBackoff (wrap64 (mp_restartCount mp + 1))) \<and>
      get_mp lm' a = Some (mp\<lparr>mp_restartCount := wrap64 (mp_restartCount mp + 1), mp_ready := False\<rparr>)
    else tlookup (lm_monitors lm') a = Some MDone \<and> get_mp lm' a = Some mp \<and>
      monitor_tick E a lm' = lm' \<and> monitor_restart E a lm' = lm'"
proof -
  have s: "shouldRestart (mp_pod mp) phase \<longleftrightarrow>
      policy = [] \<or> policy = ''Always'' \<or> policy = ''OnFailure'' \<and> phase = PodFailed"
    using assms(7) by (auto simp: shouldRestart_def policy_defs Let_def)
  show ?thesis
  proof (cases "shouldRestart (mp_pod mp) phase")
    case True
    then have "lm' = set_pc a (MBackoff (wrap64 (mp_restartCount mp + 1)))
        (updatePodStatus E (mp\<lparr>mp_restartCount := wrap64 (mp_restartCount mp + 1), mp_ready := False\<rparr>)
          (set_mp a (mp\<lparr>mp_restartCount := wrap64 (mp_restartCount mp + 1), mp_ready := False\<rparr>) lm))"
      using assms(1-6) by (auto simp: monitor_tick_def Let_def)
    then show ?thesis using True by (simp add: s [symmetric] get_mp_def lm_frame) (simp add: set_pc_def set_mp_def)
  next
    case False
    then have "lm' = set_pc a MDone (updatePodStatus E mp lm)"
      using assms(1-6) by (auto simp: monitor_tick_def Let_def)
    then show ?thesis using False assms(2)
      by (simp add: s [symmetric] get_mp_def lm_frame)
        (simp add: set_pc_def monitor_tick_def monitor_restart_def)
  qed
qed

definition demo_mp :: managedPod where
  "demo_mp = \<lparr>mp_pod = (demo_pod ''default'' ''job'')\<lparr>pod_Spec := zero_PodSpec\<lparr>ps_RestartPolicy := ''OnFailure''\<rparr>\<rparr>,
     mp_engineType = ''native'', mp_target = ''app'', mp_env = [], mp_cancelled = False,
     mp_logBuffer = NewRingBuffer DefaultCapacity, mp_stdout = NewPrefixWriter [], mp_stderr = NewPrefixWriter [],
     mp_restartCount = 4, mp_ready = True, mp_hostPort = 0, mp_proxy = None, mp_projectedVolumes = []\<rparr>"

definition demo_ended :: "PodPhase \<Rightarrow> unit World LifecycleManager" where
  "demo_ended phase = (new_daemon ())\<lparr>lm_pods := [(''default/job'', 0)], lm_heap := [(0, demo_mp)], lm_nextAddr := 1,
     lm_monitors := [(0, MWait)], lm_world := \<lparr>w_native = \<lparr>ne_procs =
       [(''job'', \<lparr>np_pid = 17, np_cancelled = False, np_phase = phase\<rparr>)]\<rparr>, w_wasm = NewWasmEngine, w_os = ()\<rparr>\<rparr>"

lemma demo_ended_simps:
  "tlookup (lm_monitors (demo_ended phase)) 0 = Some MWait" "get_mp (demo_ended phase) 0 = Some demo_mp"
  "Registry_Get (le_registry demo_env) (mp_engineType demo_mp) = Inr (native_eng demo_host 1)"
  "eng_Status (native_eng demo_host 1) (om_Name (pod_Metadata (mp_pod demo_mp))) (lm_world (demo_ended phase)) = phase"
  "ps_RestartPolicy (pod_Spec (mp_pod demo_mp)) = ''OnFailure''" "mp_restartCount demo_mp = 4"
  by (simp_all add: demo_ended_def get_mp_def demo_mp_def demo_env_def daemon_env_def daemon_registry_get
      native_eng_def Native_Status_def demo_pod_def)

theorem monitor_follows_policy_witness:
  "tlookup (lm_monitors (monitor_tick demo_env 0 (demo_ended PodFailed))) 0 = Some (MBackoff 5) \<and>
   tlookup (lm_monitors (monitor_tick demo_env 0 (demo_ended PodSucceeded))) 0 = Some MDone"
  using monitor_follows_policy [OF demo_ended_simps(1,2,3,4) _ refl refl, of PodFailed]
    monitor_follows_policy [OF demo_ended_simps(1,2,3,4) _ refl refl, of PodSucceeded]
  by (simp add: demo_ended_simps(5,6) in64_def)

text \<open>C28: The backoff doubles from ten seconds up to five minutes for the first thirty restarts.
  After that the 64-bit duration overflows: the thirty-first backoff is negative, and from the
  fifty-fifth restart on the backoff is zero, so that the pod is restarted without any delay.\<close>

theorem backoff_schedule:
  "(1 \<le> n \<and> n \<le> 30 \<longrightarrow> backoffDuration n = min (10 * 2 ^ nat (n - 1) * second) maxBackoff) \<and>
   backoffDuration 31 < 0 \<and> (55 \<le> n \<and> n < 2 ^ 63 \<longrightarrow> backoffDuration n = 0)"
proof -
  have "backoffDuration 31 < 0" by code_simp
  then show ?thesis using backoff_small [of n] backoff_zero [of n] by blast
qed

theorem backoff_schedule_witness:
  "backoffDuration 3 = 40 * second \<and> backoffDuration 7 = maxBackoff \<and> backoffDuration 60 = 0"
  using backoff_schedule [of 3] backoff_schedule [of 7] backoff_schedule [of 60]
  by (simp add: maxBackoff_def second_def)

end
