(* ===== verification/Controllers.thy ===== *)
theory Controllers
  imports Controller_Store "HOL-Library.Multiset"
begin

text \<open>
  The controllers: \<open>controller/replicaset.go\<close>, which keeps the number of pods of a replica set at
  the number it asks for, and \<open>controller/deployment.go\<close>, which keeps one replica set per version
  of a deployment's template and moves the replicas from the old ones to the new one.

  The replica set controller knows the pods through the interface \<open>PodManager\<close>, a record of
  operations on a state of any type; the locale \<open>pod_manager\<close> says what it may rely on.  Random
  bytes, UUIDs and the time are arguments.
\<close>

section \<open>The replica set controller\<close>

record 's PodManager =
  pm_LaunchPod :: "Pod \<Rightarrow> 's \<Rightarrow> goerror option \<times> 's"
  pm_DeletePod :: "string \<Rightarrow> string \<Rightarrow> 's \<Rightarrow> goerror option \<times> 's"
  pm_ListPods :: "string \<Rightarrow> 's \<Rightarrow> Pod list"

definition owned_by :: "string \<Rightarrow> string gomap \<Rightarrow> bool" where
  "owned_by owner annotations \<longleftrightarrow> annotations \<noteq> None \<and> mget annotations ''lok8s.io/owner'' = owner"

definition rs_owner :: "ReplicaSet \<Rightarrow> string" where
  "rs_owner rs = ''ReplicaSet/'' @ om_Name (rs_Metadata rs)"

definition pod_active :: "ReplicaSet \<Rightarrow> Pod \<Rightarrow> bool" where
  "pod_active rs pod \<longleftrightarrow> owned_by (rs_owner rs) (om_Annotations (pod_Metadata pod)) \<and>
     st_Phase (pod_Status pod) \<noteq> PodSucceeded \<and> st_Phase (pod_Status pod) \<noteq> PodFailed"

definition first_ready :: "Pod \<Rightarrow> bool" where
  "first_ready pod = (case st_ContainerStatuses (pod_Status pod) of [] \<Rightarrow> False | cs # _ \<Rightarrow> cs_Ready cs)"

text \<open>The loop over the pods: the active ones and how many of them are ready.\<close>

fun scan_pods :: "ReplicaSet \<Rightarrow> Pod list \<Rightarrow> Pod list \<Rightarrow> int \<Rightarrow> Pod list \<times> int" where
  "scan_pods rs [] activePods readyCount = (activePods, readyCount)"
| "scan_pods rs (pod # pods) activePods readyCount =
     (if pod_active rs pod
      then scan_pods rs pods (activePods @ [pod])
             (if first_ready pod then wrap32 (readyCount + 1) else readyCount)
      else scan_pods rs pods activePods readyCount)"

definition hex_digit :: "nat \<Rightarrow> char" where
  "hex_digit n = ''0123456789abcdef'' ! (n mod 16)"

definition hexEncode :: "bytes \<Rightarrow> string" where
  "hexEncode b = concat (map (\<lambda>c. [hex_digit (of_char c div 16), hex_digit (of_char c)]) b)"

text \<open>\<open>rnd\<close> is what \<open>rand.Read\<close> fills the buffer with, if it does not fail.\<close>

definition randString :: "bytes option \<Rightarrow> nat \<Rightarrow> string" where
  "randString rnd n = (case rnd of None \<Rightarrow> ''abcde'' | Some b \<Rightarrow> take n (hexEncode b))"

type_synonym draw = "bytes option \<times> string \<times> time"

definition new_pod :: "ReplicaSet \<Rightarrow> draw \<Rightarrow> Pod" where
  "new_pod rs d =
     (case d of (rnd, uid, now) \<Rightarrow>
       \<lparr>pod_TypeMeta = \<lparr>tm_APIVersion = ''v1'', tm_Kind = ''Pod''\<rparr>,
        pod_Metadata =
          \<lparr>om_Name = om_Name (rs_Metadata rs) @ ''-'' @ randString rnd 5,
           om_Namespace = om_Namespace (rs_Metadata rs), om_UID = uid,
           om_Annotations = mput ''lok8s.io/owner'' (rs_owner rs)
             (mput_all (mentries (om_Annotations (pt_Metadata (rss_Template (rs_Spec rs))))) (Some [])),
           om_Labels = mput_all (mentries (om_Labels (pt_Metadata (rss_Template (rs_Spec rs))))) (Some []),
           om_CreationTimestamp = now, om_ResourceVersion = []\<rparr>,
        pod_Spec = pt_Spec (rss_Template (rs_Spec rs)), pod_Status = zero_PodStatus\<rparr>)"

fun launch_loop :: "'s PodManager \<Rightarrow> ReplicaSet \<Rightarrow> (nat \<Rightarrow> draw) \<Rightarrow> nat \<Rightarrow> nat \<Rightarrow> 's \<Rightarrow> goerror option \<times> 's" where
  "launch_loop PM rs draw i 0 s = (None, s)"
| "launch_loop PM rs draw i (Suc n) s =
     (let newPod = new_pod rs (draw i)
      in case pm_LaunchPod PM newPod s of
           (Some e, s1) \<Rightarrow> (Some (ELaunchPod (om_Name (pod_Metadata newPod)) e), s1)
         | (None, s1) \<Rightarrow> launch_loop PM rs draw (Suc i) n s1)"

text \<open>An index below zero is a run-time panic.\<close>

fun delete_loop :: "'s PodManager \<Rightarrow> Pod list \<Rightarrow> nat \<Rightarrow> nat \<Rightarrow> 's \<Rightarrow> goerror option \<times> 's" where
  "delete_loop PM activePods i 0 s = (None, s)"
| "delete_loop PM activePods i (Suc n) s =
     (let index = int (length activePods) - 1 - int i
      in if index < 0 then (Some (EPanicIndex index (length activePods)), s)
         else let m = pod_Metadata (activePods ! nat index)
              in case pm_DeletePod PM (om_Namespace m) (om_Name m) s of
                   (Some e, s1) \<Rightarrow> (Some (EDeletePod (om_Name m) e), s1)
                 | (None, s1) \<Rightarrow> delete_loop PM activePods (Suc i) n s1)"

definition rs_desired :: "ReplicaSet \<Rightarrow> int" where
  "rs_desired rs = (case rss_Replicas (rs_Spec rs) of None \<Rightarrow> 1 | Some n \<Rightarrow> n)"

definition rs_with_status :: "int \<Rightarrow> int \<Rightarrow> ReplicaSet \<Rightarrow> ReplicaSet" where
  "rs_with_status currentCount readyCount rs =
     rs\<lparr>rs_Status := (rs_Status rs)\<lparr>rst_Replicas := currentCount, rst_ReadyReplicas := readyCount,
          rst_AvailableReplicas := readyCount\<rparr>\<rparr>"

text \<open>\<open>store\<close> is \<open>StoreReplicaSet\<close> of the controller's store.\<close>

definition RS_Reconcile :: "'s PodManager \<Rightarrow> (ReplicaSet \<Rightarrow> 's \<Rightarrow> 's) \<Rightarrow> (nat \<Rightarrow> draw) \<Rightarrow> ReplicaSet \<Rightarrow> 's \<Rightarrow>
    goerror option \<times> 's" where
  "RS_Reconcile PM store draw rs s =
     (let ns = om_Namespace (rs_Metadata rs);
          (activePods, readyCount) = scan_pods rs (pm_ListPods PM ns s) [] 0;
          desired = rs_desired rs;
          currentCount = wrap32 (int (length activePods))
      in if currentCount < desired then
           (let diff = wrap32 (desired - currentCount)
            in case launch_loop PM rs draw 0 (nat diff) s of
                 (Some e, s1) \<Rightarrow> (Some e, s1)
               | (None, s1) \<Rightarrow>
                   let (activePods1, readyCount1) = scan_pods rs (pm_ListPods PM ns s1) [] 0
                   in (None, store (rs_with_status (wrap32 (int (length activePods1))) readyCount1 rs) s1))
         else if currentCount > desired then
           (let diff = wrap32 (currentCount - desired)
            in case delete_loop PM activePods 0 (nat diff) s of
                 (Some e, s1) \<Rightarrow> (Some e, s1)
               | (None, s1) \<Rightarrow> (None, store (rs_with_status desired readyCount rs) s1))
         else (None, store (rs_with_status currentCount readyCount rs) s))"

text \<open>
  \<open>ReconcileAll\<close> logs errors and goes on, but a panic ends the daemon.  The draws of the replica
  set at position \<open>k\<close> are \<open>draw k\<close>.
\<close>

fun is_panic :: "goerror \<Rightarrow> bool" where
  "is_panic (EPanicIndex i n) = True"
| "is_panic e = False"

fun rs_reconcile_loop :: "'s PodManager \<Rightarrow> (ReplicaSet \<Rightarrow> 's \<Rightarrow> 's) \<Rightarrow> (nat \<Rightarrow> nat \<Rightarrow> draw) \<Rightarrow> nat \<Rightarrow>
    ReplicaSet list \<Rightarrow> 's \<Rightarrow> goerror option \<times> 's" where
  "rs_reconcile_loop PM store draw k [] s = (None, s)"
| "rs_reconcile_loop PM store draw k (rs # rss) s =
     (case RS_Reconcile PM store (draw k) rs s of
        (Some e, s1) \<Rightarrow> if is_panic e then (Some e, s1) else rs_reconcile_loop PM store draw (Suc k) rss s1
      | (None, s1) \<Rightarrow> rs_reconcile_loop PM store draw (Suc k) rss s1)"

definition RS_ReconcileAll :: "'s PodManager \<Rightarrow> (string \<Rightarrow> 's \<Rightarrow> ReplicaSet list) \<Rightarrow> (ReplicaSet \<Rightarrow> 's \<Rightarrow> 's) \<Rightarrow>
    (nat \<Rightarrow> nat \<Rightarrow> draw) \<Rightarrow> 's \<Rightarrow> goerror option \<times> 's" where
  "RS_ReconcileAll PM listRS store draw s = rs_reconcile_loop PM store draw 0 (listRS [] s) s"

section \<open>The deployment controller\<close>

definition fnv1a :: "bytes \<Rightarrow> 32 word" where
  "fnv1a b = fold (\<lambda>c h. (xor h (of_char c)) * 16777619) b 2166136261"

fun hex_nat :: "nat \<Rightarrow> string" where
  "hex_nat n = (if n < 16 then [hex_digit n] else hex_nat (n div 16) @ [hex_digit n])"

declare hex_nat.simps [simp del]

text \<open>\<open>marshal\<close> is the JSON of a pod specification (nil when encoding fails).\<close>

definition hashTemplateSpec :: "(PodSpec \<Rightarrow> bytes) \<Rightarrow> PodTemplateSpec \<Rightarrow> string" where
  "hashTemplateSpec marshal template = hex_nat (unat (fnv1a (marshal (pt_Spec template))))"

definition dep_owner :: "Deployment \<Rightarrow> string" where
  "dep_owner dep = ''Deployment/'' @ om_Name (dep_Metadata dep)"

definition has_hash :: "string \<Rightarrow> ReplicaSet \<Rightarrow> bool" where
  "has_hash hash rs \<longleftrightarrow> om_Labels (rs_Metadata rs) \<noteq> None \<and>
     mget (om_Labels (rs_Metadata rs)) ''pod-template-hash'' = hash"

text \<open>The first loop: the replica set of the hash (the last one found) and the others owned.\<close>

fun split_rss :: "string \<Rightarrow> string \<Rightarrow> ReplicaSet list \<Rightarrow> ReplicaSet option \<Rightarrow> ReplicaSet list \<Rightarrow>
    ReplicaSet option \<times> ReplicaSet list" where
  "split_rss owner hash [] newRS oldRSs = (newRS, oldRSs)"
| "split_rss owner hash (rs # rss) newRS oldRSs =
     (if owned_by owner (om_Annotations (rs_Metadata rs)) then
        if has_hash hash rs then split_rss owner hash rss (Some rs) oldRSs
        else split_rss owner hash rss newRS (oldRSs @ [rs])
      else split_rss owner hash rss newRS oldRSs)"

definition new_rs :: "Deployment \<Rightarrow> string \<Rightarrow> int \<Rightarrow> time \<Rightarrow> ReplicaSet" where
  "new_rs dep hash initReplicas now =
     \<lparr>rs_TypeMeta = \<lparr>tm_APIVersion = ''apps/v1'', tm_Kind = ''ReplicaSet''\<rparr>,
      rs_Metadata =
        \<lparr>om_Name = om_Name (dep_Metadata dep) @ ''-'' @ hash, om_Namespace = om_Namespace (dep_Metadata dep),
         om_UID = [], om_Annotations = Some [(''lok8s.io/owner'', dep_owner dep)],
         om_Labels = (case ds_Selector (dep_Spec dep) of
             None \<Rightarrow> Some [(''pod-template-hash'', hash)]
           | Some sel \<Rightarrow> mput_all (mentries (ls_MatchLabels sel)) (Some [(''pod-template-hash'', hash)])),
         om_CreationTimestamp = now, om_ResourceVersion = []\<rparr>,
      rs_Spec = \<lparr>rss_Replicas = Some initReplicas, rss_Selector = ds_Selector (dep_Spec dep),
         rss_Template = ds_Template (dep_Spec dep)\<rparr>,
      rs_Status = zero_ReplicaSetStatus\<rparr>"

definition rs_replicas :: "ReplicaSet \<Rightarrow> int" where
  "rs_replicas rs = (case rss_Replicas (rs_Spec rs) of None \<Rightarrow> 0 | Some n \<Rightarrow> n)"

definition set_replicas :: "int \<Rightarrow> ReplicaSet \<Rightarrow> ReplicaSet" where
  "set_replicas n rs = rs\<lparr>rs_Spec := (rs_Spec rs)\<lparr>rss_Replicas := Some n\<rparr>\<rparr>"

text \<open>The loop that scales the old replica sets down.\<close>

fun scale_old :: "'b storage \<Rightarrow> int \<Rightarrow> ReplicaSet list \<Rightarrow> 'b ctl \<Rightarrow> 'b ctl" where
  "scale_old G remainingOld [] x = x"
| "scale_old G remainingOld (rs # rss) x =
     (let current = (if rs_replicas rs > remainingOld then remainingOld else rs_replicas rs);
          x1 = StoreReplicaSet G (set_replicas current rs) x;
          left = wrap32 (remainingOld - current)
      in scale_old G (if left < 0 then 0 else left) rss x1)"

text \<open>The last loop: replicas, ready replicas and updated replicas of the owned replica sets.\<close>

fun sum_rss :: "string \<Rightarrow> string \<Rightarrow> ReplicaSet list \<Rightarrow> int \<times> int \<times> int \<Rightarrow> int \<times> int \<times> int" where
  "sum_rss owner hash [] t = t"
| "sum_rss owner hash (rs # rss) t =
     (case t of (nTotal, ready, updated) \<Rightarrow>
        if owned_by owner (om_Annotations (rs_Metadata rs)) then
          sum_rss owner hash rss
            (wrap32 (nTotal + rst_Replicas (rs_Status rs)), wrap32 (ready + rst_ReadyReplicas (rs_Status rs)),
             if has_hash hash rs then rst_Replicas (rs_Status rs) else updated)
        else sum_rss owner hash rss t)"

definition dep_desired :: "Deployment \<Rightarrow> int" where
  "dep_desired dep = (case ds_Replicas (dep_Spec dep) of None \<Rightarrow> 1 | Some n \<Rightarrow> n)"

text \<open>The rollout step when there are old replica sets, and the scaling when there are none.\<close>

definition rollout :: "'b storage \<Rightarrow> int \<Rightarrow> ReplicaSet \<Rightarrow> ReplicaSet list \<Rightarrow> 'b ctl \<Rightarrow> 'b ctl" where
  "rollout G desired newRS oldRSs x =
     (let x1 = (if rs_replicas newRS < desired
                then StoreReplicaSet G (set_replicas (wrap32 (rs_replicas newRS + 1)) newRS) x else x);
          maxOld = wrap32 (desired - rst_ReadyReplicas (rs_Status newRS))
      in scale_old G (if maxOld < 0 then 0 else maxOld) oldRSs x1)"

definition scale_new :: "'b storage \<Rightarrow> int \<Rightarrow> ReplicaSet \<Rightarrow> 'b ctl \<Rightarrow> 'b ctl" where
  "scale_new G desired newRS x =
     (if rs_replicas newRS \<noteq> desired then StoreReplicaSet G (set_replicas desired newRS) x else x)"

definition Dep_Reconcile :: "'b storage \<Rightarrow> (PodSpec \<Rightarrow> bytes) \<Rightarrow> time \<Rightarrow> Deployment \<Rightarrow> 'b ctl \<Rightarrow> 'b ctl" where
  "Dep_Reconcile G marshal now dep x =
     (let hash = hashTemplateSpec marshal (ds_Template (dep_Spec dep));
          desired = dep_desired dep;
          ns = om_Namespace (dep_Metadata dep);
          (found, oldRSs) = split_rss (dep_owner dep) hash (ListReplicaSets ns x) None [];
          (newRS, x1) =
            (case found of
               Some rs \<Rightarrow> (rs, x)
             | None \<Rightarrow>
                 let rs = new_rs dep hash (if oldRSs = [] then desired else 0) now
                 in (rs, StoreReplicaSet G rs x));
          x2 = (if oldRSs \<noteq> [] then rollout G desired newRS oldRSs x1 else scale_new G desired newRS x1);
          (nTotal, ready, updated) = sum_rss (dep_owner dep) hash (ListReplicaSets ns x2) (0, 0, 0);
          unavailable = wrap32 (desired - ready)
      in StoreDeployment G
           (dep\<lparr>dep_Status := \<lparr>dst_Replicas = nTotal, dst_UpdatedReplicas = updated, dst_ReadyReplicas = ready,
              dst_AvailableReplicas = ready,
              dst_UnavailableReplicas = (if unavailable < 0 then 0 else unavailable)\<rparr>\<rparr>) x2)"

definition Dep_ReconcileAll :: "'b storage \<Rightarrow> (PodSpec \<Rightarrow> bytes) \<Rightarrow> time \<Rightarrow> 'b ctl \<Rightarrow> 'b ctl" where
  "Dep_ReconcileAll G marshal now x = fold (Dep_Reconcile G marshal now) (ListDeployments [] x) x"

section \<open>The loops\<close>

lemma wrap32_add: "wrap32 (wrap32 x + y) = wrap32 (x + y)"
proof -
  have "(wrap32 x + y + 2 ^ 31) mod 2 ^ 32 = ((x + 2 ^ 31) mod 2 ^ 32 + y) mod 2 ^ 32"
    by (simp add: wrap32_def algebra_simps)
  also have "\<dots> = (x + 2 ^ 31 + y) mod 2 ^ 32"
    by (rule mod_add_left_eq)
  also have "x + 2 ^ 31 + y = x + y + 2 ^ 31"
    by simp
  finally show ?thesis by (simp add: wrap32_def)
qed

lemma scan_pods_filter:
  "scan_pods rs pods act (wrap32 r) =
   (act @ filter (pod_active rs) pods,
    wrap32 (r + int (length (filter (\<lambda>p. pod_active rs p \<and> first_ready p) pods))))"
proof (induction pods arbitrary: act r)
  case (Cons p pods)
  have "wrap32 (wrap32 r + 1) = wrap32 (r + 1)" by (rule wrap32_add)
  then show ?case using Cons.IH [of _ "r + 1"] Cons.IH [of _ r] by (simp add: add.assoc)
qed simp

text \<open>The pods of a replica set that count, and the pods it does not own.\<close>

abbreviation pod_name :: "Pod \<Rightarrow> string" where
  "pod_name p \<equiv> om_Name (pod_Metadata p)"

abbreviation pod_ns :: "Pod \<Rightarrow> string" where
  "pod_ns p \<equiv> om_Namespace (pod_Metadata p)"

abbreviation rs_ns :: "ReplicaSet \<Rightarrow> string" where
  "rs_ns rs \<equiv> om_Namespace (rs_Metadata rs)"

definition owned :: "ReplicaSet \<Rightarrow> Pod \<Rightarrow> bool" where
  "owned rs p \<longleftrightarrow> owned_by (rs_owner rs) (om_Annotations (pod_Metadata p))"

definition active_count :: "ReplicaSet \<Rightarrow> Pod list \<Rightarrow> nat" where
  "active_count rs pods = length (filter (pod_active rs) pods)"

definition strangers :: "ReplicaSet \<Rightarrow> Pod list \<Rightarrow> Pod multiset" where
  "strangers rs pods = filter_mset (\<lambda>p. \<not> owned rs p) (mset pods)"

lemma scan_pods_start:
  "scan_pods rs pods [] 0 = (filter (pod_active rs) pods,
     wrap32 (int (length (filter (\<lambda>p. pod_active rs p \<and> first_ready p) pods))))"
  using scan_pods_filter [of rs pods "[]" 0] by (simp add: in32_def)

lemma active_count_mset: "active_count rs pods = size (filter_mset (pod_active rs) (mset pods))"
  by (simp add: active_count_def flip: mset_filter)

lemma new_pod_simps [simp]:
  "pod_name (new_pod rs d) = om_Name (rs_Metadata rs) @ ''-'' @ randString (fst d) 5"
  "pod_ns (new_pod rs d) = rs_ns rs"
  by (simp_all add: new_pod_def split: prod.splits)

lemma new_pod_owned: "pod_Metadata p = pod_Metadata (new_pod rs d) \<Longrightarrow> owned rs p"
  by (simp add: owned_def owned_by_def new_pod_def split: prod.splits) (simp add: mput_def)

lemma new_pod_active:
  "pod_Metadata p = pod_Metadata (new_pod rs d) \<Longrightarrow>
   pod_active rs p \<longleftrightarrow> st_Phase (pod_Status p) \<noteq> PodSucceeded \<and> st_Phase (pod_Status p) \<noteq> PodFailed"
  using new_pod_owned [of p rs d] by (simp add: pod_active_def owned_def)

text \<open>Deleting the last \<open>n\<close> of the active pods by their names.\<close>

lemma delete_last:
  assumes "distinct (map pod_name L)" "act = filter (pod_active rs) L" "n \<le> length act"
    and "mset L' = filter_mset (\<lambda>p. pod_name p \<notin> pod_name ` set (take n (rev act))) (mset L)"
  shows "active_count rs L' = length act - n" "strangers rs L' = strangers rs L"
proof -
  let ?D = "set (take n (rev act))"
  have D: "?D \<subseteq> {p \<in> set L. pod_active rs p}"
    using set_take_subset [of n "rev act"] by (auto simp: assms(2))
  have inj: "inj_on pod_name (set L)" and dl: "distinct L" using assms(1) by (auto simp: distinct_map)
  have m: "p \<in> set L \<Longrightarrow> pod_name p \<in> pod_name ` ?D \<longleftrightarrow> p \<in> ?D" for p
    using D inj_on_image_mem_iff [OF inj] by auto
  have L': "mset L' = filter_mset (\<lambda>p. p \<notin> ?D) (mset L)"
    unfolding assms(4) by (rule filter_mset_cong) (use m in auto)
  have da: "distinct act" using dl by (simp add: assms(2))
  have "card ?D = n" using distinct_card [of "take n (rev act)"] da assms(3) by simp
  moreover have "?D \<inter> set act = ?D" using D by (auto simp: assms(2))
  then have "length (filter (\<lambda>p. p \<in> ?D) act) = card ?D"
    unfolding distinct_length_filter [OF da] by (simp only: Collect_mem_eq)
  ultimately have "length (filter (\<lambda>p. p \<notin> ?D) act) = length act - n"
    using sum_length_filter_compl [of "\<lambda>p. p \<in> ?D" act] by simp
  moreover have "active_count rs L' = length (filter (\<lambda>p. p \<notin> ?D) act)"
    by (simp add: active_count_mset L' assms(2) filter_filter_mset conj_commute flip: mset_filter)
  ultimately show "active_count rs L' = length act - n" by simp
  have "p \<in> ?D \<Longrightarrow> owned rs p" for p using D by (auto simp: pod_active_def owned_def)
  then show "strangers rs L' = strangers rs L"
    by (auto simp: strangers_def L' filter_filter_mset intro: filter_mset_cong)
qed

section \<open>What the replica set controller relies on\<close>

text \<open>
  Listing a namespace gives pods of different names.  Launching under a name that is free adds one
  pod with the metadata given, running when the launch succeeded and failed when it did not, and
  leaves the others as they are.  Deleting never fails and removes the pod of that name.  Storing
  a replica set does not touch the pods.
\<close>

locale pod_manager =
  fixes PM :: "'s PodManager"
    and store :: "ReplicaSet \<Rightarrow> 's \<Rightarrow> 's"
    and inv :: "'s \<Rightarrow> bool"
    and free :: "string \<Rightarrow> string \<Rightarrow> 's \<Rightarrow> bool"
  assumes list_names: "inv s \<Longrightarrow> ns \<noteq> [] \<Longrightarrow>
      distinct (map pod_name (pm_ListPods PM ns s)) \<and> (\<forall>p \<in> set (pm_ListPods PM ns s). pod_ns p = ns)"
    and launch: "inv s \<Longrightarrow> pod_ns pod \<noteq> [] \<Longrightarrow> free (pod_ns pod) (pod_name pod) s \<Longrightarrow>
      pm_LaunchPod PM pod s = (r, s') \<Longrightarrow> inv s' \<and>
      (\<forall>n. n \<noteq> pod_name pod \<longrightarrow> free (pod_ns pod) n s \<longrightarrow> free (pod_ns pod) n s') \<and>
      (\<exists>pod'. pod_Metadata pod' = pod_Metadata pod \<and>
         st_Phase (pod_Status pod') = (if r = None then PodRunning else PodFailed) \<and>
         mset (pm_ListPods PM (pod_ns pod) s') = add_mset pod' (mset (pm_ListPods PM (pod_ns pod) s)))"
    and delete: "inv s \<Longrightarrow> ns \<noteq> [] \<Longrightarrow> \<exists>s'. pm_DeletePod PM ns n s = (None, s') \<and> inv s' \<and>
      mset (pm_ListPods PM ns s') = filter_mset (\<lambda>p. pod_name p \<noteq> n) (mset (pm_ListPods PM ns s))"
    and store: "inv s \<Longrightarrow> inv (store rs s) \<and> pm_ListPods PM ns (store rs s) = pm_ListPods PM ns s"
begin

lemma launch_loop_correct:
  assumes "inv s" "rs_ns rs \<noteq> []"
    and "\<forall>j. i \<le> j \<and> j < i + n \<longrightarrow> free (rs_ns rs) (pod_name (new_pod rs (draw j))) s"
    and "inj_on (\<lambda>j. pod_name (new_pod rs (draw j))) {i..<i + n}"
    and "launch_loop PM rs draw i n s = (r, s')"
  shows "inv s' \<and>
    strangers rs (pm_ListPods PM (rs_ns rs) s') = strangers rs (pm_ListPods PM (rs_ns rs) s) \<and>
    (\<exists>k \<le> n. (r = None \<longleftrightarrow> k = n) \<and>
       active_count rs (pm_ListPods PM (rs_ns rs) s') = active_count rs (pm_ListPods PM (rs_ns rs) s) + k)"
  using assms
proof (induction n arbitrary: i s)
  case (Suc n)
  let ?p = "\<lambda>j. new_pod rs (draw j)" and ?L = "pm_ListPods PM (rs_ns rs)"
  obtain q s1 where l: "pm_LaunchPod PM (?p i) s = (q, s1)" by (meson surj_pair)
  have fr: "free (rs_ns rs) (pod_name (?p i)) s" by (rule Suc.prems(3) [rule_format]) simp
  note la = launch [OF Suc.prems(1) _ _ l, unfolded new_pod_simps(2), OF Suc.prems(2) fr]
  have inv1: "inv s1" and keep: "\<And>m. m \<noteq> pod_name (?p i) \<Longrightarrow> free (rs_ns rs) m s \<Longrightarrow> free (rs_ns rs) m s1"
    using la by simp_all
  obtain pod' where n1: "pod_Metadata pod' = pod_Metadata (?p i)"
      "st_Phase (pod_Status pod') = (if q = None then PodRunning else PodFailed)"
      "mset (?L s1) = add_mset pod' (mset (?L s))"
    using la by (elim conjE exE)
  have st: "strangers rs (?L s1) = strangers rs (?L s)"
    using new_pod_owned [OF n1(1)] by (simp add: strangers_def n1(3))
  have ac: "active_count rs (?L s1) = active_count rs (?L s) + (if q = None then 1 else 0)"
    using new_pod_active [OF n1(1)] n1(2) by (simp add: active_count_mset n1(3))
  show ?case
  proof (cases q)
    case (Some e)
    then have "s' = s1" "r \<noteq> None" using Suc.prems(5) l by (auto simp: Let_def)
    then show ?thesis using inv1 st ac Some by auto
  next
    case None
    have loop: "launch_loop PM rs draw (Suc i) n s1 = (r, s')" using Suc.prems(5) l None by (simp add: Let_def)
    have free1: "\<forall>j. Suc i \<le> j \<and> j < Suc i + n \<longrightarrow> free (rs_ns rs) (pod_name (?p j)) s1"
    proof (intro allI impI)
      fix j assume j: "Suc i \<le> j \<and> j < Suc i + n"
      then have "j \<noteq> i" "j \<in> {i..<i + Suc n}" "i \<in> {i..<i + Suc n}" by auto
      then have "pod_name (?p j) \<noteq> pod_name (?p i)" using inj_onD [OF Suc.prems(4), of j i] by blast
      moreover have "free (rs_ns rs) (pod_name (?p j)) s" using Suc.prems(3) j by simp
      ultimately show "free (rs_ns rs) (pod_name (?p j)) s1" using keep by blast
    qed
    have inj1: "inj_on (\<lambda>j. pod_name (?p j)) {Suc i..<Suc i + n}"
      by (rule inj_on_subset [OF Suc.prems(4)]) auto
    obtain k where k: "inv s'" "strangers rs (?L s') = strangers rs (?L s1)" "k \<le> n" "r = None \<longleftrightarrow> k = n"
        "active_count rs (?L s') = active_count rs (?L s1) + k"
      using Suc.IH [OF inv1 Suc.prems(2) free1 inj1 loop] by blast
    have "Suc k \<le> Suc n" "(r = None) = (Suc k = Suc n)"
        "active_count rs (?L s') = active_count rs (?L s) + Suc k"
      using k ac None by simp_all
    then show ?thesis using k(1,2) st by metis
  qed
qed simp

lemma delete_loop_correct:
  assumes "inv s" "ns \<noteq> []" "\<forall>p \<in> set act. pod_ns p = ns" "i + n \<le> length act"
  shows "\<exists>s'. delete_loop PM act i n s = (None, s') \<and> inv s' \<and>
    mset (pm_ListPods PM ns s') =
      filter_mset (\<lambda>p. pod_name p \<notin> pod_name ` set (take n (drop i (rev act)))) (mset (pm_ListPods PM ns s))"
  using assms
proof (induction n arbitrary: i s)
  case (Suc n)
  let ?p = "act ! (length act - 1 - i)"
  have i: "i < length act" using Suc.prems(4) by simp
  then have idx: "int (length act) - 1 - int i = int (length act - 1 - i)" by simp
  have p: "pod_ns ?p = ns" using Suc.prems(3) i by simp
  have d: "drop i (rev act) = ?p # drop (Suc i) (rev act)"
    using i by (simp add: Cons_nth_drop_Suc [symmetric] rev_nth)
  obtain s1 where s1: "pm_DeletePod PM ns (pod_name ?p) s = (None, s1)" "inv s1"
      "mset (pm_ListPods PM ns s1) = filter_mset (\<lambda>p. pod_name p \<noteq> pod_name ?p) (mset (pm_ListPods PM ns s))"
    using delete [OF Suc.prems(1,2)] by blast
  obtain s' where s': "delete_loop PM act (Suc i) n s1 = (None, s')" "inv s'"
      "mset (pm_ListPods PM ns s') = filter_mset
        (\<lambda>p. pod_name p \<notin> pod_name ` set (take n (drop (Suc i) (rev act)))) (mset (pm_ListPods PM ns s1))"
    using Suc.IH [OF s1(2) Suc.prems(2,3), of "Suc i"] Suc.prems(4) by auto
  have "delete_loop PM act i (Suc n) s = (None, s')"
    using s1(1) s'(1) p by (simp add: Let_def idx)
  moreover have "mset (pm_ListPods PM ns s') =
      filter_mset (\<lambda>p. pod_name p \<notin> pod_name ` set (take (Suc n) (drop i (rev act)))) (mset (pm_ListPods PM ns s))"
    unfolding s'(3) s1(3) d by (simp add: filter_filter_mset conj_commute)
  ultimately show ?case using s'(2) by blast
qed simp

text \<open>
  One reconciliation: it keeps every pod the replica set does not own; when it returns no error
  exactly as many pods are active as are asked for; an error comes only from a launch that failed,
  and then at least as many are active as before and fewer than asked for.
\<close>

lemma reconcile_correct:
  assumes "inv s" "rs_ns rs \<noteq> []" "0 \<le> rs_desired rs" "rs_desired rs < 2 ^ 31"
    and "cnt = active_count rs (pm_ListPods PM (rs_ns rs) s)" "cnt < 2 ^ 31"
    and "n = nat (rs_desired rs - int cnt)"
    and "\<forall>j < n. free (rs_ns rs) (pod_name (new_pod rs (draw j))) s"
    and "inj_on (\<lambda>j. pod_name (new_pod rs (draw j))) {..<n}"
    and "RS_Reconcile PM store draw rs s = (r, s')"
  shows "inv s' \<and>
    strangers rs (pm_ListPods PM (rs_ns rs) s') = strangers rs (pm_ListPods PM (rs_ns rs) s) \<and>
    (case r of
       None \<Rightarrow> int (active_count rs (pm_ListPods PM (rs_ns rs) s')) = rs_desired rs
     | Some e \<Rightarrow> cnt \<le> active_count rs (pm_ListPods PM (rs_ns rs) s') \<and>
         int (active_count rs (pm_ListPods PM (rs_ns rs) s')) < rs_desired rs)"
proof -
  let ?L = "pm_ListPods PM (rs_ns rs)" and ?act = "filter (pod_active rs) (pm_ListPods PM (rs_ns rs) s)"
  have cnt: "length ?act = cnt" using assms(5) by (simp add: active_count_def)
  have w: "wrap32 (int (length ?act)) = int cnt" unfolding cnt
    by (rule wrap32_id) (use assms(6) in \<open>simp add: in32_def\<close>)
  consider (up) "int cnt < rs_desired rs" | (down) "rs_desired rs < int cnt" | (same) "rs_desired rs = int cnt"
    by linarith
  then show ?thesis
  proof cases
    case up
    have d: "wrap32 (rs_desired rs - int cnt) = rs_desired rs - int cnt"
      by (rule wrap32_id) (use assms(3,4) up in \<open>simp add: in32_def\<close>)
    obtain q s1 where q: "launch_loop PM rs draw 0 n s = (q, s1)" by (meson surj_pair)
    have ll: "inv s1 \<and> strangers rs (?L s1) = strangers rs (?L s) \<and>
        (\<exists>k \<le> n. (q = None \<longleftrightarrow> k = n) \<and> active_count rs (?L s1) = cnt + k)"
      unfolding assms(5)
      by (rule launch_loop_correct [OF assms(1,2) _ _ q]) (use assms(8,9) in \<open>simp_all add: atLeast0LessThan\<close>)
    have R: "RS_Reconcile PM store draw rs s = (case q of Some e \<Rightarrow> (q, s1) |
        None \<Rightarrow> (None, store (rs_with_status (wrap32 (int (length (filter (pod_active rs) (?L s1)))))
          (wrap32 (int (length (filter (\<lambda>p. pod_active rs p \<and> first_ready p) (?L s1))))) rs) s1))"
      using up q by (simp add: RS_Reconcile_def Let_def scan_pods_start w d assms(7) split: option.splits)
    show ?thesis
    proof (cases q)
      case None
      then have "r = None" "inv s' \<and> ?L s' = ?L s1" using R assms(10) ll store by auto
      then show ?thesis using ll None up assms(7) by auto
    next
      case (Some e)
      then have "r = Some e" "s' = s1" using R assms(10) by auto
      then show ?thesis using ll Some up assms(7) by auto
    qed
  next
    case down
    have d: "wrap32 (int cnt - rs_desired rs) = int cnt - rs_desired rs"
      by (rule wrap32_id) (use assms(3,6) down in \<open>simp add: in32_def\<close>)
    let ?n = "nat (int cnt - rs_desired rs)"
    note names = list_names [OF assms(1,2)]
    have le: "?n \<le> length ?act" using assms(3) by (simp add: cnt)
    obtain s1 where s1: "delete_loop PM ?act 0 ?n s = (None, s1)" "inv s1"
        "mset (?L s1) = filter_mset (\<lambda>p. pod_name p \<notin> pod_name ` set (take ?n (rev ?act))) (mset (?L s))"
      using delete_loop_correct [OF assms(1,2), of ?act 0 ?n] names le by auto
    have "r = None" "inv s' \<and> ?L s' = ?L s1"
      using assms(10) down s1 store by (auto simp: RS_Reconcile_def Let_def scan_pods_start w d)
    then show ?thesis
      using delete_last [OF conjunct1 [OF names] refl le s1(3)] down assms(3) by (simp add: cnt)
  next
    case same
    then have "r = None" "inv s' \<and> ?L s' = ?L s"
      using assms(1,10) store by (auto simp: RS_Reconcile_def Let_def scan_pods_start w)
    then show ?thesis using same assms(5) by simp
  qed
qed

end

section \<open>Properties\<close>

text \<open>C29: A replica set that asks for a negative number of replicas and has no active pod makes its
  controller panic: the loop that deletes pods runs past the beginning of an empty slice.  The one
  exception is the smallest 32-bit number, whose difference overflows.\<close>

theorem negative_replicas_panic:
  assumes "- (2 ^ 31) \<le> rs_desired rs" "rs_desired rs < 0" "active_count rs (pm_ListPods PM (rs_ns rs) s) = 0"
  shows "fst (RS_Reconcile PM store draw rs s) =
    (if rs_desired rs = - (2 ^ 31) then None else Some (EPanicIndex (- 1) 0))"
proof -
  have act: "filter (pod_active rs) (pm_ListPods PM (rs_ns rs) s) = []" using assms(3) by (simp add: active_count_def)
  have w0: "wrap32 0 = 0" by (simp add: in32_def)
  have R: "RS_Reconcile PM store draw rs s =
      (case delete_loop PM [] 0 (nat (wrap32 (- rs_desired rs))) s of (Some e, s1) \<Rightarrow> (Some e, s1)
       | (None, s1) \<Rightarrow> (None, store (rs_with_status (rs_desired rs)
           (wrap32 (int (length (filter (\<lambda>p. pod_active rs p \<and> first_ready p) (pm_ListPods PM (rs_ns rs) s))))) rs) s1))"
    using assms(2) by (simp add: RS_Reconcile_def Let_def scan_pods_start act w0)
  show ?thesis
  proof (cases "rs_desired rs = - (2 ^ 31)")
    case True
    have "nat (wrap32 (- rs_desired rs)) = 0" unfolding True by code_simp
    then show ?thesis using True by (simp add: R)
  next
    case False
    have "wrap32 (- rs_desired rs) = - rs_desired rs"
      by (rule wrap32_id) (use assms(1,2) False in \<open>simp add: in32_def\<close>)
    then obtain m where "nat (wrap32 (- rs_desired rs)) = Suc m" using assms(2) by (cases "nat (- rs_desired rs)") auto
    then show ?thesis using False by (simp add: R)
  qed
qed

definition no_pods :: "unit PodManager" where
  "no_pods = \<lparr>pm_LaunchPod = (\<lambda>pod s. (None, s)), pm_DeletePod = (\<lambda>ns n s. (None, s)), pm_ListPods = (\<lambda>ns s. [])\<rparr>"

theorem negative_replicas_panic_witness:
  "fst (RS_Reconcile no_pods (\<lambda>rs s. s) (\<lambda>i. (None, [], 0))
     (zero_ReplicaSet\<lparr>rs_Spec := (rs_Spec zero_ReplicaSet)\<lparr>rss_Replicas := Some (- 1)\<rparr>\<rparr>) ()) = Some (EPanicIndex (- 1) 0)"
  using negative_replicas_panic [of "zero_ReplicaSet\<lparr>rs_Spec := (rs_Spec zero_ReplicaSet)\<lparr>rss_Replicas := Some (- 1)\<rparr>\<rparr>"
      no_pods "()" "\<lambda>rs s. s" "\<lambda>i. (None, [], 0)"]
  by (simp add: rs_desired_def active_count_def no_pods_def)

end
