(* ===== verification/Rollout.thy ===== *)
theory Rollout
  imports Controllers
begin

text \<open>
  Correctness of the deployment controller: what one reconciliation does to the replica sets of
  the deployment while there are replica sets of older templates, and when there are none.
\<close>

section \<open>The replica sets of the store by key\<close>

definition rs_at :: "'b ctl \<Rightarrow> string \<Rightarrow> ReplicaSet option" where
  "rs_at x key = tlookup (ctl_replicaSets (fst x)) key"

abbreviation rs_key :: "ReplicaSet \<Rightarrow> string" where
  "rs_key rs \<equiv> meta_key (rs_Metadata rs)"

definition rs_wf :: "'b ctl \<Rightarrow> bool" where
  "rs_wf x = kv_wf rs_Metadata (rs_kv x)"

text \<open>The replicas the store asks of a replica set (0 when it is not there).\<close>

definition asked :: "'b ctl \<Rightarrow> ReplicaSet \<Rightarrow> int" where
  "asked x rs = (case rs_at x (rs_key rs) of None \<Rightarrow> 0 | Some rs' \<Rightarrow> rs_replicas rs')"

lemma rs_at_store [simp]:
  "rs_at (StoreReplicaSet G rs x) k = (if k = rs_key rs then Some rs else rs_at x k)"
  by (simp add: rs_at_def StoreReplicaSet_def Let_def kv_put_def meta_key_def obj_key_def)

lemma rs_at_dep [simp]: "rs_at (StoreDeployment G dep x) k = rs_at x k"
  by (simp add: rs_at_def StoreDeployment_def Let_def)

lemma rs_wf_store: "rs_wf x \<Longrightarrow> rs_wf (StoreReplicaSet G rs x)"
  unfolding rs_wf_def by (rule rss.invar_put)

lemma ListReplicaSets_at: "rs_wf x \<Longrightarrow> rs \<in> set (ListReplicaSets ns x) \<longleftrightarrow>
    (ns = [] \<or> om_Namespace (rs_Metadata rs) = ns) \<and> rs_at x (rs_key rs) = Some rs"
  unfolding rs_wf_def
  by (simp add: rss.lst_iff) (simp add: LoadReplicaSet_def rs_at_def meta_key_def obj_key_def)

lemma ListReplicaSets_keys: "rs_wf x \<Longrightarrow> distinct (map rs_key (ListReplicaSets ns x))"
proof -
  assume wf: "rs_wf x"
  let ?t = "ctl_replicaSets (fst x)"
  have d: "distinct (map fst ?t)" and k: "\<And>k rs. tlookup ?t k = Some rs \<Longrightarrow> k = rs_key rs"
    using wf by (simp_all add: rs_wf_def kv_wf_def rs_kv_def tdistinct_def)
  have "map fst ?t = map (rs_key \<circ> snd) ?t"
  proof (rule map_cong [OF refl])
    fix kv assume "kv \<in> set ?t"
    then show "fst kv = (rs_key \<circ> snd) kv" using k [of "fst kv" "snd kv"] d by simp
  qed
  then have "distinct (map rs_key (map snd ?t))" using d by (simp only: map_map)
  then show ?thesis unfolding ListReplicaSets_def by (rule distinct_map_filter)
qed

section \<open>Splitting the replica sets\<close>

definition dep_owns :: "Deployment \<Rightarrow> ReplicaSet \<Rightarrow> bool" where
  "dep_owns dep rs \<longleftrightarrow> owned_by (dep_owner dep) (om_Annotations (rs_Metadata rs))"

lemma split_rss_spec:
  assumes "split_rss (dep_owner dep) hash rss new0 old0 = (found, olds)"
  shows "olds = old0 @ filter (\<lambda>rs. dep_owns dep rs \<and> \<not> has_hash hash rs) rss"
    "found = None \<longleftrightarrow> new0 = None \<and> (\<forall>rs \<in> set rss. dep_owns dep rs \<longrightarrow> \<not> has_hash hash rs)"
    "found = Some rs \<Longrightarrow> new0 = Some rs \<or> rs \<in> set rss \<and> dep_owns dep rs \<and> has_hash hash rs"
  using assms
  by (induction "dep_owner dep" hash rss new0 old0 rule: split_rss.induct)
    (auto simp: dep_owns_def split: if_splits)

section \<open>Scaling the old replica sets down\<close>

text \<open>What the loop asks of each old replica set, as a function on numbers.\<close>

fun shares :: "int \<Rightarrow> int list \<Rightarrow> int list" where
  "shares left [] = []"
| "shares left (c # cs) = min c left # shares (max 0 (left - min c left)) cs"

lemma shares_length [simp]: "length (shares left cs) = length cs"
  by (induction left cs rule: shares.induct) auto

lemma shares_le: "i < length cs \<Longrightarrow> shares left cs ! i \<le> cs ! i"
  by (induction left cs arbitrary: i rule: shares.induct) (auto simp: less_Suc_eq_0_disj)

lemma shares_nonneg: "0 \<le> left \<Longrightarrow> \<forall>c \<in> set cs. 0 \<le> c \<Longrightarrow> i < length cs \<Longrightarrow> 0 \<le> shares left cs ! i"
  by (induction left cs arbitrary: i rule: shares.induct) (auto simp: less_Suc_eq_0_disj)

lemma shares_sum:
  "0 \<le> left \<Longrightarrow> \<forall>c \<in> set cs. 0 \<le> c \<Longrightarrow> sum_list (shares left cs) = min (sum_list cs) left"
proof (induction left cs rule: shares.induct)
  case (2 left c cs)
  then have IH: "sum_list (shares (max 0 (left - min c left)) cs) = min (sum_list cs) (max 0 (left - min c left))"
    by simp
  have "0 \<le> c" "0 \<le> sum_list cs" using 2(3) by (auto intro: sum_list_nonneg)
  then show ?case using IH 2(2) by (simp add: min_def max_def)
qed simp

lemma set_replicas_simps [simp]:
  "rs_Metadata (set_replicas n rs) = rs_Metadata rs" "rs_replicas (set_replicas n rs) = n"
  by (simp_all add: set_replicas_def rs_replicas_def)

lemma scale_old_effect:
  assumes "0 \<le> left" "left < 2 ^ 31" "\<forall>rs \<in> set rss. 0 \<le> rs_replicas rs" "distinct (map rs_key rss)"
  shows "map (\<lambda>rs. rs_at (scale_old G left rss x) (rs_key rs)) rss =
      map2 (\<lambda>rs n. Some (set_replicas n rs)) rss (shares left (map rs_replicas rss)) \<and>
    (\<forall>k. k \<notin> rs_key ` set rss \<longrightarrow> rs_at (scale_old G left rss x) k = rs_at x k)"
  using assms
proof (induction rss arbitrary: left x)
  case (Cons rs rss)
  let ?c = "min (rs_replicas rs) left"
  let ?x = "StoreReplicaSet G (set_replicas ?c rs) x"
  have w: "wrap32 (left - ?c) = left - ?c"
    by (rule wrap32_id) (use Cons.prems(1-3) in \<open>auto simp: in32_def min_def\<close>)
  have sc: "scale_old G left (rs # rss) x = scale_old G (max 0 (left - ?c)) rss ?x"
    using Cons.prems(1-3) w by (auto simp: Let_def min_def max_def not_less)
  have p: "0 \<le> max 0 (left - ?c)" "max 0 (left - ?c) < 2 ^ 31" "\<forall>rs \<in> set rss. 0 \<le> rs_replicas rs"
      "distinct (map rs_key rss)" "rs_key rs \<notin> rs_key ` set rss"
    using Cons.prems by (auto simp: min_def)
  show ?case using Cons.IH [OF p(1-4), of ?x] p(5) unfolding sc by simp
qed simp

lemma scale_old_asked:
  assumes "0 \<le> left" "left < 2 ^ 31" "\<forall>rs \<in> set rss. 0 \<le> rs_replicas rs" "distinct (map rs_key rss)"
  shows "map (asked (scale_old G left rss x)) rss = shares left (map rs_replicas rss)"
proof -
  note eff = conjunct1 [OF scale_old_effect [OF assms, of G x]]
  have "map (asked (scale_old G left rss x)) rss =
      map (\<lambda>o'. case o' of None \<Rightarrow> 0 | Some rs \<Rightarrow> rs_replicas rs)
        (map (\<lambda>rs. rs_at (scale_old G left rss x) (rs_key rs)) rss)"
    by (simp add: asked_def)
  also have "\<dots> = shares left (map rs_replicas rss)"
    unfolding eff by (rule nth_equalityI) simp_all
  finally show ?thesis .
qed

section \<open>One reconciliation\<close>

lemma Dep_Reconcile_rs_at:
  assumes "hash = hashTemplateSpec marshal (ds_Template (dep_Spec dep))"
    and "split_rss (dep_owner dep) hash (ListReplicaSets (om_Namespace (dep_Metadata dep)) x) None [] = (found, olds)"
  shows "rs_at (Dep_Reconcile G marshal now dep x) k =
    (let newRS = (case found of Some rs \<Rightarrow> rs
         | None \<Rightarrow> new_rs dep hash (if olds = [] then dep_desired dep else 0) now);
         x1 = (case found of Some rs \<Rightarrow> x | None \<Rightarrow> StoreReplicaSet G newRS x)
     in rs_at (if olds \<noteq> [] then rollout G (dep_desired dep) newRS olds x1
               else scale_new G (dep_desired dep) newRS x1) k)"
  unfolding Dep_Reconcile_def assms(1) [symmetric]
  by (simp only: Let_def assms(2) prod.case) (cases found; simp add: case_prod_beta)

lemma rollout_effect:
  assumes "0 \<le> desired" "desired < 2 ^ 31" "in32 (rs_replicas newRS)"
    and "0 \<le> rst_ReadyReplicas (rs_Status newRS)" "rst_ReadyReplicas (rs_Status newRS) < 2 ^ 31"
    and "\<forall>rs \<in> set olds. 0 \<le> rs_replicas rs" "distinct (map rs_key olds)"
    and "rs_key newRS \<notin> rs_key ` set olds" "rs_at x (rs_key newRS) = Some newRS"
    and "x' = rollout G desired newRS olds x" "left = max 0 (desired - rst_ReadyReplicas (rs_Status newRS))"
  shows "asked x' newRS = (if rs_replicas newRS < desired then rs_replicas newRS + 1 else rs_replicas newRS)"
    "map (asked x') olds = shares left (map rs_replicas olds)"
    "k \<notin> rs_key ` set (newRS # olds) \<Longrightarrow> rs_at x' k = rs_at x k"
proof -
  let ?x1 = "if rs_replicas newRS < desired
    then StoreReplicaSet G (set_replicas (rs_replicas newRS + 1) newRS) x else x"
  have w1: "wrap32 (rs_replicas newRS + 1) = rs_replicas newRS + 1" if "rs_replicas newRS < desired"
    by (rule wrap32_id) (use that assms(2,3) in \<open>simp add: in32_def\<close>)
  have w2: "wrap32 (desired - rst_ReadyReplicas (rs_Status newRS)) = desired - rst_ReadyReplicas (rs_Status newRS)"
    by (rule wrap32_id) (use assms(1,2,4,5) in \<open>simp add: in32_def\<close>)
  have left: "0 \<le> left" "left < 2 ^ 31" using assms(1,2,4,11) by auto
  have x': "x' = scale_old G left olds ?x1"
    unfolding assms(10,11) rollout_def Let_def w2 by (simp add: w1 max_def)
  note eff = conjunct2 [OF scale_old_effect [OF left assms(6,7), of G ?x1], folded x']
  show "asked x' newRS = (if rs_replicas newRS < desired then rs_replicas newRS + 1 else rs_replicas newRS)"
    using eff assms(8,9) by (simp add: asked_def)
  show "map (asked x') olds = shares left (map rs_replicas olds)"
    unfolding x' by (rule scale_old_asked [OF left assms(6,7)])
  show "k \<notin> rs_key ` set (newRS # olds) \<Longrightarrow> rs_at x' k = rs_at x k"
    using eff by simp
qed

text \<open>The copied labels of the selector keep the hash, unless they name it.\<close>

lemma mput_all_other: "k \<notin> fst ` set kvs \<Longrightarrow> mlookup (mput_all kvs m) k = mlookup m k"
  by (induction kvs arbitrary: m) (auto simp: mput_all_def)

lemma new_rs_has_hash:
  "case ds_Selector (dep_Spec dep) of None \<Rightarrow> has_hash hash (new_rs dep hash n now)
   | Some sel \<Rightarrow> ''pod-template-hash'' \<in> fst ` set (mentries (ls_MatchLabels sel)) \<or>
       has_hash hash (new_rs dep hash n now)"
proof (cases "ds_Selector (dep_Spec dep)")
  case None
  then show ?thesis by (simp add: has_hash_def new_rs_def mget_def mlookup_def)
next
  case (Some sel)
  let ?kvs = "mentries (ls_MatchLabels sel)" and ?m = "Some [(''pod-template-hash'', hash)]"
  have "mlookup (mput_all ?kvs ?m) ''pod-template-hash'' = Some hash" if "''pod-template-hash'' \<notin> fst ` set ?kvs"
    using mput_all_other [OF that, of ?m] by (simp add: mlookup_def)
  then have "''pod-template-hash'' \<in> fst ` set ?kvs \<or>
      mput_all ?kvs ?m \<noteq> None \<and> mget (mput_all ?kvs ?m) ''pod-template-hash'' = hash"
    by (auto simp: mget_def mlookup_def split: option.splits)
  then show ?thesis using Some by (simp add: has_hash_def new_rs_def)
qed

lemma reconcile_rolling:
  assumes "rs_wf x" "hash = hashTemplateSpec marshal (ds_Template (dep_Spec dep))"
    and "split_rss (dep_owner dep) hash (ListReplicaSets (om_Namespace (dep_Metadata dep)) x) None [] =
      (Some newRS, olds)" "olds \<noteq> []"
    and "0 \<le> dep_desired dep" "dep_desired dep < 2 ^ 31" "in32 (rs_replicas newRS)"
    and "ready = rst_ReadyReplicas (rs_Status newRS)" "0 \<le> ready" "ready < 2 ^ 31"
    and "\<forall>rs \<in> set olds. 0 \<le> rs_replicas rs"
    and "x' = Dep_Reconcile G marshal now dep x"
  shows "asked x' newRS =
      (if rs_replicas newRS < dep_desired dep then rs_replicas newRS + 1 else rs_replicas newRS) \<and>
    sum_list (map (asked x') olds) = min (sum_list (map rs_replicas olds)) (max 0 (dep_desired dep - ready)) \<and>
    (\<forall>rs \<in> set olds. 0 \<le> asked x' rs \<and> asked x' rs \<le> rs_replicas rs) \<and>
    (dep_desired dep \<le> sum_list (map rs_replicas olds) + ready \<longrightarrow>
       dep_desired dep \<le> sum_list (map (asked x') olds) + ready) \<and>
    (\<forall>k. k \<notin> rs_key ` set (newRS # olds) \<longrightarrow> rs_at x' k = rs_at x k)"
proof -
  let ?L = "ListReplicaSets (om_Namespace (dep_Metadata dep)) x" and ?left = "max 0 (dep_desired dep - ready)"
  note sp = split_rss_spec [OF assms(3)]
  have olds: "olds = filter (\<lambda>rs. dep_owns dep rs \<and> \<not> has_hash hash rs) ?L" using sp(1) by simp
  have new: "newRS \<in> set ?L" "has_hash hash newRS" using sp(3) [of newRS] by auto
  have dk: "distinct (map rs_key ?L)" by (rule ListReplicaSets_keys [OF assms(1)])
  have inj: "inj_on rs_key (set ?L)" using dk by (simp add: distinct_map)
  have notin: "rs_key newRS \<notin> rs_key ` set olds"
    using inj_on_image_mem_iff [OF inj new(1), of "set olds"] new(2) by (auto simp: olds)
  have at: "rs_at x (rs_key newRS) = Some newRS" using new(1) ListReplicaSets_at [OF assms(1)] by blast
  have r: "rs_at x' k = rs_at (rollout G (dep_desired dep) newRS olds x) k" for k
    unfolding assms(12) by (simp add: Dep_Reconcile_rs_at [OF assms(2,3)] assms(4))
  then have as: "asked x' = asked (rollout G (dep_desired dep) newRS olds x)" by (simp add: asked_def fun_eq_iff)
  note eff = rollout_effect [OF assms(5,6,7) _ _ assms(11) _ notin at refl refl, where G = G,
      folded assms(8), OF assms(9,10), folded r as]
  have dd: "distinct (map rs_key olds)" unfolding olds by (rule distinct_map_filter [OF dk])
  have sh: "map (asked x') olds = shares ?left (map rs_replicas olds)" by (rule eff(2) [OF dd])
  have nn: "\<forall>c \<in> set (map rs_replicas olds). 0 \<le> c" using assms(11) by simp
  have sum: "sum_list (map (asked x') olds) = min (sum_list (map rs_replicas olds)) ?left"
    unfolding sh by (rule shares_sum [OF _ nn]) simp
  have each: "0 \<le> asked x' rs \<and> asked x' rs \<le> rs_replicas rs" if "rs \<in> set olds" for rs
  proof -
    obtain i where i: "i < length olds" "olds ! i = rs" using \<open>rs \<in> set olds\<close> by (auto simp: in_set_conv_nth)
    have "asked x' rs = shares ?left (map rs_replicas olds) ! i" using i arg_cong [OF sh, of "\<lambda>l. l ! i"] by simp
    then show ?thesis
      using shares_le [of i "map rs_replicas olds" ?left] shares_nonneg [OF _ nn, of ?left i] i by simp
  qed
  show ?thesis using eff(1) [OF dd] eff(3) [OF dd] sum each by (auto simp: min_def max_def)
qed

section \<open>Properties\<close>

text \<open>C13: One step of a rollout.  While a deployment has replica sets of older templates, each
  reconciliation asks one more replica of the new replica set until it has all that are wanted,
  and scales the old ones down, none of them up, so that together they keep what the ready
  replicas of the new one do not cover: if old and ready replicas made up the wanted number, they
  still do.  No other replica set is touched.\<close>

theorem rollout_step:
  assumes "rs_wf x" "hash = hashTemplateSpec marshal (ds_Template (dep_Spec dep))"
    and "split_rss (dep_owner dep) hash (ListReplicaSets (om_Namespace (dep_Metadata dep)) x) None [] =
      (Some newRS, olds)" "olds \<noteq> []"
    and "0 \<le> dep_desired dep" "dep_desired dep < 2 ^ 31" "in32 (rs_replicas newRS)"
    and "ready = rst_ReadyReplicas (rs_Status newRS)" "0 \<le> ready" "ready < 2 ^ 31"
    and "\<forall>rs \<in> set olds. 0 \<le> rs_replicas rs"
    and "x' = Dep_Reconcile G marshal now dep x"
  shows "asked x' newRS =
      (if rs_replicas newRS < dep_desired dep then rs_replicas newRS + 1 else rs_replicas newRS) \<and>
    sum_list (map (asked x') olds) = min (sum_list (map rs_replicas olds)) (max 0 (dep_desired dep - ready)) \<and>
    (\<forall>rs \<in> set olds. 0 \<le> asked x' rs \<and> asked x' rs \<le> rs_replicas rs) \<and>
    (dep_desired dep \<le> sum_list (map rs_replicas olds) + ready \<longrightarrow>
       dep_desired dep \<le> sum_list (map (asked x') olds) + ready) \<and>
    (\<forall>k. k \<notin> rs_key ` set (newRS # olds) \<longrightarrow> rs_at x' k = rs_at x k)"
  using reconcile_rolling [OF assms] .

definition demo_rs :: "string \<Rightarrow> string \<Rightarrow> int \<Rightarrow> int \<Rightarrow> ReplicaSet" where
  "demo_rs name hash replicas ready = zero_ReplicaSet
     \<lparr>rs_Metadata := zero_ObjectMeta\<lparr>om_Name := name, om_Namespace := ''default'',
        om_Labels := Some [(''pod-template-hash'', hash)],
        om_Annotations := Some [(''lok8s.io/owner'', ''Deployment/web'')]\<rparr>,
      rs_Spec := \<lparr>rss_Replicas = Some replicas, rss_Selector = None, rss_Template = zero_PodTemplateSpec\<rparr>,
      rs_Status := zero_ReplicaSetStatus\<lparr>rst_Replicas := replicas, rst_ReadyReplicas := ready\<rparr>\<rparr>"

definition demo_dep :: "int \<Rightarrow> Deployment" where
  "demo_dep replicas = zero_Deployment
     \<lparr>dep_Metadata := zero_ObjectMeta\<lparr>om_Name := ''web'', om_Namespace := ''default''\<rparr>,
      dep_Spec := \<lparr>ds_Replicas = Some replicas, ds_Selector = None, ds_Template = zero_PodTemplateSpec\<rparr>\<rparr>"

definition demo_ctl :: "ReplicaSet list \<Rightarrow> mem_db ctl" where
  "demo_ctl rss = (\<lparr>ctl_deployments = [], ctl_replicaSets = map (\<lambda>rs. (rs_key rs, rs)) rss\<rparr>, Some empty_db)"

definition demo_marshal :: "PodSpec \<Rightarrow> bytes" where
  "demo_marshal spec = ''{}''"

lemma demo_hash: "hashTemplateSpec demo_marshal t = ''5465b825''"
proof -
  have f: "fnv1a ''{}'' = 0x5465b825" by (simp add: fnv1a_def)
  have "unat (0x5465b825 :: 32 word) = 0x5465b825" by simp
  then show ?thesis
    by (simp add: hashTemplateSpec_def demo_marshal_def f) (simp add: hex_nat.simps hex_digit_def)
qed

lemma demo_ctl_wf: "distinct (map rs_key rss) \<Longrightarrow> rs_wf (demo_ctl rss)"
  by (auto simp: rs_wf_def kv_wf_def rs_kv_def demo_ctl_def tdistinct_def comp_def dest!: map_of_SomeD)

theorem rollout_step_witness:
  "let newRS = demo_rs ''web-5465b825'' ''5465b825'' 1 1; old = demo_rs ''web-old'' ''old'' 3 3;
       x' = Dep_Reconcile demo_storage demo_marshal 7 (demo_dep 3) (demo_ctl [old, newRS])
   in asked x' newRS = 2 \<and> asked x' old = 2"
proof -
  let ?new = "demo_rs ''web-5465b825'' ''5465b825'' 1 1" and ?old = "demo_rs ''web-old'' ''old'' 3 3"
  have k: "rs_key (demo_rs n h i j) = ''default/'' @ n" for n h i j
    by (simp add: demo_rs_def meta_key_def obj_key_def)
  have r: "rs_replicas (demo_rs n h i j) = i" "rst_ReadyReplicas (rs_Status (demo_rs n h i j)) = j" for n h i j
    by (simp_all add: demo_rs_def rs_replicas_def)
  have d: "dep_desired (demo_dep 3) = 3" by (simp add: demo_dep_def dep_desired_def)
  have sp: "split_rss (dep_owner (demo_dep 3)) ''5465b825''
      (ListReplicaSets (om_Namespace (dep_Metadata (demo_dep 3))) (demo_ctl [?old, ?new])) None [] = (Some ?new, [?old])"
    by code_simp
  show ?thesis
    using rollout_step [OF demo_ctl_wf demo_hash [symmetric] sp _ _ _ _ refl _ _ _ refl, of demo_storage 7]
    by (simp add: k r d in32_def)
qed

text \<open>With no replica set of an older template, one reconciliation leaves the deployment with a
  replica set of its template that asks for exactly the wanted number of replicas, and touches no
  other.  A replica set made for it is recognised by the next reconciliation, unless the selector
  of the deployment names the label that holds the hash.\<close>

theorem steady_step:
  assumes "rs_wf x" "hash = hashTemplateSpec marshal (ds_Template (dep_Spec dep))"
    and "split_rss (dep_owner dep) hash (ListReplicaSets (om_Namespace (dep_Metadata dep)) x) None [] = (found, [])"
    and "newRS = (case found of Some rs \<Rightarrow> rs | None \<Rightarrow> new_rs dep hash (dep_desired dep) now)"
    and "x' = Dep_Reconcile G marshal now dep x"
  shows "(\<exists>rs. rs_at x' (rs_key newRS) = Some rs \<and> rs_replicas rs = dep_desired dep \<and>
       rs_Metadata rs = rs_Metadata newRS \<and> dep_owns dep rs \<and>
       (case ds_Selector (dep_Spec dep) of None \<Rightarrow> has_hash hash rs
        | Some sel \<Rightarrow> ''pod-template-hash'' \<in> fst ` set (mentries (ls_MatchLabels sel)) \<or> has_hash hash rs)) \<and>
    (\<forall>k. k \<noteq> rs_key newRS \<longrightarrow> rs_at x' k = rs_at x k)"
proof -
  note at = Dep_Reconcile_rs_at [OF assms(2,3), of G now, folded assms(5)]
  show ?thesis
  proof (cases found)
    case (Some rs)
    then have rs: "newRS = rs" "rs_at x (rs_key rs) = Some rs" "dep_owns dep rs" "has_hash hash rs"
      using assms(4) split_rss_spec(3) [OF assms(3)] ListReplicaSets_at [OF assms(1)] by auto
    have m: "has_hash hash (set_replicas n rs) = has_hash hash rs" "dep_owns dep (set_replicas n rs) = dep_owns dep rs" for n
      by (simp_all add: has_hash_def dep_owns_def)
    show ?thesis using rs m by (simp add: at Some scale_new_def split: option.splits)
  next
    case None
    have new: "newRS = new_rs dep hash (dep_desired dep) now" using assms(4) None by simp
    have r: "rs_replicas newRS = dep_desired dep" "dep_owns dep newRS"
      by (simp_all add: new new_rs_def rs_replicas_def dep_owns_def owned_by_def mget_def mlookup_def)
    have h: "case ds_Selector (dep_Spec dep) of None \<Rightarrow> has_hash hash newRS
        | Some sel \<Rightarrow> ''pod-template-hash'' \<in> fst ` set (mentries (ls_MatchLabels sel)) \<or> has_hash hash newRS"
      unfolding new by (rule new_rs_has_hash)
    show ?thesis using r h unfolding new by (simp add: at None scale_new_def)
  qed
qed

theorem steady_step_witness:
  "\<exists>rs. rs_at (Dep_Reconcile demo_storage demo_marshal 7 (demo_dep 3) (demo_ctl [])) ''default/web-5465b825'' = Some rs \<and>
     rs_replicas rs = 3"
proof -
  have sp: "split_rss (dep_owner (demo_dep 3)) ''5465b825''
      (ListReplicaSets (om_Namespace (dep_Metadata (demo_dep 3))) (demo_ctl [])) None [] = (None, [])"
    by (simp add: demo_ctl_def ListReplicaSets_def)
  have "rs_key (new_rs (demo_dep 3) ''5465b825'' n 7) = ''default/web-5465b825''" for n
    by (simp add: new_rs_def demo_dep_def meta_key_def obj_key_def)
  then show ?thesis
    using steady_step [OF demo_ctl_wf demo_hash [symmetric] sp refl refl, of demo_storage 7]
    by (auto simp: demo_dep_def dep_desired_def)
qed

end
