(* ===== verification/Rollout_Live.thy ===== *)
theory Rollout_Live
  imports Rollout
begin

text \<open>
  A rollout over many reconciliations: with pods that become ready it completes, and afterwards the
  deployment cannot be scaled down any more, because its old replica sets stay in the store.
\<close>

section \<open>What a reconciliation keeps\<close>

definition same_meta :: "'b ctl \<Rightarrow> 'b ctl \<Rightarrow> bool" where
  "same_meta x y \<longleftrightarrow> (\<forall>k. map_option rs_Metadata (rs_at y k) = map_option rs_Metadata (rs_at x k))"

lemma same_meta_trans: "same_meta x y \<Longrightarrow> same_meta y z \<Longrightarrow> same_meta x z"
  by (simp add: same_meta_def)

lemma same_metaD: "same_meta x y \<Longrightarrow> rs_at x k = Some rs \<Longrightarrow> \<exists>rs'. rs_at y k = Some rs' \<and> rs_Metadata rs' = rs_Metadata rs"
  unfolding same_meta_def by (metis map_option_eq_Some)

lemma same_meta_sym: "same_meta x y \<Longrightarrow> same_meta y x"
  by (simp add: same_meta_def)

lemma same_meta_store:
  "map_option rs_Metadata (rs_at x (rs_key rs)) = Some (rs_Metadata rs) \<Longrightarrow> same_meta x (StoreReplicaSet G (set_replicas n rs) x)"
  by (auto simp: same_meta_def)

lemma scale_old_keeps:
  "rs_wf x \<Longrightarrow> \<forall>rs \<in> set rss. map_option rs_Metadata (rs_at x (rs_key rs)) = Some (rs_Metadata rs) \<Longrightarrow>
   rs_wf (scale_old G left rss x) \<and> same_meta x (scale_old G left rss x)"
proof (induction rss arbitrary: left x)
  case (Cons rs rss)
  let ?c = "if rs_replicas rs > left then left else rs_replicas rs"
  let ?x = "StoreReplicaSet G (set_replicas ?c rs) x"
  have m: "same_meta x ?x" using Cons.prems(2) by (intro same_meta_store) simp
  have "\<forall>rs \<in> set rss. map_option rs_Metadata (rs_at ?x (rs_key rs)) = Some (rs_Metadata rs)"
    using Cons.prems(2) m unfolding same_meta_def by (metis list.set_intros(2))
  then show ?case using Cons.IH [of ?x] rs_wf_store [OF Cons.prems(1), of G "set_replicas ?c rs"] same_meta_trans [OF m]
    by (simp add: Let_def)
qed (simp add: same_meta_def)

lemma rs_wf_StoreDeployment [simp]: "rs_wf (StoreDeployment G dep x) = rs_wf x"
  by (simp add: rs_wf_def rs_kv_def StoreDeployment_def Let_def kv_wf_def)

section \<open>A deployment that rolls out\<close>

text \<open>
  The replica sets of the deployment by key: \<open>kn\<close> is the one of its template, \<open>ko\<close> are the others.
\<close>

definition num :: "'b ctl \<Rightarrow> string \<Rightarrow> int" where
  "num x k = (case rs_at x k of None \<Rightarrow> 0 | Some rs \<Rightarrow> rs_replicas rs)"

definition num_ready :: "'b ctl \<Rightarrow> string \<Rightarrow> int" where
  "num_ready x k = (case rs_at x k of None \<Rightarrow> 0 | Some rs \<Rightarrow> rst_ReadyReplicas (rs_Status rs))"

definition of_dep :: "Deployment \<Rightarrow> ReplicaSet \<Rightarrow> bool" where
  "of_dep dep rs \<longleftrightarrow> om_Namespace (rs_Metadata rs) = om_Namespace (dep_Metadata dep) \<and> dep_owns dep rs"

definition dep_hash :: "(PodSpec \<Rightarrow> bytes) \<Rightarrow> Deployment \<Rightarrow> string" where
  "dep_hash marshal dep = hashTemplateSpec marshal (ds_Template (dep_Spec dep))"

definition rolling :: "(PodSpec \<Rightarrow> bytes) \<Rightarrow> Deployment \<Rightarrow> string \<Rightarrow> string set \<Rightarrow> 'b ctl \<Rightarrow> bool" where
  "rolling marshal dep kn ko x \<longleftrightarrow> rs_wf x \<and> om_Namespace (dep_Metadata dep) \<noteq> [] \<and> ko \<noteq> {} \<and>
     {k. \<exists>rs. rs_at x k = Some rs \<and> of_dep dep rs \<and> has_hash (dep_hash marshal dep) rs} = {kn} \<and>
     {k. \<exists>rs. rs_at x k = Some rs \<and> of_dep dep rs \<and> \<not> has_hash (dep_hash marshal dep) rs} = ko \<and>
     0 \<le> dep_desired dep \<and> dep_desired dep < 2 ^ 31 \<and>
     0 \<le> num x kn \<and> num x kn < 2 ^ 31 \<and> 0 \<le> num_ready x kn \<and> num_ready x kn < 2 ^ 31 \<and>
     (\<forall>k \<in> ko. 0 \<le> num x k)"

lemma of_dep_meta: "rs_Metadata rs = rs_Metadata rs' \<Longrightarrow> of_dep dep rs = of_dep dep rs' \<and> has_hash h rs = has_hash h rs'"
  by (simp add: of_dep_def dep_owns_def has_hash_def)

lemma same_meta_keys:
  assumes "same_meta x y"
  shows "{k. \<exists>rs. rs_at y k = Some rs \<and> of_dep dep rs \<and> (has_hash h rs = b)} =
    {k. \<exists>rs. rs_at x k = Some rs \<and> of_dep dep rs \<and> (has_hash h rs = b)}"
  using same_metaD [OF assms] same_metaD [OF same_meta_sym [OF assms]] of_dep_meta by (safe; metis)

text \<open>The first loop of the reconciliation finds them.\<close>

lemma rolling_split:
  assumes "rolling marshal dep kn ko x"
  obtains newRS olds where "split_rss (dep_owner dep) (dep_hash marshal dep)
      (ListReplicaSets (om_Namespace (dep_Metadata dep)) x) None [] = (Some newRS, olds)"
    "rs_at x kn = Some newRS" "rs_key newRS = kn" "distinct (map rs_key olds)" "rs_key ` set olds = ko"
    "\<And>rs. rs \<in> set olds \<Longrightarrow> rs_at x (rs_key rs) = Some rs"
proof -
  let ?L = "ListReplicaSets (om_Namespace (dep_Metadata dep)) x" and ?h = "dep_hash marshal dep"
  have wf: "rs_wf x" and ns: "om_Namespace (dep_Metadata dep) \<noteq> []" using assms by (simp_all add: rolling_def)
  have L: "rs \<in> set ?L \<and> dep_owns dep rs \<longleftrightarrow> rs_at x (rs_key rs) = Some rs \<and> of_dep dep rs" for rs
    using ListReplicaSets_at [OF wf, of rs] ns by (auto simp: of_dep_def)
  have key: "k = rs_key rs" if "rs_at x k = Some rs" for k rs
    using wf that by (auto simp: rs_wf_def kv_wf_def rs_kv_def rs_at_def)
  obtain found olds where sp: "split_rss (dep_owner dep) ?h ?L None [] = (found, olds)" by (meson surj_pair)
  note spec = split_rss_spec [OF sp]
  have olds: "olds = filter (\<lambda>rs. dep_owns dep rs \<and> \<not> has_hash ?h rs) ?L" using spec(1) by simp
  obtain r where r: "rs_at x kn = Some r" "of_dep dep r" "has_hash ?h r" using assms unfolding rolling_def by blast
  have "found \<noteq> None" using spec(2) L [of r] r key [OF r(1)] by auto
  then obtain newRS where f: "found = Some newRS" by blast
  have "newRS \<in> set ?L \<and> dep_owns dep newRS \<and> has_hash ?h newRS" using spec(3) [OF f] by simp
  then have n: "rs_at x (rs_key newRS) = Some newRS" "of_dep dep newRS" "has_hash ?h newRS" using L [of newRS] by auto
  then have kn: "rs_key newRS = kn" using assms unfolding rolling_def by blast
  have o: "rs \<in> set olds \<longleftrightarrow> rs_at x (rs_key rs) = Some rs \<and> of_dep dep rs \<and> \<not> has_hash ?h rs" for rs
    using L [of rs] by (auto simp: olds)
  have "rs_key ` set olds = {k. \<exists>rs. rs_at x k = Some rs \<and> of_dep dep rs \<and> \<not> has_hash ?h rs}"
    using o key by (auto simp: image_iff)
  then have "rs_key ` set olds = ko" using assms by (simp add: rolling_def)
  moreover have "distinct (map rs_key olds)"
    unfolding olds by (rule distinct_map_filter [OF ListReplicaSets_keys [OF wf]])
  ultimately show thesis using that sp f n(1) kn o by blast
qed

lemma num_asked: "num x (rs_key rs) = asked x rs"
  by (simp add: num_def asked_def)

lemma sum_keys: "distinct (map rs_key rss) \<Longrightarrow> sum_list (map (\<lambda>rs. f (rs_key rs)) rss) = (\<Sum>k \<in> rs_key ` set rss. f k)"
proof (induction rss)
  case (Cons rs rss)
  then show ?case by (simp add: sum.insert_if)
qed simp

lemma rs_wf_rollout: "rs_wf x \<Longrightarrow> rs_wf (rollout G d newRS olds x)"
proof -
  have "rs_wf x \<Longrightarrow> rs_wf (scale_old G left rss x)" for left rss and x :: "'a ctl"
    by (induction rss arbitrary: left x) (auto simp: Let_def rs_wf_store)
  then show "rs_wf x \<Longrightarrow> rs_wf (rollout G d newRS olds x)" by (simp add: rollout_def Let_def rs_wf_store)
qed

lemma rs_wf_Dep_Reconcile: "rs_wf x \<Longrightarrow> rs_wf (Dep_Reconcile G marshal now dep x)"
  by (simp add: Dep_Reconcile_def Let_def case_prod_beta scale_new_def rs_wf_store rs_wf_rollout split: option.split)

lemma rolling_meta:
  assumes "rolling marshal dep kn ko x"
  shows "same_meta x (Dep_Reconcile G marshal now dep x)"
proof -
  obtain newRS olds where sp: "split_rss (dep_owner dep) (dep_hash marshal dep)
      (ListReplicaSets (om_Namespace (dep_Metadata dep)) x) None [] = (Some newRS, olds)"
    and n: "rs_at x kn = Some newRS" "rs_key newRS = kn" and o: "rs_key ` set olds = ko"
    and at: "\<And>rs. rs \<in> set olds \<Longrightarrow> rs_at x (rs_key rs) = Some rs"
    by (rule rolling_split [OF assms]) blast
  have ne: "olds \<noteq> []" using o assms by (auto simp: rolling_def)
  let ?x1 = "if rs_replicas newRS < dep_desired dep
    then StoreReplicaSet G (set_replicas (wrap32 (rs_replicas newRS + 1)) newRS) x else x"
  have 1: "same_meta x ?x1" using n by (auto intro: same_meta_store) (simp add: same_meta_def)
  have 2: "rs_wf ?x1" using assms by (simp add: rolling_def rs_wf_store)
  have 3: "\<forall>rs \<in> set olds. map_option rs_Metadata (rs_at ?x1 (rs_key rs)) = Some (rs_Metadata rs)"
    using at 1 unfolding same_meta_def by (metis option.simps(9))
  have "same_meta x (rollout G (dep_desired dep) newRS olds x)"
    using same_meta_trans [OF 1 conjunct2 [OF scale_old_keeps [OF 2 3]]] by (simp add: rollout_def Let_def)
  then show ?thesis
    using Dep_Reconcile_rs_at [OF dep_hash_def sp, of G now] ne by (simp add: same_meta_def)
qed

lemma rolling_step:
  assumes "rolling marshal dep kn ko x" "x' = Dep_Reconcile G marshal now dep x"
  shows "num x' kn = (if num x kn < dep_desired dep then num x kn + 1 else num x kn)"
    "(\<Sum>k \<in> ko. num x' k) = min (\<Sum>k \<in> ko. num x k) (max 0 (dep_desired dep - num_ready x kn))"
    "\<forall>k \<in> ko. 0 \<le> num x' k \<and> num x' k \<le> num x k"
proof -
  obtain newRS olds where sp: "split_rss (dep_owner dep) (dep_hash marshal dep)
      (ListReplicaSets (om_Namespace (dep_Metadata dep)) x) None [] = (Some newRS, olds)"
    and n: "rs_at x kn = Some newRS" "rs_key newRS = kn" and d: "distinct (map rs_key olds)" and o: "rs_key ` set olds = ko"
    and at: "\<And>rs. rs \<in> set olds \<Longrightarrow> rs_at x (rs_key rs) = Some rs"
    by (rule rolling_split [OF assms(1)]) blast
  have ne: "olds \<noteq> []" using o assms(1) by (auto simp: rolling_def)
  have nn: "rs_replicas newRS = num x kn" "rst_ReadyReplicas (rs_Status newRS) = num_ready x kn"
    using n(1) by (simp_all add: num_def num_ready_def)
  have no: "rs_replicas rs = num x (rs_key rs)" if "rs \<in> set olds" for rs using at [OF that] by (simp add: num_def)
  have b: "rs_wf x" "0 \<le> dep_desired dep" "dep_desired dep < 2 ^ 31" "in32 (rs_replicas newRS)"
      "0 \<le> num_ready x kn" "num_ready x kn < 2 ^ 31" "\<forall>rs \<in> set olds. 0 \<le> rs_replicas rs"
    using assms(1) o nn no by (auto simp: rolling_def in32_def)
  note r = reconcile_rolling [OF b(1) dep_hash_def sp ne b(2-4) nn(2) [symmetric] b(5-7) assms(2)]
  have as: "asked x' rs = num x' (rs_key rs)" for rs by (simp add: num_asked)
  have sums: "sum_list (map rs_replicas olds) = (\<Sum>k \<in> ko. num x k)" "sum_list (map (asked x') olds) = (\<Sum>k \<in> ko. num x' k)"
    using sum_keys [OF d, of "num x"] sum_keys [OF d, of "num x'"] no o
    by (simp_all add: as cong: map_cong)
  show "num x' kn = (if num x kn < dep_desired dep then num x kn + 1 else num x kn)"
    using conjunct1 [OF r] by (simp add: as n(2) nn)
  show "(\<Sum>k \<in> ko. num x' k) = min (\<Sum>k \<in> ko. num x k) (max 0 (dep_desired dep - num_ready x kn))"
    using r sums by simp
  show "\<forall>k \<in> ko. 0 \<le> num x' k \<and> num x' k \<le> num x k" using r no o by (auto simp: as)
qed

lemma rolling_finite:
  assumes "rolling marshal dep kn ko x"
  shows "finite ko"
proof (rule rolling_split [OF assms])
  fix olds :: "ReplicaSet list"
  assume "rs_key ` set olds = ko"
  then show ?thesis by auto
qed

section \<open>Between two reconciliations\<close>

text \<open>
  Between two reconciliations of a deployment the replica set controller reports the status of
  replica sets: it stores them with other numbers of replicas and ready replicas and nothing else
  changed, and never reports more ready replicas of the new replica set than were asked for.
\<close>

definition undisturbed :: "string \<Rightarrow> 'b ctl \<Rightarrow> 'b ctl \<Rightarrow> bool" where
  "undisturbed kn x y \<longleftrightarrow> rs_wf y \<and> same_meta x y \<and> (\<forall>k. num y k = num x k) \<and>
     0 \<le> num_ready y kn \<and> num_ready y kn \<le> num y kn"

lemma report_status:
  assumes "rs_wf x" "rs_at x (rs_key rs) = Some rs" "y = StoreReplicaSet G (rs_with_status n ready rs) x"
  shows "rs_wf y \<and> same_meta x y \<and> (\<forall>k. num y k = num x k) \<and> num_ready y (rs_key rs) = ready"
  using assms by (auto simp: same_meta_def num_def num_ready_def rs_with_status_def rs_replicas_def rs_wf_store)

lemma rolling_next:
  assumes "rolling marshal dep kn ko x" "undisturbed kn (Dep_Reconcile G marshal now dep x) y"
  shows "rolling marshal dep kn ko y"
    "num y kn = (if num x kn < dep_desired dep then num x kn + 1 else num x kn)"
    "(\<Sum>k \<in> ko. num y k) = min (\<Sum>k \<in> ko. num x k) (max 0 (dep_desired dep - num_ready x kn))"
proof -
  note st = rolling_step [OF assms(1) refl, of G now]
  show n: "num y kn = (if num x kn < dep_desired dep then num x kn + 1 else num x kn)"
    and "(\<Sum>k \<in> ko. num y k) = min (\<Sum>k \<in> ko. num x k) (max 0 (dep_desired dep - num_ready x kn))"
    using st(1,2) assms(2) by (simp_all add: undisturbed_def)
  have m: "same_meta x y" using same_meta_trans [OF rolling_meta [OF assms(1), of G now], of y] assms(2) by (simp add: undisturbed_def)
  show "rolling marshal dep kn ko y"
    using assms st(3) n same_meta_keys [OF m, of dep "dep_hash marshal dep" True]
      same_meta_keys [OF m, of dep "dep_hash marshal dep" False]
    unfolding rolling_def undisturbed_def by (simp split: if_splits)
qed

lemma rolling_rounds:
  assumes "rolling marshal dep kn ko (X 0)"
    and "\<And>i. undisturbed kn (Dep_Reconcile G marshal (now i) dep (X i)) (X (Suc i))"
  shows "rolling marshal dep kn ko (X i) \<and>
    num (X i) kn = (if num (X 0) kn < dep_desired dep then min (dep_desired dep) (num (X 0) kn + int i) else num (X 0) kn)"
proof (induction i)
  case (Suc i)
  then show ?case using rolling_next(1,2) [OF _ assms(2) [of i]] by auto
qed (use assms(1) in auto)

lemma rolling_finished:
  assumes "rolling marshal dep kn ko x" "undisturbed kn (Dep_Reconcile G marshal now dep x) y"
    and "dep_desired dep \<le> num_ready x kn" "k \<in> ko"
  shows "num y k = 0"
proof -
  have nn: "\<forall>k \<in> ko. 0 \<le> num y k" "\<forall>k \<in> ko. 0 \<le> num x k"
    using rolling_next(1) [OF assms(1,2)] assms(1) by (simp_all add: rolling_def)
  have "(\<Sum>k \<in> ko. num y k) = 0"
    using rolling_next(3) [OF assms(1,2)] assms(3) sum_nonneg [of ko "num x"] nn(2) by auto
  then show ?thesis using sum_nonneg_eq_0_iff [OF rolling_finite [OF assms(1)], of "num y"] nn(1) assms(4) by blast
qed

text \<open>
  Once the wanted number of new replicas has been reported ready, the next reconciliation asks the
  old replica sets for none, and they are never asked for more again.
\<close>

lemma rolling_done:
  assumes "rolling marshal dep kn ko (X 0)"
    and "\<And>i. undisturbed kn (Dep_Reconcile G marshal (now i) dep (X i)) (X (Suc i))"
    and "dep_desired dep \<le> num_ready (X j) kn" "j < i" "k \<in> ko"
  shows "num (X i) k = 0"
proof -
  have r: "rolling marshal dep kn ko (X i)" for i using rolling_rounds [where X = X, OF assms(1,2)] by blast
  have "num (X (Suc j + n)) k = 0" for n
  proof (induction n)
    case 0
    then show ?case using rolling_finished [OF r assms(2,3,5)] by simp
  next
    case (Suc n)
    let ?y = "Dep_Reconcile G marshal (now (Suc j + n)) dep (X (Suc j + n))"
    have "0 \<le> num ?y k \<and> num ?y k \<le> num (X (Suc j + n)) k"
      using rolling_step(3) [OF r refl] assms(5) by blast
    then show ?case using Suc assms(2) [of "Suc j + n"] by (simp add: undisturbed_def)
  qed
  from this [of "i - Suc j"] assms(4) show ?thesis by simp
qed

section \<open>A run\<close>

text \<open>The replica set controller finds all the pods it launched for the new replica set ready.\<close>

definition report_ready :: "'b storage \<Rightarrow> string \<Rightarrow> 'b ctl \<Rightarrow> 'b ctl" where
  "report_ready G k x = (case rs_at x k of None \<Rightarrow> x
     | Some rs \<Rightarrow> StoreReplicaSet G (rs_with_status (rs_replicas rs) (rs_replicas rs) rs) x)"

lemma report_ready_undisturbed:
  assumes "rolling marshal dep kn ko x" "x' = Dep_Reconcile G marshal now dep x"
  shows "undisturbed kn x' (report_ready G kn x') \<and> num_ready (report_ready G kn x') kn = num (report_ready G kn x') kn"
proof -
  obtain r where "rs_at x kn = Some r" using assms(1) unfolding rolling_def by blast
  then obtain rs where rs: "rs_at x' kn = Some rs" using same_metaD [OF rolling_meta [OF assms(1)]] assms(2) by blast
  have wf: "rs_wf x'" using assms rs_wf_Dep_Reconcile [of x G] by (simp add: rolling_def)
  then have k: "rs_key rs = kn" using rs by (auto simp: rs_wf_def kv_wf_def rs_kv_def rs_at_def)
  have "0 \<le> num x' kn" using rolling_step(1) [OF assms] assms(1) by (auto simp: rolling_def)
  then show ?thesis
    using report_status [OF wf _ refl, of rs G "rs_replicas rs" "rs_replicas rs"] rs k
    by (auto simp: undisturbed_def report_ready_def num_def)
qed

abbreviation demo_new :: string where
  "demo_new \<equiv> ''default/web-5465b825''"

abbreviation demo_old :: string where
  "demo_old \<equiv> ''default/web-old''"

primrec demo_run :: "int \<Rightarrow> int \<Rightarrow> int \<Rightarrow> nat \<Rightarrow> mem_db ctl" where
  "demo_run d n m 0 = demo_ctl [demo_rs ''web-old'' ''old'' m m, demo_rs ''web-5465b825'' ''5465b825'' n n]"
| "demo_run d n m (Suc i) =
     report_ready demo_storage demo_new (Dep_Reconcile demo_storage demo_marshal 7 (demo_dep d) (demo_run d n m i))"

lemma demo_run_at:
  "rs_at (demo_run d n m 0) k = (if k = demo_old then Some (demo_rs ''web-old'' ''old'' m m)
     else if k = demo_new then Some (demo_rs ''web-5465b825'' ''5465b825'' n n) else None)"
  by (simp add: rs_at_def demo_ctl_def demo_rs_def meta_key_def obj_key_def)

lemma demo_num:
  "num (demo_run d n m 0) demo_new = n" "num_ready (demo_run d n m 0) demo_new = n" "num (demo_run d n m 0) demo_old = m"
  by (simp_all add: num_def num_ready_def demo_run_at demo_rs_def rs_replicas_def del: demo_run.simps)

lemma demo_dep_simps: "dep_desired (demo_dep d) = d" "om_Namespace (dep_Metadata (demo_dep d)) = ''default''"
  by (simp_all add: demo_dep_def dep_desired_def)

lemma demo_of_dep: "of_dep (demo_dep d) (demo_rs name h i j)" "has_hash h' (demo_rs name h i j) = (h = h')"
  by (auto simp: of_dep_def dep_owns_def owned_by_def dep_owner_def has_hash_def demo_dep_def demo_rs_def mget_def mlookup_def)

lemma demo_rolling:
  assumes "0 \<le> d" "d < 2 ^ 31" "0 \<le> n" "n < 2 ^ 31" "0 \<le> m"
  shows "rolling demo_marshal (demo_dep d) demo_new {demo_old} (demo_run d n m i)"
proof (induction i)
  case 0
  have h: "dep_hash demo_marshal (demo_dep d) = ''5465b825''" by (simp add: dep_hash_def demo_hash)
  have wf: "rs_wf (demo_run d n m 0)"
    by (simp add: demo_ctl_wf demo_rs_def meta_key_def obj_key_def)
  show ?case
    using assms wf unfolding rolling_def h
    by (auto simp: demo_run_at demo_num demo_of_dep demo_dep_simps simp del: demo_run.simps split: if_splits)
next
  case (Suc i)
  then show ?case
    using rolling_next(1) [OF Suc conjunct1 [OF report_ready_undisturbed [OF Suc refl]]] by simp
qed

lemma demo_run_ok:
  assumes "0 \<le> d" "d < 2 ^ 31" "0 \<le> n" "n < 2 ^ 31" "0 \<le> m"
  shows "undisturbed demo_new (Dep_Reconcile demo_storage demo_marshal 7 (demo_dep d) (demo_run d n m i)) (demo_run d n m (Suc i))"
    "num_ready (demo_run d n m (Suc i)) demo_new = num (demo_run d n m (Suc i)) demo_new"
  using report_ready_undisturbed [OF demo_rolling [OF assms, of i] refl, of demo_storage 7] by simp_all

section \<open>Properties\<close>

text \<open>C34: After its first rollout a deployment cannot be scaled down.  The old replica sets of a
  deployment stay in the store, asked for no replicas, and while there are any the reconciliation
  only ever raises the number asked of the new one: if that is more than the deployment wants, no
  number of reconciliations lowers it.\<close>

theorem scale_down_ignored:
  assumes "rolling marshal dep kn ko (X 0)"
    and "\<forall>i. undisturbed kn (Dep_Reconcile G marshal (now i) dep (X i)) (X (Suc i))"
    and "dep_desired dep < num (X 0) kn"
  shows "num (X i) kn = num (X 0) kn"
  using rolling_rounds [where X = X, OF assms(1), of G now i] assms(2,3) by auto

theorem scale_down_ignored_witness:
  "num (demo_run 1 3 0 100) demo_new = 3"
  using scale_down_ignored [where X = "demo_run 1 3 0" and i = 100, of demo_marshal "demo_dep 1" demo_new "{demo_old}" demo_storage "\<lambda>_. 7"]
    demo_rolling [of 1 3 0 0] demo_run_ok [of 1 3 0] by (simp add: demo_num demo_dep_simps del: demo_run.simps)

end
