(* ===== verification/Connections.thy ===== *)
theory Connections
  imports Service_Proxy
begin

text \<open>
  The connections of the proxies: \<open>acceptLoop\<close> and \<open>handleConn\<close> of \<open>network/proxy.go\<close> and
  \<open>service/proxy.go\<close>.  The loop hands every connection it accepts to a goroutine, which registers it
  and dials the target; when the copying of bytes ends, or the target cannot be reached, it closes
  and removes it.  \<open>Close\<close> can come between any two of these steps.

  What both proxies share is stated once, as a locale, and holds for each by its interpretation.
\<close>

section \<open>Handling a connection\<close>

text \<open>\<open>reached\<close> says whether the target answers when it is dialled.\<close>

definition Proxy_begin :: "bool \<Rightarrow> nat \<Rightarrow> Proxy \<Rightarrow> Proxy" where
  "Proxy_begin reached c p =
     (let p1 = Proxy_register c p in if reached then p1 else Proxy_finish c p1)"

definition ServiceProxy_begin :: "(string \<Rightarrow> bool) \<Rightarrow> Pod list \<Rightarrow> nat \<Rightarrow> ServiceProxy \<Rightarrow> ServiceProxy" where
  "ServiceProxy_begin reached pods c sp =
     (case pick_backend pods (ServiceProxy_register c sp) of
        (None, sp1) \<Rightarrow> ServiceProxy_finish c sp1
      | (Some backendPort, sp1) \<Rightarrow>
          if reached (loopback backendPort) then sp1 else ServiceProxy_finish c sp1)"

section \<open>Interleavings\<close>

text \<open>
  A proxy with its goroutines: the connections that were accepted and whose goroutines have not
  begun, and how many were accepted.  \<open>start\<close> is what a goroutine may do when it begins.
\<close>

record 'p serving =
  sv_proxy :: 'p
  sv_pending :: "nat list"
  sv_accepted :: nat

inductive conn_step :: "(nat \<Rightarrow> 'p \<Rightarrow> 'p \<Rightarrow> bool) \<Rightarrow> (nat \<Rightarrow> 'p \<Rightarrow> 'p) \<Rightarrow> ('p \<Rightarrow> 'p) \<Rightarrow> ('p \<Rightarrow> bool) \<Rightarrow>
    ('p \<Rightarrow> nat list) \<Rightarrow> 'p serving \<Rightarrow> 'p serving \<Rightarrow> bool"
  for start finish close closed conns where
  accept: "\<not> closed (sv_proxy v) \<Longrightarrow> conn_step start finish close closed conns v
    (v\<lparr>sv_pending := sv_accepted v # sv_pending v, sv_accepted := Suc (sv_accepted v)\<rparr>)"
| handle: "c \<in> set (sv_pending v) \<Longrightarrow> start c (sv_proxy v) p \<Longrightarrow> conn_step start finish close closed conns v
    (v\<lparr>sv_proxy := p, sv_pending := removeAll c (sv_pending v)\<rparr>)"
| ended: "c \<in> set (conns (sv_proxy v)) \<Longrightarrow> conn_step start finish close closed conns v
    (v\<lparr>sv_proxy := finish c (sv_proxy v)\<rparr>)"
| shutdown: "conn_step start finish close closed conns v (v\<lparr>sv_proxy := close (sv_proxy v)\<rparr>)"

inductive conn_steps :: "(nat \<Rightarrow> 'p \<Rightarrow> 'p \<Rightarrow> bool) \<Rightarrow> (nat \<Rightarrow> 'p \<Rightarrow> 'p) \<Rightarrow> ('p \<Rightarrow> 'p) \<Rightarrow> ('p \<Rightarrow> bool) \<Rightarrow>
    ('p \<Rightarrow> nat list) \<Rightarrow> 'p serving \<Rightarrow> 'p serving \<Rightarrow> bool"
  for start finish close closed conns v where
  refl: "conn_steps start finish close closed conns v v"
| step: "conn_steps start finish close closed conns v u \<Longrightarrow> conn_step start finish close closed conns u w \<Longrightarrow>
    conn_steps start finish close closed conns v w"

definition fresh :: "'p \<Rightarrow> 'p serving" where
  "fresh p = \<lparr>sv_proxy = p, sv_pending = [], sv_accepted = 0\<rparr>"

section \<open>What both proxies do\<close>

locale connection_table =
  fixes start :: "nat \<Rightarrow> 'p \<Rightarrow> 'p \<Rightarrow> bool"
    and finish :: "nat \<Rightarrow> 'p \<Rightarrow> 'p"
    and close :: "'p \<Rightarrow> 'p"
    and closed :: "'p \<Rightarrow> bool"
    and conns :: "'p \<Rightarrow> nat list"
    and shut :: "'p \<Rightarrow> nat list"
  assumes start_effect: "start c p p' \<Longrightarrow> closed p' = closed p \<and>
      (set (conns p') = insert c (set (conns p)) \<and> set (shut p') = set (shut p) \<or>
       set (conns p') = set (conns p) - {c} \<and> set (shut p') = insert c (set (shut p)))"
    and finish_effect: "set (conns (finish c p)) = set (conns p) - {c}" "set (shut (finish c p)) = insert c (set (shut p))"
      "closed (finish c p) = closed p"
    and close_effect: "closed (close p)" "conns (close p) = conns p"
      "\<not> closed p \<Longrightarrow> set (shut (close p)) = set (conns p) \<union> set (shut p)" "closed p \<Longrightarrow> close p = p"
begin

abbreviation reach :: "'p \<Rightarrow> 'p serving \<Rightarrow> bool" where
  "reach p \<equiv> conn_steps start finish close closed conns (fresh p)"

text \<open>No connection is forgotten: it waits for its goroutine, is registered, or was closed.\<close>

lemma accounted:
  assumes "reach p v" "conns p = []" "shut p = []"
  shows "{..<sv_accepted v} = set (sv_pending v) \<union> set (conns (sv_proxy v)) \<union> set (shut (sv_proxy v))"
  using assms(1)
proof (induction rule: conn_steps.induct)
  case refl
  then show ?case by (simp add: fresh_def assms(2,3))
next
  case (step u w)
  from step.hyps(2) show ?case
  proof cases
    case accept
    then show ?thesis using step.IH by (auto simp: lessThan_Suc)
  next
    case (handle c q)
    have "set (conns q) \<union> set (shut q) = insert c (set (conns (sv_proxy u)) \<union> set (shut (sv_proxy u)))"
      using start_effect [OF handle(3)] by blast
    then show ?thesis using step.IH handle(2) by (simp add: handle(1) Un_assoc) blast
  next
    case (ended c)
    then show ?thesis using step.IH finish_effect by auto
  next
    case shutdown
    then show ?thesis using step.IH close_effect by (cases "closed (sv_proxy u)") auto
  qed
qed

text \<open>A connection whose goroutine begins after the proxy was closed stays open.\<close>

lemma late_connection:
  assumes "\<not> closed p" "conns p = []" "shut p = []" "start 0 (close p) q" "set (conns q) = {0}"
  shows "\<exists>v. reach p v \<and> closed (sv_proxy v) \<and> set (conns (sv_proxy v)) - set (shut (sv_proxy v)) \<noteq> {}"
proof -
  let ?v1 = "\<lparr>sv_proxy = p, sv_pending = [0], sv_accepted = Suc 0\<rparr>"
  let ?v2 = "?v1\<lparr>sv_proxy := close p\<rparr>"
  let ?v3 = "?v2\<lparr>sv_proxy := q, sv_pending := removeAll 0 (sv_pending ?v2)\<rparr>"
  have a: "conn_step start finish close closed conns (fresh p) ?v1"
    using conn_step.accept [of closed "fresh p" start finish close conns] assms(1) by (simp add: fresh_def)
  have c: "conn_step start finish close closed conns ?v1 ?v2"
    using conn_step.shutdown [of start finish close closed conns ?v1] by simp
  have b: "conn_step start finish close closed conns ?v2 ?v3"
    by (rule conn_step.handle) (simp_all add: assms(4))
  have "reach p ?v3" by (rule conn_steps.step [OF conn_steps.step [OF conn_steps.step [OF conn_steps.refl a] c] b])
  moreover have "closed q" using start_effect [OF assms(4)] close_effect(1) by simp
  moreover have "0 \<in> set (conns q) - set (shut q)"
    using start_effect [OF assms(4)] close_effect(2,3) [of p] assms(1-3,5) by auto
  ultimately show ?thesis by (intro exI [of _ ?v3]) auto
qed

end

section \<open>The two proxies\<close>

definition px_start :: "nat \<Rightarrow> Proxy \<Rightarrow> Proxy \<Rightarrow> bool" where
  "px_start c p p' \<longleftrightarrow> p' = Proxy_begin True c p \<or> p' = Proxy_begin False c p"

definition spx_start :: "nat \<Rightarrow> ServiceProxy \<Rightarrow> ServiceProxy \<Rightarrow> bool" where
  "spx_start c sp sp' \<longleftrightarrow> (\<exists>reached pods. sp' = ServiceProxy_begin reached pods c sp)"

abbreviation px_reach :: "'w host \<Rightarrow> 'w \<Rightarrow> Proxy \<Rightarrow> Proxy serving \<Rightarrow> bool" where
  "px_reach H w p \<equiv> conn_steps px_start Proxy_finish (\<lambda>p. fst (Proxy_Close H p w)) px_closed px_conns (fresh p)"

abbreviation spx_reach :: "'w host \<Rightarrow> 'w \<Rightarrow> ServiceProxy \<Rightarrow> ServiceProxy serving \<Rightarrow> bool" where
  "spx_reach H w sp \<equiv>
     conn_steps spx_start ServiceProxy_finish (\<lambda>sp. fst (ServiceProxy_Close H sp w)) spx_closed spx_conns (fresh sp)"

interpretation px: connection_table px_start Proxy_finish "\<lambda>p. fst (Proxy_Close H p w)" px_closed px_conns px_shut
  for H :: "'w host" and w
proof
  fix c p p'
  show "px_start c p p' \<Longrightarrow> px_closed p' = px_closed p \<and>
      (set (px_conns p') = insert c (set (px_conns p)) \<and> set (px_shut p') = set (px_shut p) \<or>
       set (px_conns p') = set (px_conns p) - {c} \<and> set (px_shut p') = insert c (set (px_shut p)))"
    by (auto simp: px_start_def Proxy_begin_def Proxy_register_def Proxy_finish_def Let_def)
qed (auto simp: Proxy_finish_def Proxy_Close_def)

lemma pick_backend_frame:
  "pick_backend pods sp = (r, sp') \<Longrightarrow> spx_conns sp' = spx_conns sp \<and> spx_shut sp' = spx_shut sp \<and> spx_closed sp' = spx_closed sp"
  by (auto simp: pick_backend_def Let_def split: if_splits)

interpretation spx: connection_table spx_start ServiceProxy_finish "\<lambda>sp. fst (ServiceProxy_Close H sp w)"
  spx_closed spx_conns spx_shut for H :: "'w host" and w
proof
  fix c p p'
  show "spx_start c p p' \<Longrightarrow> spx_closed p' = spx_closed p \<and>
      (set (spx_conns p') = insert c (set (spx_conns p)) \<and> set (spx_shut p') = set (spx_shut p) \<or>
       set (spx_conns p') = set (spx_conns p) - {c} \<and> set (spx_shut p') = insert c (set (spx_shut p)))"
  proof -
    assume "spx_start c p p'"
    then obtain reached pods where b: "p' = ServiceProxy_begin reached pods c p" by (auto simp: spx_start_def)
    obtain r q where r: "pick_backend pods (ServiceProxy_register c p) = (r, q)" by (meson surj_pair)
    have "p' = q \<or> p' = ServiceProxy_finish c q" using b r by (auto simp: ServiceProxy_begin_def split: option.splits)
    then show ?thesis using pick_backend_frame [OF r] by (auto simp: ServiceProxy_register_def ServiceProxy_finish_def)
  qed
qed (auto simp: ServiceProxy_finish_def ServiceProxy_Close_def)

section \<open>Properties\<close>

text \<open>C15: No connection is forgotten.  Whatever the order in which connections are accepted and
  handled and the proxy is closed, every connection a pod proxy or a service proxy has accepted
  waits for its goroutine, is registered, or was closed.\<close>

theorem connections_accounted:
  "(px_reach H w (NewProxy listenAddr targetAddr) v \<longrightarrow>
      {..<sv_accepted v} = set (sv_pending v) \<union> set (px_conns (sv_proxy v)) \<union> set (px_shut (sv_proxy v))) \<and>
   (spx_reach H w (NewServiceProxy svc) u \<longrightarrow>
      {..<sv_accepted u} = set (sv_pending u) \<union> set (spx_conns (sv_proxy u)) \<union> set (spx_shut (sv_proxy u)))"
  using px.accounted [of H w "NewProxy listenAddr targetAddr" v] spx.accounted [of H w "NewServiceProxy svc" u]
  by (simp add: NewProxy_def NewServiceProxy_def)

text \<open>C35: Closing a proxy misses connections.  A connection that was accepted before the proxy is
  closed, and whose goroutine registers it after, stays open: a pod proxy, and a service proxy of a
  service with a ready pod, can be closed and still carry a connection.\<close>

theorem connection_survives_close:
  assumes "getBackends pods (NewServiceProxy svc) \<noteq> []"
  shows "(\<exists>v. px_reach H w (NewProxy listenAddr targetAddr) v \<and> px_closed (sv_proxy v) \<and>
      set (px_conns (sv_proxy v)) - set (px_shut (sv_proxy v)) \<noteq> {}) \<and>
    (\<exists>v. spx_reach H w (NewServiceProxy svc) v \<and> spx_closed (sv_proxy v) \<and>
      set (spx_conns (sv_proxy v)) - set (spx_shut (sv_proxy v)) \<noteq> {})"
proof
  let ?p = "NewProxy listenAddr targetAddr"
  let ?q = "Proxy_begin True 0 (fst (Proxy_Close H ?p w))"
  show "\<exists>v. px_reach H w ?p v \<and> px_closed (sv_proxy v) \<and> set (px_conns (sv_proxy v)) - set (px_shut (sv_proxy v)) \<noteq> {}"
    by (rule px.late_connection [of _ _ _ ?q])
      (simp_all add: px_start_def NewProxy_def Proxy_Close_def Proxy_begin_def Proxy_register_def)
  let ?sp = "NewServiceProxy svc"
  let ?r = "ServiceProxy_begin (\<lambda>_. True) pods 0 (fst (ServiceProxy_Close H ?sp w))"
  have "getBackends pods (ServiceProxy_register 0 (fst (ServiceProxy_Close H ?sp w))) \<noteq> []"
    using assms by (simp add: getBackends_def ServiceProxy_register_def ServiceProxy_Close_def NewServiceProxy_def)
  then have r: "set (spx_conns ?r) = {0}"
    by (auto simp: ServiceProxy_begin_def pick_backend_def Let_def ServiceProxy_register_def ServiceProxy_Close_def NewServiceProxy_def)
  have "spx_start 0 (fst (ServiceProxy_Close H ?sp w)) ?r" unfolding spx_start_def by blast
  then show "\<exists>v. spx_reach H w ?sp v \<and> spx_closed (sv_proxy v) \<and> set (spx_conns (sv_proxy v)) - set (spx_shut (sv_proxy v)) \<noteq> {}"
    by (rule spx.late_connection [rotated 3]) (use r in \<open>simp_all add: NewServiceProxy_def\<close>)
qed

theorem connection_survives_close_witness:
  "\<exists>v. spx_reach demo_host () (NewServiceProxy web_svc) v \<and> spx_closed (sv_proxy v) \<and>
     set (spx_conns (sv_proxy v)) - set (spx_shut (sv_proxy v)) \<noteq> {}"
  using connection_survives_close [of "[web_pod ''a'' 30000, web_pod ''b'' 30001]" web_svc demo_host "()"] web_backends by auto

theorem connections_accounted_witness:
  "\<exists>v. px_reach demo_host () (NewProxy [] []) v \<and> sv_accepted v = 1 \<and>
     {..<sv_accepted v} = set (sv_pending v) \<union> set (px_conns (sv_proxy v)) \<union> set (px_shut (sv_proxy v))"
proof -
  let ?v = "\<lparr>sv_proxy = NewProxy [] [], sv_pending = [0], sv_accepted = 1\<rparr>"
  have "px_reach demo_host () (NewProxy [] []) ?v"
    by (rule conn_steps.step [OF conn_steps.refl])
      (use conn_step.accept [of px_closed "fresh (NewProxy [] [])"] in \<open>simp add: fresh_def NewProxy_def\<close>)
  then show ?thesis
    using connections_accounted [of demo_host "()" "[]" "[]" ?v] by (intro exI [of _ ?v]) simp
qed

end
