(* ===== verification/Server.thy ===== *)
theory Server
  imports Manifest Daemon Rollout
begin

text \<open>
  The server of \<open>api/server.go\<close>: the table of pods, written through to the bucket \<open>pods\<close>, beside
  the lifecycle manager, the proxies of the services and the stores.  It is the pod manager of the
  replica set controller, and it recovers the services and the pods when the daemon starts.

  The pool of ports and the operating system are shared: they are part of the lifecycle manager's
  state, and the database is one.
\<close>

section \<open>State\<close>

text \<open>
  What the server is given: the host, the fuel of the native engine's copying, the database and
  its encodings, the text of an error, the clock of the host and its format, and the JSON of a pod
  specification.
\<close>

record ('f, 'b) srv_env =
  se_host :: "'f host"
  se_fuel :: nat
  se_storage :: "'b storage"
  se_Error :: "goerror \<Rightarrow> string"
  se_Now :: "'f \<Rightarrow> time"
  se_RFC3339 :: "time \<Rightarrow> string"
  se_PodSpec :: "PodSpec \<Rightarrow> bytes"

record ('f, 'b) Server =
  srv_lifecycle :: "'f World LifecycleManager"
  srv_services :: ServiceStore
  srv_proxyManager :: ProxyManager
  srv_configStore :: ConfigStore
  srv_controllerStore :: ControllerStore
  srv_pods :: "(string, Pod) tbl"
  srv_db :: "'b option"

definition srv_os :: "('f, 'b) Server \<Rightarrow> 'f" where
  "srv_os s = w_os (lm_world (srv_lifecycle s))"

definition srv_lm_env :: "('f, 'b) srv_env \<Rightarrow> ('f, 'b) Server \<Rightarrow> ('f World, 'b) lm_env" where
  "srv_lm_env V s = daemon_env (se_host V) (se_fuel V) (srv_configStore s, srv_db s)"

definition NewServer :: "('f, 'b) srv_env \<Rightarrow> 'f World LifecycleManager \<Rightarrow> ConfigStore \<Rightarrow> ControllerStore \<Rightarrow>
    'b option \<Rightarrow> ('f, 'b) Server" where
  "NewServer V lifecycle configStore controllerStore db =
     \<lparr>srv_lifecycle = lifecycle, srv_services = fst (NewServiceStore (se_storage V) db),
      srv_proxyManager = NewProxyManager, srv_configStore = configStore,
      srv_controllerStore = controllerStore,
      srv_pods = fst (kv_load (sg_bolt (se_storage V)) (sg_Pod (se_storage V)) ''pods'' db),
      srv_db = db\<rparr>"

section \<open>The table of pods\<close>

definition storePod :: "('f, 'b) srv_env \<Rightarrow> Pod \<Rightarrow> ('f, 'b) Server \<Rightarrow> ('f, 'b) Server" where
  "storePod V pod s =
     (let key = om_Namespace (pod_Metadata pod) @ ''/'' @ om_Name (pod_Metadata pod);
          p = kv_put (sg_bolt (se_storage V)) (sg_Pod (se_storage V)) ''pods'' key pod (srv_pods s, srv_db s)
      in s\<lparr>srv_pods := fst p, srv_db := snd p\<rparr>)"

definition loadPod :: "string \<Rightarrow> string \<Rightarrow> ('f, 'b) Server \<Rightarrow> Pod option" where
  "loadPod namespace name s = tlookup (srv_pods s) (namespace @ ''/'' @ name)"

definition deletePod :: "('f, 'b) srv_env \<Rightarrow> string \<Rightarrow> string \<Rightarrow> ('f, 'b) Server \<Rightarrow> ('f, 'b) Server" where
  "deletePod V namespace name s =
     (let p = kv_del (sg_bolt (se_storage V)) ''pods'' (namespace @ ''/'' @ name) (srv_pods s, srv_db s)
      in s\<lparr>srv_pods := fst p, srv_db := snd p\<rparr>)"

definition allPods :: "string \<Rightarrow> ('f, 'b) Server \<Rightarrow> Pod list" where
  "allPods namespace s =
     filter (\<lambda>pod. namespace = [] \<or> om_Namespace (pod_Metadata pod) = namespace) (map snd (srv_pods s))"

section \<open>The pod manager\<close>

definition DeletePod :: "('f, 'b) srv_env \<Rightarrow> string \<Rightarrow> string \<Rightarrow> ('f, 'b) Server \<Rightarrow>
    goerror option \<times> ('f, 'b) Server" where
  "DeletePod V namespace name s =
     (let lm = snd (Terminate (srv_lm_env V s) namespace name (srv_lifecycle s))
      in (None, deletePod V namespace name (s\<lparr>srv_lifecycle := lm\<rparr>)))"

definition live_status :: "('f, 'b) srv_env \<Rightarrow> ('f, 'b) Server \<Rightarrow> Pod \<Rightarrow> Pod" where
  "live_status V s pod =
     (case LM_Status (srv_lm_env V s) (om_Namespace (pod_Metadata pod)) (om_Name (pod_Metadata pod)) (srv_lifecycle s) of
        Some status \<Rightarrow> pod\<lparr>pod_Status := status\<rparr>
      | None \<Rightarrow> pod)"

definition ListPods :: "('f, 'b) srv_env \<Rightarrow> string \<Rightarrow> ('f, 'b) Server \<Rightarrow> Pod list" where
  "ListPods V namespace s = map (live_status V s) (allPods namespace s)"

definition failed_pod :: "('f, 'b) srv_env \<Rightarrow> goerror \<Rightarrow> Pod \<Rightarrow> Pod" where
  "failed_pod V err pod =
     pod\<lparr>pod_Status := (pod_Status pod)\<lparr>st_Phase := PodFailed, st_Message := se_Error V err\<rparr>\<rparr>"

definition pending_pod :: "('f, 'b) srv_env \<Rightarrow> ('f, 'b) Server \<Rightarrow> Pod \<Rightarrow> Pod" where
  "pending_pod V s pod =
     pod\<lparr>pod_Status := zero_PodStatus\<lparr>st_Phase := PodPending, st_StartTime := se_RFC3339 V (se_Now V (srv_os s))\<rparr>\<rparr>"

definition running_pod :: "Pod \<Rightarrow> Pod" where
  "running_pod pod = pod\<lparr>pod_Status := (pod_Status pod)\<lparr>st_Phase := PodRunning\<rparr>\<rparr>"

definition LaunchPod :: "('f, 'b) srv_env \<Rightarrow> Pod \<Rightarrow> ('f, 'b) Server \<Rightarrow> goerror option \<times> ('f, 'b) Server" where
  "LaunchPod V pod s =
     (let s0 = storePod V pod s
      in case ExtractEngineConfig (\<lambda>p. h_Stat (se_host V) p (srv_os s0)) pod of
           Inl err \<Rightarrow> (Some err, storePod V (failed_pod V err pod) s0)
         | Inr (engineType, target) \<Rightarrow>
             let env = CollectEnvVars (ps_Containers (pod_Spec pod)) @
                   GenerateServiceEnv (se_host V) (om_Namespace (pod_Metadata pod)) (srv_services s0, srv_db s0)
                     (srv_proxyManager s0);
                 ((r, pod1), lm) = Launch (srv_lm_env V s0) (pending_pod V s0 pod) engineType target env (srv_lifecycle s0);
                 s1 = s0\<lparr>srv_lifecycle := lm\<rparr>
             in case r of
                  Some err \<Rightarrow> (Some err, storePod V (failed_pod V err pod1) s1)
                | None \<Rightarrow> (None, storePod V (running_pod pod1) s1))"

definition srv_pod_manager :: "('f, 'b) srv_env \<Rightarrow> ('f, 'b) Server PodManager" where
  "srv_pod_manager V =
     \<lparr>pm_LaunchPod = LaunchPod V, pm_DeletePod = DeletePod V, pm_ListPods = ListPods V\<rparr>"

text \<open>The store of the controllers, which shares the database.\<close>

definition on_ctl :: "('b ctl \<Rightarrow> 'b ctl) \<Rightarrow> ('f, 'b) Server \<Rightarrow> ('f, 'b) Server" where
  "on_ctl g s = (let x = g (srv_controllerStore s, srv_db s)
     in s\<lparr>srv_controllerStore := fst x, srv_db := snd x\<rparr>)"

definition srv_StoreReplicaSet :: "('f, 'b) srv_env \<Rightarrow> ReplicaSet \<Rightarrow> ('f, 'b) Server \<Rightarrow> ('f, 'b) Server" where
  "srv_StoreReplicaSet V rs = on_ctl (StoreReplicaSet (se_storage V) rs)"

definition srv_ListReplicaSets :: "string \<Rightarrow> ('f, 'b) Server \<Rightarrow> ReplicaSet list" where
  "srv_ListReplicaSets namespace s = ListReplicaSets namespace (srv_controllerStore s, srv_db s)"

section \<open>Recovery and shutdown\<close>

text \<open>The proxies of the services, the pool and the operating system.\<close>

definition on_proxies :: "('f World pxs \<Rightarrow> 'r \<times> 'f World pxs) \<Rightarrow> ('f, 'b) Server \<Rightarrow> 'r \<times> ('f, 'b) Server" where
  "on_proxies g s =
     (case g (srv_proxyManager s, lm_portPool (srv_lifecycle s), lm_world (srv_lifecycle s)) of
        (r, pm, pool, w) \<Rightarrow>
          (r, s\<lparr>srv_proxyManager := pm, srv_lifecycle := (srv_lifecycle s)\<lparr>lm_portPool := pool, lm_world := w\<rparr>\<rparr>))"

definition srv_Reserve :: "string \<Rightarrow> int \<Rightarrow> ('f, 'b) Server \<Rightarrow> ('f, 'b) Server" where
  "srv_Reserve key port s =
     s\<lparr>srv_lifecycle := (srv_lifecycle s)\<lparr>lm_portPool := snd (Reserve key port (lm_portPool (srv_lifecycle s)))\<rparr>\<rparr>"

definition recover_service :: "('f, 'b) srv_env \<Rightarrow> Service \<Rightarrow> ('f, 'b) Server \<Rightarrow> ('f, 'b) Server" where
  "recover_service V svc s =
     (case ss_Ports (svc_Spec svc) of
        [] \<Rightarrow> s
      | p # _ \<Rightarrow>
          if sp_NodePort p > 0 then
            snd (on_proxies (StartProxy (lift_host (se_host V)) svc) (srv_Reserve (svc_key svc) (sp_NodePort p) s))
          else s)"

definition recover_pod :: "('f, 'b) srv_env \<Rightarrow> Pod \<Rightarrow> ('f, 'b) Server \<Rightarrow> ('f, 'b) Server" where
  "recover_pod V pod s =
     (if st_Phase (pod_Status pod) = PodRunning \<or> st_Phase (pod_Status pod) = PodPending then
        let s1 = (if st_HostPort (pod_Status pod) > 0
                  then srv_Reserve (pod_key pod) (st_HostPort (pod_Status pod)) s else s)
        in snd (LaunchPod V pod s1)
      else s)"

definition RecoverState :: "('f, 'b) srv_env \<Rightarrow> ('f, 'b) Server \<Rightarrow> ('f, 'b) Server" where
  "RecoverState V s =
     (let s1 = fold (recover_service V) (ServiceStore_List [] (srv_services s, srv_db s)) s
      in fold (recover_pod V) (allPods [] s1) s1)"

definition Server_Shutdown :: "('f, 'b) srv_env \<Rightarrow> ('f, 'b) Server \<Rightarrow> ('f, 'b) Server" where
  "Server_Shutdown V s = snd (on_proxies (\<lambda>p. ((), ProxyManager_Shutdown (lift_host (se_host V)) p)) s)"

end
