(* ===== verification/Server_Worlds.thy ===== *)
theory Server_Worlds
  imports Server
begin

text \<open>
  What the lifecycle manager of the daemon does to the engines.  The operating system under the
  engines may change in any way: files, commands and listeners do not change what an engine says
  of a pod.  Launching and terminating one pod change at most what the engines say of pods of its
  name.
\<close>

section \<open>Operations that leave the engines alone\<close>

definition engines :: "'f World \<Rightarrow> NativeEngine \<times> WasmEngine" where
  "engines w = (w_native w, w_wasm w)"

named_theorems same_engines \<open>operations of the host under the engines\<close>

lemma engines_on_os [same_engines]: "engines (snd (on_os g w)) = engines w"
  by (simp add: on_os_def engines_def Let_def case_prod_beta)

lemma engines_set_os [same_engines]: "engines (w\<lparr>w_os := f\<rparr>) = engines w"
  by (simp add: engines_def)

lemma engines_host [same_engines]:
  "engines (snd (h_MkdirAll (lift_host H) p w)) = engines w"
  "engines (h_RemoveAll (lift_host H) p w) = engines w"
  "engines (snd (h_WriteFile (lift_host H) p d m w)) = engines w"
  "engines (snd (h_RunCmd (lift_host H) c xs vs w)) = engines w"
  "engines (snd (h_Listen (lift_host H) a w)) = engines w"
  "engines (h_Unlisten (lift_host H) a w) = engines w"
  by (simp_all add: lift_host_def engines_on_os engines_set_os)

lemma engines_CleanupVolumes [same_engines]: "engines (CleanupVolumes (lift_host H) pod w) = engines w"
  by (simp add: CleanupVolumes_def same_engines)

lemma engines_write_keys [same_engines]:
  "engines (snd (write_keys (lift_host H) d p kvs w)) = engines w"
proof (induction kvs arbitrary: w)
  case (Cons kv kvs)
  obtain k v where kv: "kv = (k, v)" by (cases kv)
  obtain r w1 where r: "h_WriteFile (lift_host H) (path_join [d, k]) v p w = (r, w1)" by (meson surj_pair)
  have "engines w1 = engines w" using engines_host(3) [of H "path_join [d, k]" v p w] by (simp add: r)
  then show ?case using Cons.IH [of w1] r by (simp add: kv split: option.splits)
qed simp

lemma engines_project_volume [same_engines]:
  "engines (snd (project_volume (lift_host H) cfg pod vol w)) = engines w"
proof -
  let ?d = "path_join [h_TempDir (lift_host H), ''lok8s-volumes'', om_UID (pod_Metadata pod), v_Name vol]"
  obtain r w1 where m: "h_MkdirAll (lift_host H) ?d w = (r, w1)" by (meson surj_pair)
  have e1: "engines w1 = engines w" using engines_host(1) [of H ?d w] by (simp add: m)
  have wk: "engines w2 = engines w" if "write_keys (lift_host H) ?d p kvs w1 = (q, w2)" for p kvs q w2
    using engines_write_keys [of H ?d p kvs w1] that e1 by simp
  show ?thesis
    using wk e1
    by (auto simp: project_volume_def Let_def m same_engines split: option.splits prod.splits)
qed

lemma engines_project_loop [same_engines]:
  "engines (snd (project_loop (lift_host H) cfg pod vols projected w)) = engines w"
proof (induction vols arbitrary: projected w)
  case (Cons vol vols)
  obtain r w1 where r: "project_volume (lift_host H) cfg pod vol w = (r, w1)" by (meson surj_pair)
  have "engines w1 = engines w" using engines_project_volume [of H cfg pod vol w] by (simp add: r)
  then show ?case using Cons.IH [of _ w1] by (cases r) (simp_all add: r)
qed simp

lemma engines_ProjectVolumes [same_engines]:
  "engines (snd (ProjectVolumes (lift_host H) cfg pod w)) = engines w"
  by (simp add: ProjectVolumes_def same_engines)

lemma engines_runInitContainers [same_engines]:
  "engines (snd (runInitContainers (lift_host H) env ics w)) = engines w"
proof (induction ics arbitrary: w)
  case (Cons ic ics)
  show ?case
  proof (cases "c_Command ic")
    case Nil
    then show ?thesis using Cons.IH by simp
  next
    case (Cons prog cargs)
    let ?env = "buildOSEnv (lift_host H) env @ map (\<lambda>e. ev_Name e @ ''='' @ ev_Value e) (c_Env ic)"
    obtain r w1 where r: "h_RunCmd (lift_host H) prog (cargs @ c_Args ic) ?env w = (r, w1)" by (meson surj_pair)
    have "engines w1 = engines w" using engines_host(4) [of H prog "cargs @ c_Args ic" ?env w] unfolding r by simp
    then show ?thesis using Cons.IH [of w1] Cons r by (simp split: option.splits)
  qed
qed simp

lemma engines_Proxy [same_engines]:
  "engines (snd (snd (Proxy_Start (lift_host H) px w))) = engines w"
  "engines (snd (Proxy_Close (lift_host H) px w)) = engines w"
  "engines (snd (close_proxy (lift_host H) mp w)) = engines w"
proof -
  obtain r w1 where l: "h_Listen (lift_host H) (px_listenAddr px) w = (r, w1)" by (meson surj_pair)
  have "engines w1 = engines w" using engines_host(5) [of H "px_listenAddr px" w] by (simp add: l)
  then show "engines (snd (snd (Proxy_Start (lift_host H) px w))) = engines w"
    by (simp add: Proxy_Start_def l split: option.splits)
  have c: "engines (snd (Proxy_Close (lift_host H) px w)) = engines w" for px
    by (simp add: Proxy_Close_def same_engines)
  then show "engines (snd (Proxy_Close (lift_host H) px w)) = engines w" .
  show "engines (snd (close_proxy (lift_host H) mp w)) = engines w"
    using c by (simp add: close_proxy_def Let_def case_prod_beta split: option.splits)
qed

lemma engines_remove_mounts [same_engines]: "engines (remove_mounts (lift_host H) pod w) = engines w"
proof -
  have "engines (fold (\<lambda>vm. h_RemoveAll (lift_host H) (vm_MountPath vm)) vms w) = engines w" for vms
    by (induction vms arbitrary: w) (simp_all add: same_engines)
  then show ?thesis by (simp add: remove_mounts_def)
qed

section \<open>What the engines say of other names\<close>

definition kept :: "string \<Rightarrow> 'f World \<Rightarrow> 'f World \<Rightarrow> bool" where
  "kept n w w' \<longleftrightarrow> (\<forall>m. m \<noteq> n \<longrightarrow> Native_Status m (w_native w') = Native_Status m (w_native w) \<and>
     Wasm_Status m (w_wasm w') = Wasm_Status m (w_wasm w))"

lemma kept_engines: "engines w' = engines w \<Longrightarrow> kept n w w'"
  by (simp add: kept_def engines_def)

lemma kept_trans: "kept n w w1 \<Longrightarrow> kept n w1 w2 \<Longrightarrow> kept n w w2"
  by (simp add: kept_def)

lemma kept_after: "kept n w w1 \<Longrightarrow> engines w2 = engines w1 \<Longrightarrow> kept n w w2"
  by (simp add: kept_def engines_def)

lemma kept_status:
  assumes "kept n w w'" "Registry_Get (daemon_registry H fuel) t = Inr eng" "m \<noteq> n"
  shows "eng_Status eng m w' = eng_Status eng m w"
  using assms by (auto simp: kept_def daemon_registry_get native_eng_def wasm_eng_def split: if_splits)

lemma kept_start:
  assumes "Registry_Get (daemon_registry H fuel) t = Inr eng" "om_Name (pod_Metadata pod) = n"
  shows "kept n w (snd (eng_Start eng pod target env vols w))"
proof -
  have nat: "Native_Status m (fst (snd (Native_Start H fuel pod target env vols s))) = Native_Status m (fst s)"
    if "m \<noteq> n" for m s
    using native.start_status [of m H fuel pod target env vols s] that assms(2) by simp
  have was: "Wasm_Status m (fst (snd (Wasm_Start H pod target env vols s))) = Wasm_Status m (fst s)"
    if "m \<noteq> n" for m s
    using wasm.start_status [of m H pod target env vols s] that assms(2) by simp
  show ?thesis
    using assms(1) nat [of _ "(w_native w, w_os w)"] was [of _ "(w_wasm w, w_os w)"]
    by (auto simp: daemon_registry_get kept_def native_eng_def wasm_eng_def Let_def case_prod_beta split: if_splits)
qed

lemma kept_stop: "kept n w (stop_engine (daemon_env H fuel cfg) t m w)"
proof -
  have "Native_Status k (snd (Native_Stop m (w_native w))) = Native_Status k (w_native w)" for k
    using native.stop_status [of k m "(w_native w, w_os w)"] by (simp add: native_stop_def case_prod_beta Let_def)
  moreover have "Wasm_Status k (snd (Wasm_Stop m (w_wasm w))) = Wasm_Status k (w_wasm w)" for k
    using wasm.stop_status [of k m "(w_wasm w, w_os w)"] by (simp add: wasm_stop_def case_prod_beta Let_def)
  ultimately show ?thesis
    by (simp add: stop_engine_def daemon_env_def daemon_registry_get kept_def native_eng_def wasm_eng_def
        Let_def case_prod_beta)
qed

section \<open>Launching and terminating\<close>

lemma abort_launch_world:
  "lm_world (abort_launch E key pod hostPort a lm) = CleanupVolumes (le_host E) pod (lm_world lm)"
  by (simp add: abort_launch_def Let_def lm_frame split: option.splits)

lemma finish_launch_engines:
  "engines (lm_world (finish_launch (daemon_env H fuel cfg) key pod hostPort containerPort a mp lm)) =
   engines (lm_world lm)"
proof -
  let ?px = "NewProxy (loopback hostPort) (loopback containerPort)"
  have "engines (snd (snd (Proxy_Start (lift_host H) ?px (lm_world lm)))) = engines (lm_world lm)"
    by (rule engines_Proxy(1))
  then show ?thesis
    by (simp add: finish_launch_def Let_def case_prod_beta lm_frame daemon_env_def split: option.splits prod.splits)
qed

lemma start_launch_kept:
  assumes "om_Name (pod_Metadata pod) = n"
  shows "kept n (lm_world lm) (lm_world (snd (start_launch (daemon_env H fuel cfg) key pod engineType target env
    hostPort containerPort projected lm)))"
proof -
  let ?E = "daemon_env H fuel cfg"
  have le: "le_host ?E = lift_host H" "le_registry ?E = daemon_registry H fuel" by (simp_all add: daemon_env_def)
  obtain ierr w1 where i: "runInitContainers (lift_host H) env (ps_InitContainers (pod_Spec pod)) (lm_world lm) = (ierr, w1)"
    by (meson surj_pair)
  have e1: "engines w1 = engines (lm_world lm)"
    using engines_runInitContainers [of H env "ps_InitContainers (pod_Spec pod)" "lm_world lm"] by (simp add: i)
  show ?thesis
  proof (cases ierr)
    case (Some e)
    then show ?thesis using e1
      by (simp add: start_launch_def Let_def lm_frame le i abort_launch_world same_engines kept_engines)
  next
    case None
    show ?thesis
    proof (cases "Registry_Get (daemon_registry H fuel) engineType")
      case (Inl e)
      then show ?thesis using e1 None
        by (simp add: start_launch_def Let_def lm_frame le i abort_launch_world same_engines kept_engines)
    next
      case (Inr eng)
      obtain r w2 where s: "eng_Start eng pod target env projected w1 = (r, w2)" by (meson surj_pair)
      have k: "kept n (lm_world lm) w2"
        using kept_trans [OF kept_engines [OF e1] kept_start [OF Inr assms, of w1 target env projected]] s by simp
      show ?thesis
        using None Inr s
        by (cases r) (simp_all add: start_launch_def Let_def lm_frame le i abort_launch_world
            kept_after [OF k] same_engines finish_launch_engines)
    qed
  qed
qed

lemma Launch_kept:
  assumes "Launch (daemon_env H fuel cfg) pod engineType target env lm = ((r, pod'), lm')"
  shows "kept (om_Name (pod_Metadata pod)) (lm_world lm) (lm_world lm')"
proof -
  let ?E = "daemon_env H fuel cfg" and ?n = "om_Name (pod_Metadata pod)"
  have le: "le_host ?E = lift_host H" by (simp add: daemon_env_def)
  have self: "kept ?n (lm_world lm) (lm_world lm)" by (rule kept_engines) simp
  obtain a pool where a: "(if wants_port pod then Allocate (pod_key pod) (lm_portPool lm)
      else (Inr 0, lm_portPool lm)) = (a, pool)" by (meson surj_pair)
  show ?thesis
  proof (cases "tlookup (lm_pods lm) (pod_key pod) \<noteq> None \<or> isl a")
    case True
    then have "lm_world lm' = lm_world lm"
      using assms a by (auto simp: Launch_def Let_def isl_def split: if_splits)
    then show ?thesis using self by simp
  next
    case False
    then obtain hostPort where h: "a = Inr hostPort" by (cases a) auto
    let ?pod = "set_host_port hostPort pod"
    have n: "om_Name (pod_Metadata ?pod) = ?n" by (simp add: set_host_port_def)
    obtain v w1 where v: "ProjectVolumes (lift_host H) (le_config ?E) ?pod (lm_world lm) = (v, w1)" by (meson surj_pair)
    have e1: "engines w1 = engines (lm_world lm)"
      using engines_ProjectVolumes [of H "le_config ?E" ?pod "lm_world lm"] by (simp add: v)
    note st = kept_trans [OF kept_engines [OF e1, of ?n] start_launch_kept [OF n,
        of "lm\<lparr>lm_portPool := pool, lm_world := w1\<rparr>" H fuel cfg, simplified]]
    show ?thesis
      using assms False a h self e1 st
      by (auto simp: Launch_def Let_def le v case_prod_beta lm_frame kept_engines split: sum.splits)
  qed
qed

lemma Terminate_kept:
  "kept n (lm_world lm) (lm_world (snd (Terminate (daemon_env H fuel cfg) ns name lm)))"
proof (cases "load_pod lm (podKey ns name)")
  case None
  then show ?thesis by (simp add: Terminate_unmanaged kept_engines)
next
  case (Some am)
  obtain a mp where am: "am = (a, mp)" by (cases am)
  let ?E = "daemon_env H fuel cfg"
  let ?w = "CleanupVolumes (lift_host H) (mp_pod mp) (remove_mounts (lift_host H) (mp_pod mp)
    (snd (close_proxy (lift_host H) (mp\<lparr>mp_cancelled := True\<rparr>) (lm_world lm))))"
  have "engines ?w = engines (lm_world lm)" by (simp add: same_engines)
  then have "kept n (lm_world lm) (stop_engine ?E (mp_engineType mp) name ?w)"
    by (rule kept_trans [OF kept_engines kept_stop])
  moreover have "lm_world (snd (Terminate ?E ns name lm)) = stop_engine ?E (mp_engineType mp) name ?w"
    using Some am by (simp add: Terminate_def Let_def case_prod_beta lm_frame daemon_env_def)
  ultimately show ?thesis by simp
qed

end
