(* ===== verification/Server_Correct.thy ===== *)
theory Server_Correct
  imports Server_Worlds
begin

text \<open>
  The server is a pod manager as the replica set controller needs it: the interpretation of the
  locale on the server's own operations, and with it the convergence of replica sets on the whole
  daemon.
\<close>

section \<open>The invariant of the server\<close>

text \<open>
  The lifecycle manager's invariant holds, each stored pod is under its own key, and every managed
  pod is stored.
\<close>

definition srv_inv :: "('f, 'b) Server \<Rightarrow> bool" where
  "srv_inv s \<longleftrightarrow> lm_inv (srv_lifecycle s) \<and> tdistinct (srv_pods s) \<and>
     (\<forall>k p. tlookup (srv_pods s) k = Some p \<longrightarrow> k = pod_key p) \<and>
     (\<forall>k. load_pod (srv_lifecycle s) k \<noteq> None \<longrightarrow> tlookup (srv_pods s) k \<noteq> None)"

definition srv_free :: "string \<Rightarrow> string \<Rightarrow> ('f, 'b) Server \<Rightarrow> bool" where
  "srv_free ns n s \<longleftrightarrow> tlookup (srv_pods s) (podKey ns n) = None \<and>
     pp_holds (lm_portPool (srv_lifecycle s)) (podKey ns n) = None"

lemma storePod_simps [simp]:
  "srv_pods (storePod V pod s) = tstore (pod_key pod) pod (srv_pods s)"
  "srv_lifecycle (storePod V pod s) = srv_lifecycle s"
  "srv_configStore (storePod V pod s) = srv_configStore s"
  "srv_services (storePod V pod s) = srv_services s" "srv_proxyManager (storePod V pod s) = srv_proxyManager s"
  "srv_controllerStore (storePod V pod s) = srv_controllerStore s"
  by (simp_all add: storePod_def Let_def kv_put_def pod_key_def podKey_def)

lemma deletePod_simps [simp]:
  "srv_pods (deletePod V ns n s) = tdelete (podKey ns n) (srv_pods s)"
  "srv_lifecycle (deletePod V ns n s) = srv_lifecycle s"
  "srv_configStore (deletePod V ns n s) = srv_configStore s"
  by (simp_all add: deletePod_def Let_def kv_del_def podKey_def)

lemma pod_state_simps [simp]:
  "pod_Metadata (failed_pod V e pod) = pod_Metadata pod" "st_Phase (pod_Status (failed_pod V e pod)) = PodFailed"
  "pod_Metadata (pending_pod V s pod) = pod_Metadata pod"
  "pod_Metadata (running_pod pod) = pod_Metadata pod" "st_Phase (pod_Status (running_pod pod)) = PodRunning"
  "pod_Metadata (set_host_port p pod) = pod_Metadata pod"
  by (simp_all add: failed_pod_def pending_pod_def running_pod_def set_host_port_def)

lemma pod_key_meta: "pod_Metadata p = pod_Metadata q \<Longrightarrow> pod_key p = pod_key q"
  by (simp add: pod_key_def)

lemma Launch_pod_meta: "Launch E pod t x env lm = ((r, pod'), lm') \<Longrightarrow> pod_Metadata pod' = pod_Metadata pod"
  by (auto simp: Launch_def Let_def split: if_splits prod.splits sum.splits)

section \<open>The status of other pods\<close>

text \<open>The status depends on the configuration store of the environment in no way.\<close>

lemma LM_Status_env: "LM_Status (srv_lm_env V s) ns n lm = LM_Status (srv_lm_env V s') ns n lm"
proof -
  have "le_host (srv_lm_env V s) = le_host (srv_lm_env V s')"
      "le_registry (srv_lm_env V s) = le_registry (srv_lm_env V s')"
    by (simp_all add: srv_lm_env_def daemon_env_def)
  then show ?thesis unfolding LM_Status_def by (simp only:)
qed

lemma LM_Status_kept:
  assumes "kept n (lm_world lm) (lm_world lm')" "load_pod lm' (podKey ns m) = load_pod lm (podKey ns m)" "m \<noteq> n"
  shows "LM_Status (srv_lm_env V s) ns m lm' = LM_Status (srv_lm_env V s) ns m lm"
proof (cases "load_pod lm (podKey ns m)")
  case (Some am)
  obtain a mp where am: "am = (a, mp)" by (cases am)
  have r: "le_registry (srv_lm_env V s) = daemon_registry (se_host V) (se_fuel V)"
    by (simp add: srv_lm_env_def daemon_env_def)
  show ?thesis
  proof (cases "Registry_Get (daemon_registry (se_host V) (se_fuel V)) (mp_engineType mp)")
    case (Inr eng)
    then show ?thesis using Some am assms(2) kept_status [OF assms(1) Inr assms(3)]
      by (simp add: LM_Status_def r Let_def)
  qed (use Some am assms(2) in \<open>simp add: LM_Status_def r\<close>)
qed (use assms(2) in \<open>simp add: LM_Status_def\<close>)

lemma live_status_kept:
  assumes "kept n (lm_world (srv_lifecycle s)) (lm_world (srv_lifecycle s'))"
    and "load_pod (srv_lifecycle s') (pod_key p) = load_pod (srv_lifecycle s) (pod_key p)" "pod_name p \<noteq> n"
  shows "live_status V s' p = live_status V s p"
  using LM_Status_kept [OF assms(1) assms(2) [unfolded pod_key_def] assms(3), of V s']
  by (simp add: live_status_def LM_Status_env [of V s _ _ _ s'])

lemma live_status_unmanaged: "load_pod (srv_lifecycle s) (pod_key p) = None \<Longrightarrow> live_status V s p = p"
  by (simp add: live_status_def LM_Status_def pod_key_def)

lemma live_status_same: "srv_lifecycle s' = srv_lifecycle s \<Longrightarrow> live_status V s' p = live_status V s p"
  by (simp add: live_status_def LM_Status_env [of V s' _ _ _ s])

lemma live_status_meta [simp]: "pod_Metadata (live_status V s p) = pod_Metadata p"
  by (simp add: live_status_def split: option.splits)

section \<open>Listing\<close>

text \<open>Storing under a new key adds a pod at the end; storing again replaces it.\<close>

lemma tstore_new: "tlookup t k = None \<Longrightarrow> tstore k v t = t @ [(k, v)]"
  by (induction t) (auto split: if_splits)

lemma tstore_twice: "tstore k v (tstore k u t) = tstore k v t"
  by (rule update_last)

lemma pod_key_eq: "pod_ns p = ns \<Longrightarrow> pod_key p = podKey ns n \<longleftrightarrow> pod_name p = n"
  by (auto simp: pod_key_def podKey_def)

lemma allPods_in: "srv_inv s \<Longrightarrow> p \<in> set (allPods ns s) \<longleftrightarrow>
    tlookup (srv_pods s) (pod_key p) = Some p \<and> (ns = [] \<or> pod_ns p = ns)"
proof -
  assume inv: "srv_inv s"
  have "p \<in> snd ` set (srv_pods s) \<longleftrightarrow> (\<exists>k. tlookup (srv_pods s) k = Some p)"
    by (rule tvalues_iff) (use inv in \<open>simp add: srv_inv_def\<close>)
  also have "\<dots> \<longleftrightarrow> tlookup (srv_pods s) (pod_key p) = Some p"
    using inv unfolding srv_inv_def by metis
  finally show ?thesis by (auto simp: allPods_def)
qed

lemma allPods_names:
  assumes "srv_inv s" "ns \<noteq> []"
  shows "distinct (map pod_name (allPods ns s))"
proof -
  have d: "distinct (map fst (srv_pods s))" and k: "\<And>k p. tlookup (srv_pods s) k = Some p \<Longrightarrow> k = pod_key p"
    using assms(1) by (simp_all add: srv_inv_def tdistinct_def)
  have "map fst (srv_pods s) = map (pod_key \<circ> snd) (srv_pods s)"
  proof (rule map_cong [OF refl])
    fix kp assume "kp \<in> set (srv_pods s)"
    then show "fst kp = (pod_key \<circ> snd) kp" using k [of "fst kp" "snd kp"] d by simp
  qed
  then have "distinct (map pod_key (map snd (srv_pods s)))" using d by (simp only: map_map)
  then have "distinct (map pod_key (allPods ns s))" unfolding allPods_def by (rule distinct_map_filter)
  moreover have "\<forall>p \<in> set (allPods ns s). pod_key p = podKey ns (pod_name p)"
    using assms(2) by (auto simp: allPods_def pod_key_def)
  ultimately show ?thesis by (auto simp: distinct_map inj_on_def)
qed

text \<open>A launch of a pod under a free name, seen from the list of its namespace.\<close>

lemma ListPods_add:
  assumes "srv_inv s" "pod_ns pod \<noteq> []" "tlookup (srv_pods s) (pod_key pod) = None"
    and "srv_pods s' = tstore (pod_key pod) pod' (srv_pods s)" "pod_Metadata pod' = pod_Metadata pod"
    and "kept (pod_name pod) (lm_world (srv_lifecycle s)) (lm_world (srv_lifecycle s'))"
    and "\<And>k. k \<noteq> pod_key pod \<Longrightarrow> load_pod (srv_lifecycle s') k = load_pod (srv_lifecycle s) k"
  shows "ListPods V (pod_ns pod) s' = ListPods V (pod_ns pod) s @ [live_status V s' pod']"
proof -
  have all: "allPods (pod_ns pod) s' = allPods (pod_ns pod) s @ [pod']"
    using assms(2,5) by (simp add: allPods_def assms(4) tstore_new [OF assms(3)])
  have "live_status V s' p = live_status V s p" if "p \<in> set (allPods (pod_ns pod) s)" for p
  proof -
    have p: "tlookup (srv_pods s) (pod_key p) = Some p" "pod_ns p = pod_ns pod"
      using that allPods_in [OF assms(1)] assms(2) by auto
    then have "pod_key p \<noteq> pod_key pod" using assms(3) by auto
    then have "pod_name p \<noteq> pod_name pod" using p(2) by (auto simp: pod_key_def)
    then show ?thesis using assms(7) [OF \<open>pod_key p \<noteq> pod_key pod\<close>] live_status_kept [OF assms(6)] by blast
  qed
  then show ?thesis by (simp add: ListPods_def all)
qed

section \<open>Launching through the server\<close>

lemma srv_inv_free: "srv_inv s \<Longrightarrow> srv_free ns n s \<Longrightarrow> load_pod (srv_lifecycle s) (podKey ns n) = None"
  unfolding srv_inv_def srv_free_def by blast

text \<open>The two ends of a launch: the pod is stored with the status it got, and the manager has it or not.\<close>

lemma LaunchPod_cases:
  assumes "LaunchPod V pod s = (r, s')"
  obtains (config) e where "r = Some e" "srv_pods s' = tstore (pod_key pod) (failed_pod V e pod) (srv_pods s)"
      "srv_lifecycle s' = srv_lifecycle s"
  | (failed) e engineType target env s0 pod1 lm where "r = Some e"
      "srv_pods s' = tstore (pod_key pod) (failed_pod V e pod1) (srv_pods s)" "srv_lifecycle s' = lm"
      "Launch (srv_lm_env V s0) (pending_pod V s0 pod) engineType target env (srv_lifecycle s) = ((Some e, pod1), lm)"
      "pod_Metadata pod1 = pod_Metadata pod"
  | (ok) engineType target env s0 pod1 lm where "r = None"
      "srv_pods s' = tstore (pod_key pod) (running_pod pod1) (srv_pods s)" "srv_lifecycle s' = lm"
      "Launch (srv_lm_env V s0) (pending_pod V s0 pod) engineType target env (srv_lifecycle s) = ((None, pod1), lm)"
      "pod_Metadata pod1 = pod_Metadata pod"
proof (cases "ExtractEngineConfig (\<lambda>p. h_Stat (se_host V) p (srv_os (storePod V pod s))) pod")
  case (Inl e)
  then have s': "r = Some e" "s' = storePod V (failed_pod V e pod) (storePod V pod s)"
    using assms by (simp_all add: LaunchPod_def)
  have k: "pod_key (failed_pod V e pod) = pod_key pod" by (rule pod_key_meta) simp
  show ?thesis by (rule config [of e]) (simp_all add: s' k tstore_twice)
next
  case (Inr et)
  obtain engineType target where et: "et = (engineType, target)" by (cases et)
  let ?s0 = "storePod V pod s"
  let ?env = "CollectEnvVars (ps_Containers (pod_Spec pod)) @ GenerateServiceEnv (se_host V)
    (om_Namespace (pod_Metadata pod)) (srv_services ?s0, srv_db ?s0) (srv_proxyManager ?s0)"
  obtain q pod1 lm where l: "Launch (srv_lm_env V ?s0) (pending_pod V ?s0 pod) engineType target ?env
      (srv_lifecycle ?s0) = ((q, pod1), lm)" by (metis surj_pair)
  have meta: "pod_Metadata pod1 = pod_Metadata pod" using Launch_pod_meta [OF l] by simp
  have res: "(r, s') = (case q of Some err \<Rightarrow> (Some err, storePod V (failed_pod V err pod1) (?s0\<lparr>srv_lifecycle := lm\<rparr>))
      | None \<Rightarrow> (None, storePod V (running_pod pod1) (?s0\<lparr>srv_lifecycle := lm\<rparr>)))"
    using assms l Inr et unfolding LaunchPod_def Let_def by simp
  show ?thesis
  proof (cases q)
    case (Some e)
    have k: "pod_key (failed_pod V e pod1) = pod_key pod" by (rule pod_key_meta) (simp add: meta)
    show ?thesis
      by (rule failed [of e pod1 lm ?s0 engineType target ?env]) (use res l meta Some in \<open>simp_all add: k tstore_twice\<close>)
  next
    case None
    have k: "pod_key (running_pod pod1) = pod_key pod" by (rule pod_key_meta) (simp add: meta)
    show ?thesis
      by (rule ok [of pod1 lm ?s0 engineType target ?env]) (use res l meta None in \<open>simp_all add: k tstore_twice\<close>)
  qed
qed

text \<open>What both kinds of end have in common.\<close>

lemma srv_launched:
  assumes inv: "srv_inv s" and ns: "pod_ns pod \<noteq> []" and free: "srv_free (pod_ns pod) (pod_name pod) s"
    and pods: "srv_pods s' = tstore (pod_key pod) pod' (srv_pods s)" and meta: "pod_Metadata pod' = pod_Metadata pod"
    and lm: "lm_inv (srv_lifecycle s')"
    and kept: "kept (pod_name pod) (lm_world (srv_lifecycle s)) (lm_world (srv_lifecycle s'))"
    and load: "\<And>k. k \<noteq> pod_key pod \<Longrightarrow> load_pod (srv_lifecycle s') k = load_pod (srv_lifecycle s) k"
    and holds: "\<And>k. k \<noteq> pod_key pod \<Longrightarrow>
      pp_holds (lm_portPool (srv_lifecycle s')) k = pp_holds (lm_portPool (srv_lifecycle s)) k"
    and phase: "st_Phase (pod_Status (live_status V s' pod')) = phase"
  shows "srv_inv s' \<and>
    (\<forall>n. n \<noteq> pod_name pod \<longrightarrow> srv_free (pod_ns pod) n s \<longrightarrow> srv_free (pod_ns pod) n s') \<and>
    (\<exists>p. pod_Metadata p = pod_Metadata pod \<and> st_Phase (pod_Status p) = phase \<and>
       mset (ListPods V (pod_ns pod) s') = add_mset p (mset (ListPods V (pod_ns pod) s)))"
proof (intro conjI)
  have key: "pod_key pod' = pod_key pod" by (rule pod_key_meta [OF meta])
  have new: "tlookup (srv_pods s) (pod_key pod) = None" using free by (simp add: srv_free_def pod_key_def)
  have "load_pod (srv_lifecycle s') k \<noteq> None \<longrightarrow> tlookup (srv_pods s') k \<noteq> None" for k
    using inv load [of k] by (cases "k = pod_key pod") (auto simp: srv_inv_def pods)
  then show "srv_inv s'" using inv lm key by (auto simp: srv_inv_def pods split: if_splits)
  show "\<forall>n. n \<noteq> pod_name pod \<longrightarrow> srv_free (pod_ns pod) n s \<longrightarrow> srv_free (pod_ns pod) n s'"
  proof (intro allI impI)
    fix n assume n: "n \<noteq> pod_name pod" "srv_free (pod_ns pod) n s"
    then have "podKey (pod_ns pod) n \<noteq> pod_key pod" by (simp add: pod_key_def podKey_def)
    then show "srv_free (pod_ns pod) n s'" using n(2) holds by (simp add: srv_free_def pods)
  qed
  have "ListPods V (pod_ns pod) s' = ListPods V (pod_ns pod) s @ [live_status V s' pod']"
    by (rule ListPods_add [OF inv ns new pods meta kept load])
  then show "\<exists>p. pod_Metadata p = pod_Metadata pod \<and> st_Phase (pod_Status p) = phase \<and>
       mset (ListPods V (pod_ns pod) s') = add_mset p (mset (ListPods V (pod_ns pod) s))"
    using meta phase by (intro exI [of _ "live_status V s' pod'"]) simp
qed

lemma Launch_status_phase:
  assumes "Launch (srv_lm_env V s0) (pending_pod V s0 pod) engineType target env lm = ((None, pod1), srv_lifecycle s')"
    and "pod_Metadata p = pod_Metadata pod"
  shows "st_Phase (pod_Status (live_status V s' p)) = PodRunning"
proof -
  obtain st where "LM_Status (srv_lm_env V s0) (pod_ns pod) (pod_name pod) (srv_lifecycle s') = Some st"
      "st_Phase st = PodRunning"
    using Launch_runs [OF assms(1) [unfolded srv_lm_env_def]] by (auto simp: srv_lm_env_def)
  then show ?thesis using assms(2) by (simp add: live_status_def LM_Status_env [of V s' _ _ _ s0])
qed

lemma LaunchPod_law:
  assumes "srv_inv s" "pod_ns pod \<noteq> []" "srv_free (pod_ns pod) (pod_name pod) s" "LaunchPod V pod s = (r, s')"
  shows "srv_inv s' \<and>
    (\<forall>n. n \<noteq> pod_name pod \<longrightarrow> srv_free (pod_ns pod) n s \<longrightarrow> srv_free (pod_ns pod) n s') \<and>
    (\<exists>p. pod_Metadata p = pod_Metadata pod \<and>
       st_Phase (pod_Status p) = (if r = None then PodRunning else PodFailed) \<and>
       mset (ListPods V (pod_ns pod) s') = add_mset p (mset (ListPods V (pod_ns pod) s)))"
  using assms(4)
proof (cases rule: LaunchPod_cases)
  case (config e)
  have "load_pod (srv_lifecycle s) (pod_key pod) = None"
    using srv_inv_free [OF assms(1,3)] by (simp add: pod_key_def)
  then have "live_status V s' (failed_pod V e pod) = failed_pod V e pod"
    by (intro live_status_unmanaged) (simp add: config(3) pod_key_def)
  then have "st_Phase (pod_Status (live_status V s' (failed_pod V e pod))) = (if r = None then PodRunning else PodFailed)"
    by (simp add: config(1))
  then show ?thesis
    by (rule srv_launched [OF assms(1-3) config(2), rotated -1])
      (use assms(1) in \<open>simp_all add: config(3) srv_inv_def kept_engines\<close>)
next
  case (failed e engineType target env s0 pod1 lm)
  let ?p = "pending_pod V s0 pod"
  have k: "pod_key ?p = pod_key pod" by (rule pod_key_meta) simp
  have pre: "lm_inv (srv_lifecycle s)" "pp_holds (lm_portPool (srv_lifecycle s)) (pod_key ?p) = None"
    using assms(1,3) by (simp_all add: srv_inv_def srv_free_def k) (simp add: pod_key_def)
  note er = Launch_err [OF pre failed(4)] and ld = Launch_err_load [OF pre failed(4)]
  have "load_pod (srv_lifecycle s') (pod_key pod) = None"
    using srv_inv_free [OF assms(1,3)] ld by (simp add: pod_key_def failed(3))
  then have "live_status V s' (failed_pod V e pod1) = failed_pod V e pod1"
    by (intro live_status_unmanaged) (use failed(5) in \<open>simp add: pod_key_def\<close>)
  then have "st_Phase (pod_Status (live_status V s' (failed_pod V e pod1))) = (if r = None then PodRunning else PodFailed)"
    by (simp add: failed(1))
  then show ?thesis
    by (rule srv_launched [OF assms(1-3) failed(2), rotated -1])
      (use Launch_kept [OF failed(4) [unfolded srv_lm_env_def]] er ld in \<open>simp_all add: failed(3,5)\<close>)
next
  case (ok engineType target env s0 pod1 lm)
  let ?p = "pending_pod V s0 pod"
  have k: "pod_key ?p = pod_key pod" by (rule pod_key_meta) simp
  have pre: "lm_inv (srv_lifecycle s)" "pp_holds (lm_portPool (srv_lifecycle s)) (pod_key ?p) = None"
    using assms(1,3) by (simp_all add: srv_inv_def srv_free_def k) (simp add: pod_key_def)
  have run: "st_Phase (pod_Status (live_status V s' (running_pod pod1))) = (if r = None then PodRunning else PodFailed)"
    using Launch_status_phase [OF ok(4) [folded ok(3)], of "running_pod pod1"] by (simp add: ok(1,5))
  have lm: "lm_inv lm" "\<And>k. k \<noteq> pod_key pod \<Longrightarrow> load_pod lm k = load_pod (srv_lifecycle s) k"
      "\<And>k. k \<noteq> pod_key pod \<Longrightarrow> pp_holds (lm_portPool lm) k = pp_holds (lm_portPool (srv_lifecycle s)) k"
    by (rule Launch_ok [OF pre ok(4)]; simp add: k)+
  show ?thesis
    by (rule srv_launched [OF assms(1-3) ok(2) _ _ _ _ _ run])
      (use Launch_kept [OF ok(4) [unfolded srv_lm_env_def]] lm in \<open>simp_all add: ok(3,5)\<close>)
qed

section \<open>Deleting through the server\<close>

lemma DeletePod_law:
  assumes "srv_inv s" "ns \<noteq> []"
  shows "\<exists>s'. DeletePod V ns n s = (None, s') \<and> srv_inv s' \<and>
    mset (ListPods V ns s') = filter_mset (\<lambda>p. pod_name p \<noteq> n) (mset (ListPods V ns s))"
proof -
  let ?E = "srv_lm_env V s" and ?lm = "srv_lifecycle s" and ?k = "podKey ns n"
  obtain r lm where t: "Terminate ?E ns n ?lm = (r, lm)" by (meson surj_pair)
  let ?s = "deletePod V ns n (s\<lparr>srv_lifecycle := lm\<rparr>)"
  have lmi: "lm_inv ?lm" using assms(1) by (simp add: srv_inv_def)
  have inv1: "lm_inv lm" by (rule lm_inv_Terminate [OF lmi t])
  have gone: "load_pod lm ?k = None"
  proof (cases "load_pod ?lm ?k")
    case None
    then show ?thesis using t Terminate_unmanaged [of ?lm ns n ?E] by simp
  next
    case (Some am)
    obtain a mp where am: "am = (a, mp)" by (cases am)
    show ?thesis by (rule Terminate_managed [OF Some [unfolded am] t]) (simp add: load_pod_def)
  qed
  have others: "load_pod lm k = load_pod ?lm k" if "k \<noteq> ?k" for k by (rule Terminate_others [OF lmi t that])
  have "load_pod lm k \<noteq> None \<longrightarrow> tlookup (srv_pods ?s) k \<noteq> None" for k
    using assms(1) gone others [of k] by (cases "k = ?k") (auto simp: srv_inv_def)
  then have inv: "srv_inv ?s" using assms(1) inv1 by (auto simp: srv_inv_def split: if_splits)
  have kept: "kept n (lm_world ?lm) (lm_world lm)"
    using Terminate_kept [of n ?lm "se_host V" "se_fuel V" "(srv_configStore s, srv_db s)" ns n] t
    by (simp add: srv_lm_env_def)
  have same: "live_status V ?s p = live_status V s p" if "p \<in> set (allPods ns s)" "pod_name p \<noteq> n" for p
  proof -
    have "pod_key p \<noteq> ?k" using that assms(2) by (auto simp: allPods_def pod_key_def podKey_def)
    then show ?thesis using live_status_kept [of n s ?s p V] kept others that(2) by simp
  qed
  have fst_key: "fst kp = pod_key (snd kp)" if "kp \<in> set (srv_pods s)" for kp
    using assms(1) that unfolding srv_inv_def by (metis prod.collapse tlookup_in_set)
  have all: "allPods ns ?s = filter (\<lambda>p. pod_name p \<noteq> n) (allPods ns s)"
  proof -
    have "filter (\<lambda>kp. ?k \<noteq> fst kp \<and> pod_ns (snd kp) = ns) (srv_pods s) =
        filter (\<lambda>kp. pod_name (snd kp) \<noteq> n \<and> pod_ns (snd kp) = ns) (srv_pods s)"
      by (rule filter_cong [OF refl]) (use fst_key in \<open>auto simp: pod_key_def podKey_def\<close>)
    then show ?thesis using assms(2) by (simp add: allPods_def AList.delete_eq case_prod_beta filter_map comp_def conj_commute)
  qed
  have "ListPods V ns ?s = filter (\<lambda>p. pod_name p \<noteq> n) (ListPods V ns s)"
    unfolding ListPods_def all using same by (simp add: filter_map comp_def)
  then show ?thesis using inv t by (simp add: DeletePod_def Let_def)
qed

section \<open>The server is a pod manager\<close>

interpretation srv: pod_manager "srv_pod_manager V" "srv_StoreReplicaSet V" srv_inv srv_free
  for V :: "('f, 'b) srv_env"
proof
  fix s s' :: "('f, 'b) Server" and ns n pod r rs
  show "srv_inv s \<Longrightarrow> ns \<noteq> [] \<Longrightarrow> distinct (map pod_name (pm_ListPods (srv_pod_manager V) ns s)) \<and>
      (\<forall>p \<in> set (pm_ListPods (srv_pod_manager V) ns s). pod_ns p = ns)"
    using allPods_names [of s ns] by (auto simp: srv_pod_manager_def ListPods_def comp_def allPods_def)
  show "srv_inv s \<Longrightarrow> pod_ns pod \<noteq> [] \<Longrightarrow> srv_free (pod_ns pod) (pod_name pod) s \<Longrightarrow>
      pm_LaunchPod (srv_pod_manager V) pod s = (r, s') \<Longrightarrow> srv_inv s' \<and>
      (\<forall>n. n \<noteq> pod_name pod \<longrightarrow> srv_free (pod_ns pod) n s \<longrightarrow> srv_free (pod_ns pod) n s') \<and>
      (\<exists>pod'. pod_Metadata pod' = pod_Metadata pod \<and>
         st_Phase (pod_Status pod') = (if r = None then PodRunning else PodFailed) \<and>
         mset (pm_ListPods (srv_pod_manager V) (pod_ns pod) s') =
           add_mset pod' (mset (pm_ListPods (srv_pod_manager V) (pod_ns pod) s)))"
    using LaunchPod_law [of s pod V r s'] by (simp add: srv_pod_manager_def)
  show "srv_inv s \<Longrightarrow> ns \<noteq> [] \<Longrightarrow> \<exists>s'. pm_DeletePod (srv_pod_manager V) ns n s = (None, s') \<and> srv_inv s' \<and>
      mset (pm_ListPods (srv_pod_manager V) ns s') =
        filter_mset (\<lambda>p. pod_name p \<noteq> n) (mset (pm_ListPods (srv_pod_manager V) ns s))"
    using DeletePod_law [of s ns V n] by (simp add: srv_pod_manager_def)
  show "srv_inv s \<Longrightarrow> srv_inv (srv_StoreReplicaSet V rs s) \<and>
      pm_ListPods (srv_pod_manager V) ns (srv_StoreReplicaSet V rs s) = pm_ListPods (srv_pod_manager V) ns s"
  proof -
    assume inv: "srv_inv s"
    let ?s = "srv_StoreReplicaSet V rs s"
    have same: "srv_lifecycle ?s = srv_lifecycle s" "srv_pods ?s = srv_pods s"
      by (simp_all add: srv_StoreReplicaSet_def on_ctl_def Let_def)
    have "ListPods V ns ?s = ListPods V ns s"
      by (simp add: ListPods_def allPods_def same(2) live_status_same [OF same(1)])
    then show ?thesis using inv by (simp add: srv_inv_def same srv_pod_manager_def)
  qed
qed

section \<open>Properties\<close>


definition demo_V :: "(unit, mem_db) srv_env" where
  "demo_V = \<lparr>se_host = demo_host, se_fuel = 1, se_storage = demo_storage, se_Error = (\<lambda>e. ''error''),
     se_Now = (\<lambda>f. 0), se_RFC3339 = (\<lambda>t. ''1970''), se_PodSpec = demo_marshal\<rparr>"

definition demo_server :: "(unit, mem_db) Server" where
  "demo_server = NewServer demo_V (new_daemon ()) (fst empty_cfg) (fst empty_ctl) None"

definition one_replica :: ReplicaSet where
  "one_replica = zero_ReplicaSet
     \<lparr>rs_Metadata := zero_ObjectMeta\<lparr>om_Name := ''web'', om_Namespace := ''default''\<rparr>,
      rs_Spec := \<lparr>rss_Replicas = Some 1, rss_Selector = None, rss_Template = zero_PodTemplateSpec
        \<lparr>pt_Metadata := zero_ObjectMeta\<lparr>om_Annotations := Some [(AnnotationExecutablePath, ''app'')]\<rparr>\<rparr>\<rparr>\<rparr>"

definition demo_draw :: "nat \<Rightarrow> draw" where
  "demo_draw i = (Some ''abc'', ''u1'', 0)"

lemma demo_server_inv: "srv_inv demo_server" "srv_free ns n demo_server" "ListPods V ns demo_server = []"
  using demo_inv by (simp_all add: srv_inv_def srv_free_def demo_server_def NewServer_def kv_load_def
      ListPods_def allPods_def load_pod_def) (simp add: new_daemon_def NewLifecycleManager_def)

lemma one_replica_simps [simp]:
  "rs_desired one_replica = 1" "rs_ns one_replica = ''default''"
  by (simp_all add: one_replica_def rs_desired_def)

lemma demo_Launch_plain:
  assumes "pod_Spec pod = zero_PodSpec" "om_UID (pod_Metadata pod) \<noteq> []"
    and "mlookup (om_Annotations (pod_Metadata pod)) ''lok8s.io/container-port'' = None"
  shows "fst (fst (Launch (srv_lm_env demo_V s0) pod ''native'' ''app'' env (new_daemon ()))) = None"
proof -
  have "fst (Native_Start demo_host 1 pod ''app'' env [] (NewNativeEngine, ())) = None"
    using assms by (simp add: Native_Start_def resolveExecutable_def exec_candidates_def demo_host_def
      NewNativeEngine_def first_mounts_def zero_PodSpec_def native_args_def)
  then obtain e f where "Native_Start demo_host 1 pod ''app'' env [] (NewNativeEngine, ()) = (None, (e, f))"
    by (metis prod.collapse)
  then show ?thesis
    using assms
    by (simp add: Launch_def Let_def new_daemon_def NewLifecycleManager_def wants_port_def zero_PodSpec_def
        container_port_def set_host_port_def ProjectVolumes_def start_launch_def srv_lm_env_def demo_V_def
        daemon_env_def daemon_registry_get native_eng_def lm_frame)
qed

lemma demo_new_pod:
  "pod_Spec (new_pod one_replica (demo_draw 0)) = zero_PodSpec"
  "om_UID (pod_Metadata (new_pod one_replica (demo_draw 0))) = ''u1''"
  "om_Annotations (pod_Metadata (new_pod one_replica (demo_draw 0))) =
     Some [(''lok8s.io/executable-path'', ''app''), (''lok8s.io/owner'', ''ReplicaSet/web'')]"
  by (simp_all add: new_pod_def demo_draw_def one_replica_def zero_PodTemplateSpec_def)
    (simp add: mput_all_def mput_def mentries_def rs_owner_def AnnotationExecutablePath_def)

lemma demo_LaunchPod:
  assumes "srv_lifecycle s = new_daemon ()"
  shows "fst (LaunchPod demo_V (new_pod one_replica (demo_draw 0)) s) = None"
proof -
  let ?p = "new_pod one_replica (demo_draw 0)"
  have c: "ExtractEngineConfig f ?p = Inr (''native'', ''app'')" for f
    by (simp add: ExtractEngineConfig_def demo_new_pod mlookup_def AnnotationExecutablePath_def
        AnnotationWasmModule_def EngineNative_def)
  have "fst (fst (Launch (srv_lm_env demo_V s0) (pending_pod demo_V s0 ?p) ''native'' ''app'' env (new_daemon ()))) = None" for s0 env
    by (rule demo_Launch_plain) (simp_all add: demo_new_pod pending_pod_def mlookup_def)
  then show ?thesis
    by (simp add: assms LaunchPod_def c Let_def case_prod_beta split: option.splits)
qed

text \<open>A server without pods and with a lifecycle manager of its own launches the replica.\<close>

lemma demo_RS_Reconcile:
  assumes "srv_lifecycle s = new_daemon ()" "ListPods demo_V ''default'' s = []"
  shows "fst (RS_Reconcile (srv_pod_manager demo_V) (srv_StoreReplicaSet demo_V) demo_draw one_replica s) = None"
proof -
  have w: "wrap32 0 = 0" "wrap32 1 = 1" by (simp_all add: in32_def)
  show ?thesis
    using demo_LaunchPod [OF assms(1)]
    by (simp add: RS_Reconcile_def scan_pods_start srv_pod_manager_def assms(2) w Let_def case_prod_beta
        numeral_eq_Suc split: prod.splits option.splits)
qed


end
