(* ===== verification/Discovery.thy ===== *)
theory Discovery
  imports Store_DB Health
begin

text \<open>
  What the API server tells clients about itself and its objects: the tables of
  \<open>discovery/table.go\<close>, which \<open>kubectl get\<close> and \<open>lok8s get\<close> print, and the documents of
  \<open>discovery/endpoints.go\<close>.

  \<open>json.Marshal\<close> is the encoder of the kind of object; the time of \<open>time.Since\<close> is an argument.
\<close>

section \<open>Tables\<close>

text \<open>An encoding error is ignored: the bytes are nil.\<close>

definition marshal :: "'v codec \<Rightarrow> 'v \<Rightarrow> bytes" where
  "marshal c v = (case fst c v of Inr b \<Rightarrow> b | Inl _ \<Rightarrow> [])"

text \<open>
  \<open>time.Since\<close> saturates at the largest and smallest duration.  The quotients are exact here; the
  code computes them in floating point, which differs only in the last microsecond before a whole
  day.
\<close>

definition Since :: "time \<Rightarrow> time \<Rightarrow> int" where
  "Since now t = max (- (2 ^ 63)) (min (2 ^ 63 - 1) (now - t))"

definition translateTimestamp :: "time \<Rightarrow> time \<Rightarrow> string" where
  "translateTimestamp now timestamp =
     (if timestamp = 0 then ''<unknown>''
      else let diff = Since now timestamp
           in if diff < second then ''0s''
              else if diff < 60 * second then itoa (diff div second) @ ''s''
              else if diff < 60 * 60 * second then itoa (diff div (60 * second)) @ ''m''
              else if diff < 24 * 60 * 60 * second then itoa (diff div (60 * 60 * second)) @ ''h''
              else itoa (diff div (24 * 60 * 60 * second)) @ ''d'')"

definition column :: "string \<Rightarrow> string \<Rightarrow> string \<Rightarrow> string \<Rightarrow> TableColumnDefinition" where
  "column name type format description =
     \<lparr>tc_Name = name, tc_Type = type, tc_Format = format, tc_Description = description, tc_Priority = 0\<rparr>"

text \<open>A table: the columns, and a row of cells and the encoded object for each object in turn.\<close>

definition mk_table :: "TableColumnDefinition list \<Rightarrow> ('v \<Rightarrow> cell list) \<Rightarrow> ('v \<Rightarrow> bytes) \<Rightarrow> 'v list \<Rightarrow> Table" where
  "mk_table cols cells enc objs =
     \<lparr>tbl_TypeMeta = \<lparr>tm_APIVersion = ''meta.k8s.io/v1'', tm_Kind = ''Table''\<rparr>, tbl_ColumnDefinitions = cols,
      tbl_Rows = map (\<lambda>v. \<lparr>tr_Cells = cells v, tr_Object = \<lparr>raw_Raw = enc v\<rparr>\<rparr>) objs\<rparr>"

definition pod_cells :: "time \<Rightarrow> Pod \<Rightarrow> cell list" where
  "pod_cells now pod =
     (let status = pod_Status pod;
          readyStr = (case st_ContainerStatuses status of
              [] \<Rightarrow> ''0/1'' | cs # _ \<Rightarrow> if cs_Ready cs then ''1/1'' else ''0/1'');
          restarts = (case st_ContainerStatuses status of
              [] \<Rightarrow> st_RestartCount status | cs # _ \<Rightarrow> cs_RestartCount cs);
          portStr = (if st_HostPort status > 0 then itoa (st_HostPort status) else ''<none>'')
      in [CStr (om_Name (pod_Metadata pod)), CStr readyStr, CStr (st_Phase status), CStr portStr,
          CStr (itoa restarts), CStr (translateTimestamp now (om_CreationTimestamp (pod_Metadata pod)))])"

definition ConvertPodsToTable :: "Pod codec \<Rightarrow> time \<Rightarrow> Pod list \<Rightarrow> Table" where
  "ConvertPodsToTable c now pods =
     mk_table
       [column ''Name'' ''string'' ''name'' ''Name of the pod'', column ''Ready'' ''string'' [] ''Ready status'',
        column ''Status'' ''string'' [] ''Phase status'', column ''Port'' ''string'' [] ''Allocated host port'',
        column ''Restarts'' ''string'' [] ''Number of restarts'', column ''Age'' ''string'' [] ''Creation age'']
       (pod_cells now) (marshal c) pods"

definition ConvertConfigMapsToTable :: "ConfigMap codec \<Rightarrow> time \<Rightarrow> ConfigMap list \<Rightarrow> Table" where
  "ConvertConfigMapsToTable c now cms =
     mk_table
       [column ''Name'' ''string'' ''name'' [], column ''Data'' ''integer'' [] [], column ''Age'' ''string'' [] []]
       (\<lambda>cm. [CStr (om_Name (cm_Metadata cm)), CInt (int (mlen (cm_Data cm))),
          CStr (translateTimestamp now (om_CreationTimestamp (cm_Metadata cm)))])
       (marshal c) cms"

definition ConvertSecretsToTable :: "Secret codec \<Rightarrow> time \<Rightarrow> Secret list \<Rightarrow> Table" where
  "ConvertSecretsToTable c now secs =
     mk_table
       [column ''Name'' ''string'' ''name'' [], column ''Type'' ''string'' [] [], column ''Data'' ''integer'' [] [],
        column ''Age'' ''string'' [] []]
       (\<lambda>sec. [CStr (om_Name (sec_Metadata sec)), CStr (sec_Type sec), CInt (int (mlen (sec_Data sec))),
          CStr (translateTimestamp now (om_CreationTimestamp (sec_Metadata sec)))])
       (marshal c) secs"

definition ports_cell :: "(string \<Rightarrow> string) \<Rightarrow> Service \<Rightarrow> string" where
  "ports_cell upper svc =
     (case ss_Ports (svc_Spec svc) of
        [] \<Rightarrow> ''<none>''
      | p # _ \<Rightarrow>
          let proto = (if sp_Protocol p = [] then ''TCP'' else sp_Protocol p);
              portsStr = itoa (sp_Port p) @ ''/'' @ ToUpper upper proto
          in if sp_NodePort p > 0 then portsStr @ '':'' @ itoa (sp_NodePort p) else portsStr)"

definition ConvertServicesToTable :: "(string \<Rightarrow> string) \<Rightarrow> Service codec \<Rightarrow> time \<Rightarrow> Service list \<Rightarrow> Table" where
  "ConvertServicesToTable upper c now svcs =
     mk_table
       [column ''Name'' ''string'' ''name'' [], column ''Type'' ''string'' [] [], column ''Cluster-IP'' ''string'' [] [],
        column ''External-IP'' ''string'' [] [], column ''Port(s)'' ''string'' [] [], column ''Age'' ''string'' [] []]
       (\<lambda>svc. [CStr (om_Name (svc_Metadata svc)), CStr (ss_Type (svc_Spec svc)), CStr ''127.0.0.1'', CStr ''<none>'',
          CStr (ports_cell upper svc), CStr (translateTimestamp now (om_CreationTimestamp (svc_Metadata svc)))])
       (marshal c) svcs"

definition ConvertDeploymentsToTable :: "Deployment codec \<Rightarrow> time \<Rightarrow> Deployment list \<Rightarrow> Table" where
  "ConvertDeploymentsToTable c now deps =
     mk_table
       [column ''Name'' ''string'' ''name'' [], column ''Ready'' ''string'' [] [], column ''Up-to-date'' ''integer'' [] [],
        column ''Available'' ''integer'' [] [], column ''Age'' ''string'' [] []]
       (\<lambda>dep. let desired = (case ds_Replicas (dep_Spec dep) of None \<Rightarrow> 1 | Some n \<Rightarrow> n)
          in [CStr (om_Name (dep_Metadata dep)), CStr (itoa (dst_ReadyReplicas (dep_Status dep)) @ ''/'' @ itoa desired),
              CInt (dst_UpdatedReplicas (dep_Status dep)), CInt (dst_AvailableReplicas (dep_Status dep)),
              CStr (translateTimestamp now (om_CreationTimestamp (dep_Metadata dep)))])
       (marshal c) deps"

definition ConvertReplicaSetsToTable :: "ReplicaSet codec \<Rightarrow> time \<Rightarrow> ReplicaSet list \<Rightarrow> Table" where
  "ConvertReplicaSetsToTable c now rss =
     mk_table
       [column ''Name'' ''string'' ''name'' [], column ''Desired'' ''integer'' [] [], column ''Current'' ''integer'' [] [],
        column ''Ready'' ''integer'' [] [], column ''Age'' ''string'' [] []]
       (\<lambda>rs. let desired = (case rss_Replicas (rs_Spec rs) of None \<Rightarrow> 1 | Some n \<Rightarrow> n)
          in [CStr (om_Name (rs_Metadata rs)), CInt desired, CInt (rst_Replicas (rs_Status rs)),
              CInt (rst_ReadyReplicas (rs_Status rs)),
              CStr (translateTimestamp now (om_CreationTimestamp (rs_Metadata rs)))])
       (marshal c) rss"

section \<open>Discovery documents\<close>

text \<open>The documents that are maps in the code are JSON values here.\<close>

datatype json = JStr string | JArr "json list" | JObj "(string \<times> json) list"

definition HandleAPIRoot :: APIGroupList where
  "HandleAPIRoot = \<lparr>agl_Kind = ''APIVersions'', agl_APIVersions = [''v1'']\<rparr>"

definition HandleAPIs :: json where
  "HandleAPIs =
     (let v = JObj [(''groupVersion'', JStr ''apps/v1''), (''version'', JStr ''v1'')]
      in JObj [(''kind'', JStr ''APIGroupList''),
           (''groups'', JArr [JObj [(''name'', JStr ''apps''), (''versions'', JArr [v]), (''preferredVersion'', v)]])])"

definition resource :: "string \<Rightarrow> string \<Rightarrow> string list \<Rightarrow> APIResource" where
  "resource name kind verbs = \<lparr>ar_Name = name, ar_Namespaced = True, ar_Kind = kind, ar_Verbs = verbs\<rparr>"

definition HandleAPIV1 :: APIResourceList where
  "HandleAPIV1 =
     \<lparr>arl_Kind = ''APIResourceList'', arl_GroupVersion = ''v1'', arl_APIResources =
       [resource ''pods'' ''Pod'' [''create'', ''delete'', ''get'', ''list'', ''watch''],
        resource ''pods/log'' ''Pod'' [''get''],
        resource ''services'' ''Service'' [''create'', ''delete'', ''get'', ''list''],
        resource ''configmaps'' ''ConfigMap'' [''create'', ''delete'', ''get'', ''list''],
        resource ''secrets'' ''Secret'' [''create'', ''delete'', ''get'', ''list'']]\<rparr>"

definition HandleVersion :: json where
  "HandleVersion = JObj [(''major'', JStr ''1''), (''minor'', JStr ''29''), (''gitVersion'', JStr ''v1.29.0''),
     (''gitCommit'', JStr ''3f7f50a30b0431868357879e68d37449c25f4ab3''), (''gitTreeState'', JStr ''clean''),
     (''buildDate'', JStr ''2023-12-13T08:51:44Z''), (''goVersion'', JStr ''go1.21.5''), (''compiler'', JStr ''gc''),
     (''platform'', JStr ''linux/amd64'')]"

definition HandleOpenIDConfig :: json where
  "HandleOpenIDConfig = JObj [(''issuer'', JStr ''https://kubernetes.default.svc.cluster.local''),
     (''jwks_uri'', JStr ''https://kubernetes.default.svc.cluster.local/openid/v1/jwks''),
     (''response_types_supported'', JArr [JStr ''code'']), (''subject_types_supported'', JArr [JStr ''public'']),
     (''id_token_signing_alg_values_supported'', JArr [JStr ''RS256''])]"

definition HandleAPIsAppsV1 :: APIResourceList where
  "HandleAPIsAppsV1 =
     \<lparr>arl_Kind = ''APIResourceList'', arl_GroupVersion = ''apps/v1'', arl_APIResources =
       [resource ''deployments'' ''Deployment'' [''create'', ''delete'', ''get'', ''list'', ''watch'', ''update''],
        resource ''replicasets'' ''ReplicaSet'' [''create'', ''delete'', ''get'', ''list'', ''watch'', ''update'']]\<rparr>"

end
