(* ===== verification/Handlers.thy ===== *)
theory Handlers
  imports Server Selector Discovery
begin

text \<open>
  The handlers of \<open>api/handler.go\<close> and \<open>api/deployment_handler.go\<close>: each takes a request and the
  server and gives the response and the server after it.

  A response is its status code and the Go value that is encoded as its body.  What a handler
  reads of a request is a field of it: the path values, the body (or the error of reading it), the
  query, the \<open>Accept\<close> header, whether the connection can be flushed, and the UUID drawn while it
  is served.
\<close>

section \<open>Requests and responses\<close>

record request =
  rq_ns :: string
  rq_name :: string
  rq_body :: "goerror + bytes"
  rq_query :: "string \<Rightarrow> string"
  rq_accept :: string
  rq_flusher :: bool
  rq_uuid :: string

datatype body =
  BStatus StatusResponse
| BPod Pod
| BPodList PodList
| BService Service
| BServiceList ServiceList
| BConfigMap ConfigMap
| BConfigMapList ConfigMapList
| BSecret Secret
| BSecretList SecretList
| BDeployment Deployment
| BDeploymentList DeploymentList
| BReplicaSet ReplicaSet
| BReplicaSetList ReplicaSetList
| BTable Table
| BText bytes
| BFollow bytes nat int
| BWatch int
| BGroups APIGroupList
| BResources APIResourceList
| BJson json

text \<open>
  \<open>BFollow\<close> is a text that goes on with what the subscription of a log buffer receives, \<open>BWatch\<close> a
  stream of the events of a watcher.
\<close>

record response =
  rp_code :: int
  rp_body :: body

text \<open>The server's environment, and the YAML decoders of the manifests.\<close>

record ('f, 'b) api_env =
  ae_srv :: "('f, 'b) srv_env"
  ae_yaml_Pod :: "Pod decoder"
  ae_yaml_Service :: "Service decoder"
  ae_yaml_ConfigMap :: "ConfigMap decoder"
  ae_yaml_Secret :: "Secret decoder"

type_synonym ('f, 'b) handler = "('f, 'b) api_env \<Rightarrow> request \<Rightarrow> ('f, 'b) Server \<Rightarrow> response \<times> ('f, 'b) Server"

definition writeStatus :: "int \<Rightarrow> string \<Rightarrow> response" where
  "writeStatus code msg =
     \<lparr>rp_code = code, rp_body = BStatus \<lparr>sr_Kind = ''Status'', sr_Status = ''Failure'', sr_Message = msg,
        sr_Reason = [], sr_Code = code\<rparr>\<rparr>"

definition deleted :: "string \<Rightarrow> response" where
  "deleted msg =
     \<lparr>rp_code = 200, rp_body = BStatus \<lparr>sr_Kind = ''Status'', sr_Status = ''Success'', sr_Message = msg,
        sr_Reason = [], sr_Code = 200\<rparr>\<rparr>"

definition reply :: "int \<Rightarrow> body \<Rightarrow> response" where
  "reply code b = \<lparr>rp_code = code, rp_body = b\<rparr>"

text \<open>What every create handler does to the metadata: a namespace, a UID and the time.\<close>

definition stamp :: "('f, 'b) api_env \<Rightarrow> request \<Rightarrow> ('f, 'b) Server \<Rightarrow> ObjectMeta \<Rightarrow> ObjectMeta" where
  "stamp A rq s m =
     m\<lparr>om_Namespace := (if om_Namespace m = [] then rq_ns rq else om_Namespace m),
       om_UID := rq_uuid rq, om_CreationTimestamp := se_Now (ae_srv A) (srv_os s)\<rparr>"

definition wants_table :: "request \<Rightarrow> bool" where
  "wants_table rq = Contains (rq_accept rq) ''as=Table''"

definition now_of :: "('f, 'b) api_env \<Rightarrow> ('f, 'b) Server \<Rightarrow> time" where
  "now_of A s = se_Now (ae_srv A) (srv_os s)"

abbreviation stg :: "('f, 'b) api_env \<Rightarrow> 'b storage" where
  "stg A \<equiv> se_storage (ae_srv A)"

section \<open>Pods\<close>

definition handleCreatePod :: "('f, 'b) handler" where
  "handleCreatePod A rq s =
     (let V = ae_srv A; ns = rq_ns rq in
      case rq_body rq of
        Inl _ \<Rightarrow> (writeStatus 400 ''failed to read request body'', s)
      | Inr body \<Rightarrow>
          (case Parse (snd (sg_Pod (stg A))) (ae_yaml_Pod A) body of
             Inl err \<Rightarrow> (writeStatus 422 (se_Error V err), s)
           | Inr pod0 \<Rightarrow>
               let pod = pod0\<lparr>pod_Metadata := stamp A rq s (pod_Metadata pod0),
                     pod_TypeMeta := \<lparr>tm_APIVersion = ''v1'', tm_Kind = ''Pod''\<rparr>\<rparr>
               in case ExtractEngineConfig (\<lambda>p. h_Stat (se_host V) p (srv_os s)) pod of
                    Inl err \<Rightarrow> (writeStatus 422 (se_Error V err), s)
                  | Inr (engineType, target) \<Rightarrow>
                      let env = CollectEnvVars (ps_Containers (pod_Spec pod)) @
                            GenerateServiceEnv (se_host V) ns (srv_services s, srv_db s) (srv_proxyManager s);
                          ((r, pod1), lm) =
                            Launch (srv_lm_env V s) (pending_pod V s pod) engineType target env (srv_lifecycle s);
                          s1 = s\<lparr>srv_lifecycle := lm\<rparr>
                      in case r of
                           Some err \<Rightarrow> (writeStatus 500 (se_Error V err), storePod V (failed_pod V err pod1) s1)
                         | None \<Rightarrow> (reply 201 (BPod (running_pod pod1)), storePod V (running_pod pod1) s1)))"

definition handleGetPod :: "('f, 'b) handler" where
  "handleGetPod A rq s =
     (case loadPod (rq_ns rq) (rq_name rq) s of
        None \<Rightarrow> (writeStatus 404 ''pod not found'', s)
      | Some pod \<Rightarrow>
          (case LM_Status (srv_lm_env (ae_srv A) s) (rq_ns rq) (rq_name rq) (srv_lifecycle s) of
             Some status \<Rightarrow>
               let pod1 = pod\<lparr>pod_Status := status\<rparr>
               in (reply 200 (BPod pod1), storePod (ae_srv A) pod1 s)
           | None \<Rightarrow> (reply 200 (BPod pod), s)))"

text \<open>
  Watching: the handler registers a watcher and then, for each event it receives, writes the ones
  of its namespace that match the selectors.
\<close>

definition handleWatchPods :: "('f, 'b) handler" where
  "handleWatchPods A rq s =
     (let (i, lm) = Watch (srv_lifecycle s); s1 = s\<lparr>srv_lifecycle := lm\<rparr>
      in if rq_flusher rq then (reply 200 (BWatch i), s1)
         else (writeStatus 500 ''streaming not supported'', s1))"

definition watch_wanted :: "string \<Rightarrow> string \<Rightarrow> string \<Rightarrow> WatchEvent \<Rightarrow> bool" where
  "watch_wanted ns labelSelector fieldSelector event =
     (if ns \<noteq> [] \<and> om_Namespace (pod_Metadata (we_Object event)) \<noteq> ns then False
      else MatchPod (we_Object event) labelSelector fieldSelector)"

text \<open>One turn of its loop: the event received, if any, and whether it is written.\<close>

definition watch_recv :: "string \<Rightarrow> string \<Rightarrow> string \<Rightarrow> int \<Rightarrow> 'w LifecycleManager \<Rightarrow>
    WatchEvent list \<times> 'w LifecycleManager" where
  "watch_recv ns labelSelector fieldSelector i lm =
     (case tlookup (lm_watchers lm) i of
        Some (event # ch) \<Rightarrow>
          (if watch_wanted ns labelSelector fieldSelector event then [event] else [],
           lm\<lparr>lm_watchers := tstore i ch (lm_watchers lm)\<rparr>)
      | _ \<Rightarrow> ([], lm))"

definition handleListPods :: "('f, 'b) handler" where
  "handleListPods A rq s =
     (let labelSelector = rq_query rq ''labelSelector''; fieldSelector = rq_query rq ''fieldSelector'';
          watch = (rq_query rq ''watch'' = ''true'' \<or> rq_query rq ''watch'' = ''1'')
      in if watch then handleWatchPods A rq s
         else let filteredPods = filter (\<lambda>pod. MatchPod pod labelSelector fieldSelector)
                    (map (live_status (ae_srv A) s) (allPods (rq_ns rq) s))
              in (if wants_table rq
                  then reply 200 (BTable (ConvertPodsToTable (sg_Pod (stg A)) (now_of A s) filteredPods))
                  else reply 200 (BPodList \<lparr>pl_TypeMeta = \<lparr>tm_APIVersion = ''v1'', tm_Kind = ''PodList''\<rparr>,
                    pl_Items = filteredPods\<rparr>), s))"

definition handleDeletePod :: "('f, 'b) handler" where
  "handleDeletePod A rq s =
     (case loadPod (rq_ns rq) (rq_name rq) s of
        None \<Rightarrow> (writeStatus 404 ''pod not found'', s)
      | Some _ \<Rightarrow>
          let lm = snd (Terminate (srv_lm_env (ae_srv A) s) (rq_ns rq) (rq_name rq) (srv_lifecycle s))
          in (deleted ''pod deleted'', deletePod (ae_srv A) (rq_ns rq) (rq_name rq) (s\<lparr>srv_lifecycle := lm\<rparr>)))"

text \<open>
  The logs of a pod.  With \<open>follow\<close> the handler subscribes after it has written what the buffer
  holds: chunks written between the two are in neither.
\<close>

definition handleGetPodLogs :: "('f, 'b) handler" where
  "handleGetPodLogs A rq s =
     (case loadPod (rq_ns rq) (rq_name rq) s of
        None \<Rightarrow> (writeStatus 404 ''pod not found'', s)
      | Some _ \<Rightarrow>
          (case load_pod (srv_lifecycle s) (podKey (rq_ns rq) (rq_name rq)) of
             None \<Rightarrow> (writeStatus 404 ''pod logs not found or not running'', s)
           | Some (addr, mp) \<Rightarrow>
               let rb = mp_logBuffer mp; follow = (rq_query rq ''follow'' = ''true'');
                   tailLinesStr = rq_query rq ''tailLines'';
                   tailLines = (if tailLinesStr = [] then Some 0 else Atoi tailLinesStr)
               in case tailLines of
                    None \<Rightarrow> (writeStatus 400 ''invalid tailLines parameter'', s)
                  | Some n \<Rightarrow>
                      if n < 0 then (writeStatus 400 ''invalid tailLines parameter'', s)
                      else if follow \<and> \<not> rq_flusher rq then (reply 500 (BText ''Streaming unsupported!''), s)
                      else let text = (if n > 0 then RingBuffer_TailLines n rb else RingBuffer_ReadAll rb)
                           in if follow
                              then let (i, rb1) = RingBuffer_Follow rb
                                   in (reply 200 (BFollow text addr i),
                                       s\<lparr>srv_lifecycle := set_mp addr (mp\<lparr>mp_logBuffer := rb1\<rparr>) (srv_lifecycle s)\<rparr>)
                              else (reply 200 (BText text), s)))"

section \<open>Services\<close>

text \<open>The first port gets the port of the proxy as its node port, and as its port if it had none.\<close>

definition set_node_port :: "int \<Rightarrow> Service \<Rightarrow> Service" where
  "set_node_port port svc =
     (case ss_Ports (svc_Spec svc) of
        [] \<Rightarrow> svc
      | p # ps \<Rightarrow>
          svc\<lparr>svc_Spec := (svc_Spec svc)\<lparr>ss_Ports :=
            p\<lparr>sp_NodePort := port, sp_Port := (if sp_Port p = 0 then port else sp_Port p)\<rparr> # ps\<rparr>\<rparr>)"

definition handleCreateService :: "('f, 'b) handler" where
  "handleCreateService A rq s =
     (let V = ae_srv A in
      case rq_body rq of
        Inl _ \<Rightarrow> (writeStatus 400 ''failed to read request body'', s)
      | Inr body \<Rightarrow>
          (case ParseService (snd (sg_Service (stg A))) (ae_yaml_Service A) body of
             Inl err \<Rightarrow> (writeStatus 422 (se_Error V err), s)
           | Inr svc0 \<Rightarrow>
               let svc = svc0\<lparr>svc_Metadata := stamp A rq s (svc_Metadata svc0),
                     svc_TypeMeta := \<lparr>tm_APIVersion = ''v1'', tm_Kind = ''Service''\<rparr>\<rparr>
               in case on_proxies (StartProxy (lift_host (se_host V)) svc) s of
                    (Inl err, s1) \<Rightarrow> (writeStatus 500 (''failed to start service proxy: '' @ se_Error V err), s1)
                  | (Inr port, s1) \<Rightarrow>
                      let svc1 = set_node_port port svc;
                          st = ServiceStore_Store (se_storage V) svc1 (srv_services s1, srv_db s1)
                      in (reply 201 (BService svc1), s1\<lparr>srv_services := fst st, srv_db := snd st\<rparr>)))"

definition handleListServices :: "('f, 'b) handler" where
  "handleListServices A rq s =
     (let filteredSvcs = filter (\<lambda>svc. MatchService svc (rq_query rq ''labelSelector'') (rq_query rq ''fieldSelector''))
            (ServiceStore_List (rq_ns rq) (srv_services s, srv_db s))
      in (if wants_table rq
          then reply 200 (BTable (ConvertServicesToTable (h_upper (se_host (ae_srv A))) (sg_Service (stg A)) (now_of A s) filteredSvcs))
          else reply 200 (BServiceList \<lparr>sl_TypeMeta = \<lparr>tm_APIVersion = ''v1'', tm_Kind = ''ServiceList''\<rparr>,
            sl_Items = filteredSvcs\<rparr>), s))"

definition handleGetService :: "('f, 'b) handler" where
  "handleGetService A rq s =
     (case ServiceStore_Load (rq_ns rq) (rq_name rq) (srv_services s, srv_db s) of
        None \<Rightarrow> (writeStatus 404 ''service not found'', s)
      | Some svc \<Rightarrow> (reply 200 (BService svc), s))"

definition handleDeleteService :: "('f, 'b) handler" where
  "handleDeleteService A rq s =
     (case ServiceStore_Load (rq_ns rq) (rq_name rq) (srv_services s, srv_db s) of
        None \<Rightarrow> (writeStatus 404 ''service not found'', s)
      | Some _ \<Rightarrow>
          let s1 = snd (on_proxies (\<lambda>p. ((), StopProxy (lift_host (se_host (ae_srv A))) (rq_ns rq) (rq_name rq) p)) s);
              st = ServiceStore_Delete (stg A) (rq_ns rq) (rq_name rq) (srv_services s1, srv_db s1)
          in (deleted ''service deleted'', s1\<lparr>srv_services := fst st, srv_db := snd st\<rparr>))"

section \<open>Config maps and secrets\<close>

definition on_cfg :: "('b cfg \<Rightarrow> 'b cfg) \<Rightarrow> ('f, 'b) Server \<Rightarrow> ('f, 'b) Server" where
  "on_cfg g s = (let x = g (srv_configStore s, srv_db s) in s\<lparr>srv_configStore := fst x, srv_db := snd x\<rparr>)"

definition handleCreateConfigMap :: "('f, 'b) handler" where
  "handleCreateConfigMap A rq s =
     (case rq_body rq of
        Inl _ \<Rightarrow> (writeStatus 400 ''failed to read request body'', s)
      | Inr body \<Rightarrow>
          (case ParseConfigMap (snd (sg_ConfigMap (stg A))) (ae_yaml_ConfigMap A) body of
             Inl err \<Rightarrow> (writeStatus 422 (se_Error (ae_srv A) err), s)
           | Inr cm0 \<Rightarrow>
               let cm = cm0\<lparr>cm_Metadata := stamp A rq s (cm_Metadata cm0),
                     cm_TypeMeta := \<lparr>tm_APIVersion = ''v1'', tm_Kind = ''ConfigMap''\<rparr>\<rparr>
               in (reply 201 (BConfigMap cm), on_cfg (StoreConfigMap (stg A) cm) s)))"

definition handleListConfigMaps :: "('f, 'b) handler" where
  "handleListConfigMaps A rq s =
     (let filteredCms = filter (\<lambda>cm. MatchConfigMap cm (rq_query rq ''labelSelector'') (rq_query rq ''fieldSelector''))
            (ListConfigMaps (rq_ns rq) (srv_configStore s, srv_db s))
      in (if wants_table rq
          then reply 200 (BTable (ConvertConfigMapsToTable (sg_ConfigMap (stg A)) (now_of A s) filteredCms))
          else reply 200 (BConfigMapList \<lparr>cml_TypeMeta = \<lparr>tm_APIVersion = ''v1'', tm_Kind = ''ConfigMapList''\<rparr>,
            cml_Items = filteredCms\<rparr>), s))"

definition handleGetConfigMap :: "('f, 'b) handler" where
  "handleGetConfigMap A rq s =
     (case LoadConfigMap (rq_ns rq) (rq_name rq) (srv_configStore s, srv_db s) of
        None \<Rightarrow> (writeStatus 404 ''configmap not found'', s)
      | Some cm \<Rightarrow> (reply 200 (BConfigMap cm), s))"

definition handleDeleteConfigMap :: "('f, 'b) handler" where
  "handleDeleteConfigMap A rq s =
     (case LoadConfigMap (rq_ns rq) (rq_name rq) (srv_configStore s, srv_db s) of
        None \<Rightarrow> (writeStatus 404 ''configmap not found'', s)
      | Some _ \<Rightarrow> (deleted ''configmap deleted'', on_cfg (DeleteConfigMap (stg A) (rq_ns rq) (rq_name rq)) s))"

text \<open>
  \<open>StoreSecret\<close> gets a copy of the secret, but the copy shares the map of its data: when there is
  one, the response has the merged data too; its string data stays.
\<close>

definition secret_reply :: "Secret \<Rightarrow> Secret" where
  "secret_reply sec =
     sec\<lparr>sec_Data := (case sec_Data sec of None \<Rightarrow> None | Some d \<Rightarrow> mput_all (mentries (sec_StringData sec)) (Some d))\<rparr>"

definition handleCreateSecret :: "('f, 'b) handler" where
  "handleCreateSecret A rq s =
     (case rq_body rq of
        Inl _ \<Rightarrow> (writeStatus 400 ''failed to read request body'', s)
      | Inr body \<Rightarrow>
          (case ParseSecret (snd (sg_Secret (stg A))) (ae_yaml_Secret A) body of
             Inl err \<Rightarrow> (writeStatus 422 (se_Error (ae_srv A) err), s)
           | Inr sec0 \<Rightarrow>
               let sec = sec0\<lparr>sec_Metadata := stamp A rq s (sec_Metadata sec0),
                     sec_TypeMeta := \<lparr>tm_APIVersion = ''v1'', tm_Kind = ''Secret''\<rparr>\<rparr>
               in (reply 201 (BSecret (secret_reply sec)), on_cfg (StoreSecret (stg A) sec) s)))"

definition handleListSecrets :: "('f, 'b) handler" where
  "handleListSecrets A rq s =
     (let filteredSecs = filter (\<lambda>sec. MatchSecret sec (rq_query rq ''labelSelector'') (rq_query rq ''fieldSelector''))
            (ListSecrets (rq_ns rq) (srv_configStore s, srv_db s))
      in (if wants_table rq
          then reply 200 (BTable (ConvertSecretsToTable (sg_Secret (stg A)) (now_of A s) filteredSecs))
          else reply 200 (BSecretList \<lparr>secl_TypeMeta = \<lparr>tm_APIVersion = ''v1'', tm_Kind = ''SecretList''\<rparr>,
            secl_Items = filteredSecs\<rparr>), s))"

definition handleGetSecret :: "('f, 'b) handler" where
  "handleGetSecret A rq s =
     (case LoadSecret (rq_ns rq) (rq_name rq) (srv_configStore s, srv_db s) of
        None \<Rightarrow> (writeStatus 404 ''secret not found'', s)
      | Some sec \<Rightarrow> (reply 200 (BSecret sec), s))"

definition handleDeleteSecret :: "('f, 'b) handler" where
  "handleDeleteSecret A rq s =
     (case LoadSecret (rq_ns rq) (rq_name rq) (srv_configStore s, srv_db s) of
        None \<Rightarrow> (writeStatus 404 ''secret not found'', s)
      | Some _ \<Rightarrow> (deleted ''secret deleted'', on_cfg (DeleteSecret (stg A) (rq_ns rq) (rq_name rq)) s))"

section \<open>Deployments and replica sets\<close>

abbreviation srv_ctl :: "('f, 'b) Server \<Rightarrow> 'b ctl" where
  "srv_ctl s \<equiv> (srv_controllerStore s, srv_db s)"

definition handleCreateDeployment :: "('f, 'b) handler" where
  "handleCreateDeployment A rq s =
     (case rq_body rq of
        Inl _ \<Rightarrow> (writeStatus 400 ''failed to read request body'', s)
      | Inr body \<Rightarrow>
          (case snd (sg_Deployment (stg A)) body of
             Inl err \<Rightarrow> (writeStatus 400 (''invalid deployment json: '' @ se_Error (ae_srv A) err), s)
           | Inr dep0 \<Rightarrow>
               let dep = dep0\<lparr>dep_Metadata := stamp A rq s (dep_Metadata dep0),
                     dep_TypeMeta := \<lparr>tm_APIVersion = ''apps/v1'', tm_Kind = ''Deployment''\<rparr>\<rparr>
               in (reply 201 (BDeployment dep), on_ctl (StoreDeployment (stg A) dep) s)))"

definition handleListDeployments :: "('f, 'b) handler" where
  "handleListDeployments A rq s =
     (let filteredDeps = filter (\<lambda>dep.
            MatchMetadataFields (om_Name (dep_Metadata dep)) (om_Namespace (dep_Metadata dep)) (rq_query rq ''fieldSelector'') \<and>
            MatchLabels (om_Labels (dep_Metadata dep)) (rq_query rq ''labelSelector''))
            (ListDeployments (rq_ns rq) (srv_ctl s))
      in (if wants_table rq
          then reply 200 (BTable (ConvertDeploymentsToTable (sg_Deployment (stg A)) (now_of A s) filteredDeps))
          else reply 200 (BDeploymentList \<lparr>dl_TypeMeta = \<lparr>tm_APIVersion = ''apps/v1'', tm_Kind = ''DeploymentList''\<rparr>,
            dl_Items = filteredDeps\<rparr>), s))"

definition handleGetDeployment :: "('f, 'b) handler" where
  "handleGetDeployment A rq s =
     (case LoadDeployment (rq_ns rq) (rq_name rq) (srv_ctl s) of
        None \<Rightarrow> (writeStatus 404 ''deployment not found'', s)
      | Some dep \<Rightarrow> (reply 200 (BDeployment dep), s))"

text \<open>An update takes specification, labels and annotations of the body and keeps the rest.\<close>

definition update_meta :: "request \<Rightarrow> ObjectMeta \<Rightarrow> ObjectMeta \<Rightarrow> ObjectMeta" where
  "update_meta rq new m =
     m\<lparr>om_Labels := om_Labels new, om_Annotations := om_Annotations new, om_ResourceVersion := rq_uuid rq\<rparr>"

definition handleUpdateDeployment :: "('f, 'b) handler" where
  "handleUpdateDeployment A rq s =
     (case rq_body rq of
        Inl _ \<Rightarrow> (writeStatus 400 ''failed to read body'', s)
      | Inr body \<Rightarrow>
          (case snd (sg_Deployment (stg A)) body of
             Inl err \<Rightarrow> (writeStatus 400 (''invalid deployment json: '' @ se_Error (ae_srv A) err), s)
           | Inr dep \<Rightarrow>
               (case LoadDeployment (rq_ns rq) (rq_name rq) (srv_ctl s) of
                  None \<Rightarrow> (writeStatus 404 ''deployment not found'', s)
                | Some existing0 \<Rightarrow>
                    let existing = existing0\<lparr>dep_Spec := dep_Spec dep,
                          dep_Metadata := update_meta rq (dep_Metadata dep) (dep_Metadata existing0)\<rparr>
                    in (reply 200 (BDeployment existing), on_ctl (StoreDeployment (stg A) existing) s))))"

definition cascade_pods :: "('f, 'b) srv_env \<Rightarrow> ReplicaSet \<Rightarrow> Pod list \<Rightarrow> ('f, 'b) Server \<Rightarrow> ('f, 'b) Server" where
  "cascade_pods V rs pods s =
     fold (\<lambda>pod s.
       if owned_by (''ReplicaSet/'' @ om_Name (rs_Metadata rs)) (om_Annotations (pod_Metadata pod)) then
         let ns = om_Namespace (pod_Metadata pod); n = om_Name (pod_Metadata pod);
             s1 = s\<lparr>srv_lifecycle := snd (Terminate (srv_lm_env V s) ns n (srv_lifecycle s))\<rparr>
         in snd (DeletePod V ns n s1)
       else s) pods s"

definition cascadeDeleteReplicaSet :: "('f, 'b) srv_env \<Rightarrow> ReplicaSet \<Rightarrow> ('f, 'b) Server \<Rightarrow> ('f, 'b) Server" where
  "cascadeDeleteReplicaSet V rs s =
     on_ctl (DeleteReplicaSet (se_storage V) (om_Namespace (rs_Metadata rs)) (om_Name (rs_Metadata rs)))
       (cascade_pods V rs (allPods (om_Namespace (rs_Metadata rs)) s) s)"

definition cascade_rss :: "('f, 'b) srv_env \<Rightarrow> string \<Rightarrow> ReplicaSet list \<Rightarrow> ('f, 'b) Server \<Rightarrow> ('f, 'b) Server" where
  "cascade_rss V name rss s =
     fold (\<lambda>rs s. if owned_by (''Deployment/'' @ name) (om_Annotations (rs_Metadata rs))
       then cascadeDeleteReplicaSet V rs s else s) rss s"

definition handleDeleteDeployment :: "('f, 'b) handler" where
  "handleDeleteDeployment A rq s =
     (case LoadDeployment (rq_ns rq) (rq_name rq) (srv_ctl s) of
        None \<Rightarrow> (writeStatus 404 ''deployment not found'', s)
      | Some _ \<Rightarrow>
          (deleted ''deployment deleted'',
           on_ctl (DeleteDeployment (stg A) (rq_ns rq) (rq_name rq))
             (cascade_rss (ae_srv A) (rq_name rq) (ListReplicaSets (rq_ns rq) (srv_ctl s)) s)))"

definition handleCreateReplicaSet :: "('f, 'b) handler" where
  "handleCreateReplicaSet A rq s =
     (case rq_body rq of
        Inl _ \<Rightarrow> (writeStatus 400 ''failed to read request body'', s)
      | Inr body \<Rightarrow>
          (case snd (sg_ReplicaSet (stg A)) body of
             Inl err \<Rightarrow> (writeStatus 400 (''invalid replicaset json: '' @ se_Error (ae_srv A) err), s)
           | Inr rs0 \<Rightarrow>
               let rs = rs0\<lparr>rs_Metadata := stamp A rq s (rs_Metadata rs0),
                     rs_TypeMeta := \<lparr>tm_APIVersion = ''apps/v1'', tm_Kind = ''ReplicaSet''\<rparr>\<rparr>
               in (reply 201 (BReplicaSet rs), on_ctl (StoreReplicaSet (stg A) rs) s)))"

definition handleListReplicaSets :: "('f, 'b) handler" where
  "handleListReplicaSets A rq s =
     (let filteredRss = filter (\<lambda>rs.
            MatchMetadataFields (om_Name (rs_Metadata rs)) (om_Namespace (rs_Metadata rs)) (rq_query rq ''fieldSelector'') \<and>
            MatchLabels (om_Labels (rs_Metadata rs)) (rq_query rq ''labelSelector''))
            (ListReplicaSets (rq_ns rq) (srv_ctl s))
      in (if wants_table rq
          then reply 200 (BTable (ConvertReplicaSetsToTable (sg_ReplicaSet (stg A)) (now_of A s) filteredRss))
          else reply 200 (BReplicaSetList \<lparr>rsl_TypeMeta = \<lparr>tm_APIVersion = ''apps/v1'', tm_Kind = ''ReplicaSetList''\<rparr>,
            rsl_Items = filteredRss\<rparr>), s))"

definition handleGetReplicaSet :: "('f, 'b) handler" where
  "handleGetReplicaSet A rq s =
     (case LoadReplicaSet (rq_ns rq) (rq_name rq) (srv_ctl s) of
        None \<Rightarrow> (writeStatus 404 ''replicaset not found'', s)
      | Some rs \<Rightarrow> (reply 200 (BReplicaSet rs), s))"

definition handleUpdateReplicaSet :: "('f, 'b) handler" where
  "handleUpdateReplicaSet A rq s =
     (case rq_body rq of
        Inl _ \<Rightarrow> (writeStatus 400 ''failed to read body'', s)
      | Inr body \<Rightarrow>
          (case snd (sg_ReplicaSet (stg A)) body of
             Inl err \<Rightarrow> (writeStatus 400 (''invalid replicaset json: '' @ se_Error (ae_srv A) err), s)
           | Inr rs \<Rightarrow>
               (case LoadReplicaSet (rq_ns rq) (rq_name rq) (srv_ctl s) of
                  None \<Rightarrow> (writeStatus 404 ''replicaset not found'', s)
                | Some existing0 \<Rightarrow>
                    let existing = existing0\<lparr>rs_Spec := rs_Spec rs,
                          rs_Metadata := update_meta rq (rs_Metadata rs) (rs_Metadata existing0)\<rparr>
                    in (reply 200 (BReplicaSet existing), on_ctl (StoreReplicaSet (stg A) existing) s))))"

definition handleDeleteReplicaSet :: "('f, 'b) handler" where
  "handleDeleteReplicaSet A rq s =
     (case LoadReplicaSet (rq_ns rq) (rq_name rq) (srv_ctl s) of
        None \<Rightarrow> (writeStatus 404 ''replicaset not found'', s)
      | Some rs \<Rightarrow> (deleted ''replicaset deleted'', cascadeDeleteReplicaSet (ae_srv A) rs s))"

end
