(* ===== verification/Api.thy ===== *)
theory Api
  imports Handlers
begin

text \<open>
  The API server as a whole: the routes that \<open>NewServer\<close> in \<open>api/server.go\<close> registers, the service
  of one request, and the daemon as a state machine whose steps are requests, ticks of the
  controllers and the steps of the lifecycle manager's goroutines.
\<close>

section \<open>Routes\<close>

datatype kind = KPod | KService | KConfigMap | KSecret | KDeployment | KReplicaSet

datatype route =
  RCreate kind string
| RList kind string
| RGet kind string string
| RUpdate kind string string
| RDelete kind string string
| RLog string string
| RAPIRoot | RAPIV1 | RAPIs | RAPIsAppsV1 | RVersion | ROpenIDConfig
| RNotFound
| RMethodNotAllowed

text \<open>
  \<open>http.ServeMux\<close>: a pattern with \<open>GET\<close> also matches \<open>HEAD\<close>; a path that only patterns of other
  methods match is answered with 405.  The path is given as its segments.  The last one is empty
  when the path ends in a slash, which the wildcard of a name does not match; the others are not
  empty (the multiplexer redirects other paths to the cleaned one).
\<close>

definition is_GET :: "string \<Rightarrow> bool" where
  "is_GET method \<longleftrightarrow> method = ''GET'' \<or> method = ''HEAD''"

definition only_GET :: "string \<Rightarrow> route \<Rightarrow> route" where
  "only_GET method r = (if is_GET method then r else RMethodNotAllowed)"

definition core_kind :: "string \<Rightarrow> kind option" where
  "core_kind r =
     (if r = ''pods'' then Some KPod else if r = ''services'' then Some KService
      else if r = ''configmaps'' then Some KConfigMap else if r = ''secrets'' then Some KSecret else None)"

definition apps_kind :: "string \<Rightarrow> kind option" where
  "apps_kind r =
     (if r = ''deployments'' then Some KDeployment else if r = ''replicasets'' then Some KReplicaSet else None)"

definition collection_route :: "string \<Rightarrow> kind option \<Rightarrow> string \<Rightarrow> route" where
  "collection_route method k ns =
     (case k of
        None \<Rightarrow> RNotFound
      | Some k \<Rightarrow>
          if method = ''POST'' then RCreate k ns
          else if is_GET method then RList k ns else RMethodNotAllowed)"

definition item_route :: "string \<Rightarrow> kind option \<Rightarrow> string \<Rightarrow> string \<Rightarrow> route" where
  "item_route method k ns name =
     (case k of
        None \<Rightarrow> RNotFound
      | Some k \<Rightarrow>
          if name = [] then RNotFound
          else if is_GET method then RGet k ns name
          else if method = ''DELETE'' then RDelete k ns name
          else if method = ''PUT'' \<and> (k = KDeployment \<or> k = KReplicaSet) then RUpdate k ns name
          else RMethodNotAllowed)"

definition api_route :: "string \<Rightarrow> string list \<Rightarrow> route" where
  "api_route method segs =
     (case segs of
        [] \<Rightarrow> only_GET method RAPIRoot
      | [v] \<Rightarrow> if v = ''v1'' then only_GET method RAPIV1 else RNotFound
      | [v, n, ns, r] \<Rightarrow>
          if v = ''v1'' \<and> n = ''namespaces'' then collection_route method (core_kind r) ns else RNotFound
      | [v, n, ns, r, name] \<Rightarrow>
          if v = ''v1'' \<and> n = ''namespaces'' then item_route method (core_kind r) ns name else RNotFound
      | [v, n, ns, r, name, l] \<Rightarrow>
          if v = ''v1'' \<and> n = ''namespaces'' \<and> r = ''pods'' \<and> l = ''log'' then only_GET method (RLog ns name)
          else RNotFound
      | _ \<Rightarrow> RNotFound)"

definition apis_route :: "string \<Rightarrow> string list \<Rightarrow> route" where
  "apis_route method segs =
     (case segs of
        [] \<Rightarrow> only_GET method RAPIs
      | [g, v] \<Rightarrow> if g = ''apps'' \<and> v = ''v1'' then only_GET method RAPIsAppsV1 else RNotFound
      | [g, v, n, ns, r] \<Rightarrow>
          if g = ''apps'' \<and> v = ''v1'' \<and> n = ''namespaces'' then collection_route method (apps_kind r) ns
          else RNotFound
      | [g, v, n, ns, r, name] \<Rightarrow>
          if g = ''apps'' \<and> v = ''v1'' \<and> n = ''namespaces'' then item_route method (apps_kind r) ns name
          else RNotFound
      | _ \<Rightarrow> RNotFound)"

definition route_of :: "string \<Rightarrow> string list \<Rightarrow> route" where
  "route_of method segs =
     (case segs of
        [] \<Rightarrow> RNotFound
      | s # rest \<Rightarrow>
          if s = ''api'' then api_route method rest
          else if s = ''apis'' then apis_route method rest
          else if s = ''version'' \<and> rest = [] then only_GET method RVersion
          else if s = ''.well-known'' \<and> rest = [''openid-configuration''] then only_GET method ROpenIDConfig
          else RNotFound)"

section \<open>Serving a request\<close>

fun create_handler :: "kind \<Rightarrow> ('f, 'b) handler" where
  "create_handler KPod = handleCreatePod"
| "create_handler KService = handleCreateService"
| "create_handler KConfigMap = handleCreateConfigMap"
| "create_handler KSecret = handleCreateSecret"
| "create_handler KDeployment = handleCreateDeployment"
| "create_handler KReplicaSet = handleCreateReplicaSet"

fun list_handler :: "kind \<Rightarrow> ('f, 'b) handler" where
  "list_handler KPod = handleListPods"
| "list_handler KService = handleListServices"
| "list_handler KConfigMap = handleListConfigMaps"
| "list_handler KSecret = handleListSecrets"
| "list_handler KDeployment = handleListDeployments"
| "list_handler KReplicaSet = handleListReplicaSets"

fun get_handler :: "kind \<Rightarrow> ('f, 'b) handler" where
  "get_handler KPod = handleGetPod"
| "get_handler KService = handleGetService"
| "get_handler KConfigMap = handleGetConfigMap"
| "get_handler KSecret = handleGetSecret"
| "get_handler KDeployment = handleGetDeployment"
| "get_handler KReplicaSet = handleGetReplicaSet"

fun delete_handler :: "kind \<Rightarrow> ('f, 'b) handler" where
  "delete_handler KPod = handleDeletePod"
| "delete_handler KService = handleDeleteService"
| "delete_handler KConfigMap = handleDeleteConfigMap"
| "delete_handler KSecret = handleDeleteSecret"
| "delete_handler KDeployment = handleDeleteDeployment"
| "delete_handler KReplicaSet = handleDeleteReplicaSet"

text \<open>Only deployments and replica sets have a route for updates.\<close>

definition update_handler :: "kind \<Rightarrow> ('f, 'b) handler" where
  "update_handler k = (if k = KDeployment then handleUpdateDeployment else handleUpdateReplicaSet)"

definition at_path :: "string \<Rightarrow> string \<Rightarrow> request \<Rightarrow> request" where
  "at_path ns name rq = rq\<lparr>rq_ns := ns, rq_name := name\<rparr>"

fun serve_route :: "route \<Rightarrow> ('f, 'b) handler" where
  "serve_route (RCreate k ns) A rq s = create_handler k A (at_path ns [] rq) s"
| "serve_route (RList k ns) A rq s = list_handler k A (at_path ns [] rq) s"
| "serve_route (RGet k ns name) A rq s = get_handler k A (at_path ns name rq) s"
| "serve_route (RUpdate k ns name) A rq s = update_handler k A (at_path ns name rq) s"
| "serve_route (RDelete k ns name) A rq s = delete_handler k A (at_path ns name rq) s"
| "serve_route (RLog ns name) A rq s = handleGetPodLogs A (at_path ns name rq) s"
| "serve_route RAPIRoot A rq s = (reply 200 (BGroups HandleAPIRoot), s)"
| "serve_route RAPIV1 A rq s = (reply 200 (BResources HandleAPIV1), s)"
| "serve_route RAPIs A rq s = (reply 200 (BJson HandleAPIs), s)"
| "serve_route RAPIsAppsV1 A rq s = (reply 200 (BResources HandleAPIsAppsV1), s)"
| "serve_route RVersion A rq s = (reply 200 (BJson HandleVersion), s)"
| "serve_route ROpenIDConfig A rq s = (reply 200 (BJson HandleOpenIDConfig), s)"
| "serve_route RNotFound A rq s = (reply 404 (BText ''404 page not found''), s)"
| "serve_route RMethodNotAllowed A rq s = (reply 405 (BText ''Method Not Allowed''), s)"

definition serve :: "string \<Rightarrow> string list \<Rightarrow> ('f, 'b) handler" where
  "serve method segs = serve_route (route_of method segs)"

section \<open>The daemon as a state machine\<close>

text \<open>
  The ticks of the two controllers on the server's stores, and one step of the daemon: a request,
  a tick, the recovery at the start, or a step of one of the lifecycle manager's goroutines.  The
  operating system may change the world at any time.
\<close>

definition rs_tick :: "('f, 'b) srv_env \<Rightarrow> (nat \<Rightarrow> nat \<Rightarrow> draw) \<Rightarrow> ('f, 'b) Server \<Rightarrow> goerror option \<times> ('f, 'b) Server" where
  "rs_tick V draw s = RS_ReconcileAll (srv_pod_manager V) srv_ListReplicaSets (srv_StoreReplicaSet V) draw s"

definition dep_tick :: "('f, 'b) srv_env \<Rightarrow> ('f, 'b) Server \<Rightarrow> ('f, 'b) Server" where
  "dep_tick V s = on_ctl (Dep_ReconcileAll (se_storage V)
     (se_PodSpec V) (se_Now V (srv_os s))) s"

inductive lm_background :: "('w, 'b) lm_env \<Rightarrow> 'w LifecycleManager \<Rightarrow> 'w LifecycleManager \<Rightarrow> bool"
  for E :: "('w, 'b) lm_env" where
  tick: "lm_background E lm (monitor_tick E a lm)"
| restart: "lm_background E lm (monitor_restart E a lm)"
| cancelled: "lm_background E lm (monitor_cancelled a lm)"
| liveness: "lm_background E lm (liveness_event E a ev lm)"
| readiness: "lm_background E lm (readiness_event E a ev lm)"
| watch_send: "Watch_send i pod lm = Some lm' \<Longrightarrow> lm_background E lm lm'"
| watch_recv: "lm_background E lm (snd (watch_recv ns ls fs i lm))"
| watch_done: "lm_background E lm (Watch_done i lm)"
| logs: "get_mp lm a = Some mp \<Longrightarrow> lm_background E lm (set_mp a (mp\<lparr>mp_logBuffer := rb\<rparr>) lm)"
| world: "lm_background E lm (lm\<lparr>lm_world := w\<rparr>)"

inductive srv_step :: "('f, 'b) api_env \<Rightarrow> ('f, 'b) Server \<Rightarrow> ('f, 'b) Server \<Rightarrow> bool"
  for A :: "('f, 'b) api_env" where
  request: "srv_step A s (snd (serve method segs A rq s))"
| rs_tick: "srv_step A s (snd (rs_tick (ae_srv A) draw s))"
| dep_tick: "srv_step A s (dep_tick (ae_srv A) s)"
| recover: "srv_step A s (RecoverState (ae_srv A) s)"
| background: "lm_background (srv_lm_env (ae_srv A) s) (srv_lifecycle s) lm \<Longrightarrow>
    srv_step A s (s\<lparr>srv_lifecycle := lm\<rparr>)"

inductive srv_reachable :: "('f, 'b) api_env \<Rightarrow> ('f, 'b) Server \<Rightarrow> ('f, 'b) Server \<Rightarrow> bool"
  for A :: "('f, 'b) api_env" and s0 :: "('f, 'b) Server" where
  start: "srv_reachable A s0 s0"
| step: "srv_reachable A s0 s \<Longrightarrow> srv_step A s s' \<Longrightarrow> srv_reachable A s0 s'"

end
