(* ===== verification/Api_Correct.thy ===== *)
theory Api_Correct
  imports Api Server_Correct
begin

text \<open>
  The invariant of the daemon: whatever requests, ticks and background steps come in whatever
  order, the table of the server and the table of the lifecycle manager agree.  It needs nothing
  of the pool of ports, which services and pods of the same name can confuse.
\<close>

section \<open>The tables of the lifecycle manager\<close>

definition lm_tab :: "'w LifecycleManager \<Rightarrow> bool" where
  "lm_tab lm \<longleftrightarrow> tdistinct (lm_pods lm) \<and> (\<forall>a mp. get_mp lm a = Some mp \<longrightarrow> a < lm_nextAddr lm) \<and>
     (\<forall>key a. tlookup (lm_pods lm) key = Some a \<longrightarrow> (\<exists>mp. get_mp lm a = Some mp \<and> pod_key (mp_pod mp) = key))"

lemma lm_tab_cong:
  "lm_pods lm' = lm_pods lm \<Longrightarrow> lm_heap lm' = lm_heap lm \<Longrightarrow> lm_nextAddr lm' = lm_nextAddr lm \<Longrightarrow>
   lm_tab lm' = lm_tab lm"
  by (simp add: lm_tab_def get_mp_def)

lemma lm_tab_core:
  assumes "core_same lm lm'" "lm_tab lm"
  shows "lm_tab lm'"
proof -
  have eq: "lm_pods lm' = lm_pods lm" "lm_nextAddr lm' = lm_nextAddr lm" using assms(1) by (simp_all add: core_same_def)
  have "\<exists>mp. get_mp lm' a = Some mp \<and> pod_key (mp_pod mp) = key" if l: "tlookup (lm_pods lm) key = Some a" for key a
  proof -
    obtain mp where mp: "get_mp lm a = Some mp" "pod_key (mp_pod mp) = key" using assms(2) l unfolding lm_tab_def by blast
    show ?thesis by (rule core_sameD2 [OF assms(1) mp(1)]) (use mp(2) in auto)
  qed
  moreover have "a < lm_nextAddr lm" if "get_mp lm' a = Some mp" for a mp
    by (rule core_sameD [OF assms(1) that]) (use assms(2) in \<open>auto simp: lm_tab_def\<close>)
  ultimately show ?thesis using assms(2) by (simp add: lm_tab_def eq)
qed

lemma lm_tab_new: "lm_tab (NewLifecycleManager pool w)"
  by (simp add: lm_tab_def NewLifecycleManager_def get_mp_def)

text \<open>A table with one more pod at the next address, or with one pod fewer.\<close>

lemma lm_tab_add:
  assumes "lm_tab lm" "lm_pods lm' = tstore key (lm_nextAddr lm) (lm_pods lm)" "lm_nextAddr lm' = Suc (lm_nextAddr lm)"
    and "get_mp lm' (lm_nextAddr lm) = Some mp" "pod_key (mp_pod mp) = key"
    and "\<And>b. b \<noteq> lm_nextAddr lm \<Longrightarrow> get_mp lm' b = get_mp lm b"
  shows "lm_tab lm'"
proof -
  have lt: "a < lm_nextAddr lm" if "get_mp lm a = Some m" for a m using assms(1) that by (auto simp: lm_tab_def)
  have "\<exists>m. get_mp lm' a = Some m \<and> pod_key (mp_pod m) = k" if l: "tlookup (lm_pods lm') k = Some a" for k a
  proof (cases "k = key")
    case False
    then have "tlookup (lm_pods lm) k = Some a" using l assms(2) by simp
    then obtain m where m: "get_mp lm a = Some m" "pod_key (mp_pod m) = k"
      using assms(1) unfolding lm_tab_def by blast
    then show ?thesis using assms(6) [of a] lt [OF m(1)] by simp
  qed (use l assms(2,4,5) in simp)
  moreover have "a < lm_nextAddr lm'" if "get_mp lm' a = Some m" for a m
    using that assms(3) assms(6) [of a] lt [of a] by (cases "a = lm_nextAddr lm") (auto simp: less_SucI)
  ultimately show ?thesis using assms(1,2) by (simp add: lm_tab_def)
qed

lemma lm_tab_remove:
  assumes "lm_tab lm" "\<And>k. tlookup (lm_pods lm') k = (if k = key then None else tlookup (lm_pods lm) k)"
    "tdistinct (lm_pods lm')"
    and "\<And>a m. get_mp lm a = Some m \<Longrightarrow> \<exists>m'. get_mp lm' a = Some m' \<and> mp_pod m' = mp_pod m"
    and "\<And>a m'. get_mp lm' a = Some m' \<Longrightarrow> a < lm_nextAddr lm'"
  shows "lm_tab lm'"
proof -
  have "\<exists>m. get_mp lm' a = Some m \<and> pod_key (mp_pod m) = k" if l: "tlookup (lm_pods lm') k = Some a" for k a
  proof -
    have "tlookup (lm_pods lm) k = Some a" using l assms(2) by (auto split: if_splits)
    then obtain m where "get_mp lm a = Some m" "pod_key (mp_pod m) = k" using assms(1) unfolding lm_tab_def by blast
    then show ?thesis using assms(4) by fastforce
  qed
  then show ?thesis using assms(3,5) by (simp add: lm_tab_def)
qed

lemma Launch_tab:
  assumes "lm_tab lm" "Launch E pod engineType target env lm = ((r, pod'), lm')"
  shows "lm_tab lm' \<and> (\<forall>k. tlookup (lm_pods lm') k \<noteq> None \<longrightarrow> tlookup (lm_pods lm) k \<noteq> None \<or> k = pod_key pod)"
  using assms(2)
proof (cases rule: Launch_cases)
  case managed
  then show ?thesis using assms(1) by simp
next
  case (no_port e)
  have "lm_pods lm' = lm_pods lm \<and> lm_heap lm' = lm_heap lm \<and> lm_nextAddr lm' = lm_nextAddr lm"
    by (subst (1 2 3) no_port(5)) simp
  then show ?thesis using assms(1) lm_tab_cong by metis
next
  case (early hostPort pool e w)
  have "lm_pods lm' = lm_pods lm" "lm_heap lm' = lm_heap lm" "lm_nextAddr lm' = lm_nextAddr lm"
    by (simp_all add: early(4) lm_frame)
  then show ?thesis using assms(1) lm_tab_cong [of lm' lm] by simp
next
  case (started hostPort pool containerPort projected w)
  let ?lm = "lm\<lparr>lm_portPool := pool, lm_world := w\<rparr>"
  have lt: "a < lm_nextAddr lm" if "get_mp lm a = Some m" for a m using assms(1) that by (auto simp: lm_tab_def)
  show ?thesis
  proof (cases r)
    case None
    show ?thesis
    proof (rule start_launch_ok [OF started(4) [unfolded None], simplified])
      fix mp assume ok: "lm_pods lm' = tstore (pod_key pod) (lm_nextAddr lm) (lm_pods lm)"
        "lm_nextAddr lm' = Suc (lm_nextAddr lm)" "get_mp lm' (lm_nextAddr lm) = Some mp"
        "launched mp (set_host_port hostPort pod) engineType target
          (if 0 < hostPort then env @ [\<lparr>ev_Name = ''LOK8S_PORT'', ev_Value = itoa hostPort\<rparr>] else env) hostPort projected"
        "\<And>b. b \<noteq> lm_nextAddr lm \<Longrightarrow> get_mp lm' b = get_mp lm b"
      have "pod_key (mp_pod mp) = pod_key pod" using ok(4) by (simp add: launched_def)
      then have "lm_tab lm'" using lm_tab_add [OF assms(1) ok(1-3) _ ok(5)] by blast
      then show ?thesis by (simp add: ok(1))
    qed
  next
    case (Some e)
    note er = start_launch_err [OF started(4) [unfolded Some], simplified]
    have g: "get_mp lm' b = get_mp lm b" if "b < lm_nextAddr lm" for b using er(4) [of b] that by simp
    have "lm_tab lm'"
    proof (rule lm_tab_remove [OF assms(1), of _ "pod_key pod"])
      show "\<exists>m'. get_mp lm' a = Some m' \<and> mp_pod m' = mp_pod m" if "get_mp lm a = Some m" for a m
        using g [OF lt [OF that]] that by simp
      show "a < lm_nextAddr lm'" if "get_mp lm' a = Some m'" for a m'
        using er(2) er(4) [of a] lt [of a m'] that by (cases "a = lm_nextAddr lm") auto
    qed (use er(1) assms(1) in \<open>simp_all add: lm_tab_def\<close>)
    then show ?thesis by (simp add: er(1))
  qed
qed

lemma Terminate_tab:
  assumes "lm_tab lm" "Terminate E ns name lm = (r, lm')"
  shows "lm_tab lm' \<and> (\<forall>k. tlookup (lm_pods lm') k = (if k = podKey ns name then None else tlookup (lm_pods lm) k))"
proof (cases "load_pod lm (podKey ns name)")
  case None
  then have "tlookup (lm_pods lm) (podKey ns name) = None"
    using assms(1) unfolding lm_tab_def load_pod_def by (fastforce split: option.splits)
  moreover have "lm' = lm" using Terminate_unmanaged [OF None, of E] assms(2) by simp
  ultimately show ?thesis using assms(1) by simp
next
  case (Some am)
  obtain a mp where am: "am = (a, mp)" by (cases am)
  note g = conjunct2 [OF load_podD [OF Some [unfolded am]]]
  show ?thesis
  proof (rule Terminate_managed [OF Some [unfolded am] assms(2)])
    fix mp' assume t: "lm_pods lm' = tdelete (podKey ns name) (lm_pods lm)" "lm_nextAddr lm' = lm_nextAddr lm"
      "get_mp lm' a = Some mp'" "mp_pod mp' = mp_pod mp" "\<And>b. b \<noteq> a \<Longrightarrow> get_mp lm' b = get_mp lm b"
    have "lm_tab lm'"
    proof (rule lm_tab_remove [OF assms(1), of _ "podKey ns name"])
      show "\<exists>m'. get_mp lm' b = Some m' \<and> mp_pod m' = mp_pod m" if "get_mp lm b = Some m" for b m
        using t(3-5) g that by (cases "b = a") auto
      show "b < lm_nextAddr lm'" if "get_mp lm' b = Some m'" for b m'
        using t(2,3,5) g assms(1) that unfolding lm_tab_def by (cases "b = a") auto
    qed (use t(1) assms(1) in \<open>simp_all add: lm_tab_def\<close>)
    then show ?thesis by (simp add: t(1))
  qed
qed

section \<open>The tables of the server\<close>

definition srv_ok :: "('f, 'b) Server \<Rightarrow> bool" where
  "srv_ok s \<longleftrightarrow> lm_tab (srv_lifecycle s) \<and> tdistinct (srv_pods s) \<and>
     (\<forall>k p. tlookup (srv_pods s) k = Some p \<longrightarrow> k = pod_key p) \<and>
     (\<forall>k. tlookup (lm_pods (srv_lifecycle s)) k \<noteq> None \<longrightarrow> tlookup (srv_pods s) k \<noteq> None)"

named_theorems keeps_ok \<open>operations that keep the tables of the server in agreement\<close>

lemma srv_ok_cong:
  "srv_lifecycle s' = srv_lifecycle s \<Longrightarrow> srv_pods s' = srv_pods s \<Longrightarrow> srv_ok s' = srv_ok s"
  by (simp add: srv_ok_def)

lemma srv_ok_tables [keeps_ok]:
  "srv_ok s \<Longrightarrow> srv_ok (on_ctl g s)" "srv_ok s \<Longrightarrow> srv_ok (on_cfg h s)"
  "srv_ok s \<Longrightarrow> srv_ok (s\<lparr>srv_services := svcs, srv_db := db\<rparr>)"
  by (simp_all add: srv_ok_def on_ctl_def on_cfg_def Let_def)

lemma srv_ok_lm:
  assumes "srv_ok s" "lm_tab lm"
    and "\<forall>k. tlookup (lm_pods lm) k \<noteq> None \<longrightarrow> tlookup (lm_pods (srv_lifecycle s)) k \<noteq> None"
  shows "srv_ok (s\<lparr>srv_lifecycle := lm\<rparr>)"
  using assms by (simp add: srv_ok_def)

lemma srv_ok_core:
  assumes "srv_ok s" "core_same (srv_lifecycle s) lm"
  shows "srv_ok (s\<lparr>srv_lifecycle := lm\<rparr>)"
  by (rule srv_ok_lm [OF assms(1) lm_tab_core [OF assms(2)]])
    (use assms in \<open>simp_all add: srv_ok_def core_same_def\<close>)

lemma srv_ok_same_pods:
  assumes "srv_ok s" "lm_pods lm = lm_pods (srv_lifecycle s)" "lm_heap lm = lm_heap (srv_lifecycle s)"
    "lm_nextAddr lm = lm_nextAddr (srv_lifecycle s)"
  shows "srv_ok (s\<lparr>srv_lifecycle := lm\<rparr>)"
  by (rule srv_ok_lm) (use assms lm_tab_cong [OF assms(2-4)] in \<open>simp_all add: srv_ok_def\<close>)

lemma srv_ok_proxies [keeps_ok]: "srv_ok s \<Longrightarrow> srv_ok (snd (on_proxies g s))"
proof -
  assume ok: "srv_ok s"
  obtain r pm pool w where g: "g (srv_proxyManager s, lm_portPool (srv_lifecycle s), lm_world (srv_lifecycle s)) =
      (r, pm, pool, w)" by (metis surj_pair)
  have "srv_ok (s\<lparr>srv_lifecycle := (srv_lifecycle s)\<lparr>lm_portPool := pool, lm_world := w\<rparr>\<rparr>)"
    by (rule srv_ok_same_pods [OF ok]) simp_all
  then show ?thesis by (simp add: on_proxies_def g srv_ok_def)
qed

lemma srv_ok_Reserve [keeps_ok]: "srv_ok s \<Longrightarrow> srv_ok (srv_Reserve key port s)"
  unfolding srv_Reserve_def by (erule srv_ok_same_pods) simp_all

lemma srv_ok_store [keeps_ok]: "srv_ok s \<Longrightarrow> srv_ok (storePod V pod s)"
  by (auto simp: srv_ok_def)

text \<open>A launch and the storing of its pod, under the pod's key, go together.\<close>

lemma srv_ok_launch:
  assumes "srv_ok s" "Launch E pod t x env (srv_lifecycle s) = ((r, pod1), lm)"
    and "srv_lifecycle s' = lm" "srv_pods s' = tstore (pod_key pod) p (srv_pods s)" "pod_Metadata p = pod_Metadata pod"
  shows "srv_ok s'"
proof -
  have tab: "lm_tab (srv_lifecycle s)" using assms(1) by (simp add: srv_ok_def)
  note l = Launch_tab [OF tab assms(2)]
  have "pod_key p = pod_key pod" by (rule pod_key_meta [OF assms(5)])
  then show ?thesis using assms(1) l by (auto simp: srv_ok_def assms(3,4) split: if_splits)
qed

lemma srv_ok_LaunchPod [keeps_ok]:
  assumes "srv_ok s"
  shows "srv_ok (snd (LaunchPod V pod s))"
proof -
  obtain r s' where l: "LaunchPod V pod s = (r, s')" by (meson surj_pair)
  then have "srv_ok s'"
  proof (cases rule: LaunchPod_cases)
    case (config e)
    have "pod_key (failed_pod V e pod) = pod_key pod" by (rule pod_key_meta) simp
    then show ?thesis using assms config(2,3) by (auto simp: srv_ok_def split: if_splits)
  next
    case (failed e engineType target env s0 pod1 lm)
    have "pod_key (pending_pod V s0 pod) = pod_key pod" by (rule pod_key_meta) simp
    then show ?thesis
      using srv_ok_launch [OF assms failed(4,3), of "failed_pod V e pod1"] failed(2,5) by simp
  next
    case (ok engineType target env s0 pod1 lm)
    have "pod_key (pending_pod V s0 pod) = pod_key pod" by (rule pod_key_meta) simp
    then show ?thesis
      using srv_ok_launch [OF assms ok(4,3), of "running_pod pod1"] ok(2,5) by simp
  qed
  then show ?thesis by (simp add: l)
qed

lemma srv_ok_Terminate [keeps_ok]:
  assumes "srv_ok s"
  shows "srv_ok (s\<lparr>srv_lifecycle := snd (Terminate E ns n (srv_lifecycle s))\<rparr>)"
    "srv_ok (deletePod V ns n (s\<lparr>srv_lifecycle := snd (Terminate E ns n (srv_lifecycle s))\<rparr>))"
proof -
  obtain r lm where t: "Terminate E ns n (srv_lifecycle s) = (r, lm)" by (meson surj_pair)
  have tab: "lm_tab (srv_lifecycle s)" using assms by (simp add: srv_ok_def)
  note l = Terminate_tab [OF tab t]
  show "srv_ok (s\<lparr>srv_lifecycle := snd (Terminate E ns n (srv_lifecycle s))\<rparr>)"
    using srv_ok_lm [OF assms conjunct1 [OF l]] l by (simp add: t)
  show "srv_ok (deletePod V ns n (s\<lparr>srv_lifecycle := snd (Terminate E ns n (srv_lifecycle s))\<rparr>))"
    using assms l by (auto simp: srv_ok_def t split: if_splits)
qed

lemma srv_ok_DeletePod [keeps_ok]: "srv_ok s \<Longrightarrow> srv_ok (snd (DeletePod V ns n s))"
  by (simp add: DeletePod_def Let_def keeps_ok)

lemma srv_ok_StoreReplicaSet [keeps_ok]: "srv_ok s \<Longrightarrow> srv_ok (srv_StoreReplicaSet V rs s)"
  by (simp add: srv_StoreReplicaSet_def keeps_ok)

section \<open>The handlers\<close>

lemma srv_ok_handleCreatePod [keeps_ok]:
  assumes "srv_ok s"
  shows "srv_ok (snd (handleCreatePod A rq s))"
proof -
  have launch: "srv_ok (storePod (ae_srv A) p (s\<lparr>srv_lifecycle := lm\<rparr>))"
    if "Launch E (pending_pod (ae_srv A) s pod) t x env (srv_lifecycle s) = ((r, pod1), lm)"
      "pod_Metadata p = pod_Metadata pod1" for E pod t x env r pod1 lm p
  proof (rule srv_ok_launch [OF assms that(1)])
    have m: "pod_Metadata p = pod_Metadata (pending_pod (ae_srv A) s pod)"
      using Launch_pod_meta [OF that(1)] that(2) by simp
    then show "pod_Metadata p = pod_Metadata (pending_pod (ae_srv A) s pod)" .
    show "srv_pods (storePod (ae_srv A) p (s\<lparr>srv_lifecycle := lm\<rparr>)) =
        tstore (pod_key (pending_pod (ae_srv A) s pod)) p (srv_pods s)"
      using pod_key_meta [OF m] by simp
  qed simp
  show ?thesis
    using assms
    by (auto simp: handleCreatePod_def Let_def split: sum.splits prod.splits option.splits elim!: launch)
qed

lemma srv_ok_handleGetPod [keeps_ok]: "srv_ok s \<Longrightarrow> srv_ok (snd (handleGetPod A rq s))"
  by (simp add: handleGetPod_def Let_def keeps_ok split: option.splits)

lemma srv_ok_handleListPods [keeps_ok]: "srv_ok s \<Longrightarrow> srv_ok (snd (handleListPods A rq s))"
  using srv_ok_core [of s "snd (Watch (srv_lifecycle s))"] other_core(3) [of "srv_lifecycle s"]
  by (simp add: handleListPods_def handleWatchPods_def Let_def case_prod_beta)

lemma srv_ok_handleDeletePod [keeps_ok]: "srv_ok s \<Longrightarrow> srv_ok (snd (handleDeletePod A rq s))"
  by (simp add: handleDeletePod_def Let_def keeps_ok split: option.splits)

lemma srv_ok_handleGetPodLogs [keeps_ok]:
  assumes "srv_ok s"
  shows "srv_ok (snd (handleGetPodLogs A rq s))"
proof (cases "load_pod (srv_lifecycle s) (podKey (rq_ns rq) (rq_name rq))")
  case None
  then show ?thesis using assms by (simp add: handleGetPodLogs_def split: option.splits)
next
  case (Some am)
  obtain a mp where am: "am = (a, mp)" by (cases am)
  note g = conjunct2 [OF load_podD [OF Some [unfolded am]]]
  have "core_same (srv_lifecycle s) (set_mp a (mp\<lparr>mp_logBuffer := rb\<rparr>) (srv_lifecycle s))" for rb
    by (rule core_same_mp [OF _ _ _ g, where mp' = "mp\<lparr>mp_logBuffer := rb\<rparr>"]) (simp_all add: set_mp_def)
  then have "srv_ok (s\<lparr>srv_lifecycle := set_mp a (mp\<lparr>mp_logBuffer := rb\<rparr>) (srv_lifecycle s)\<rparr>)" for rb
    by (rule srv_ok_core [OF assms])
  then show ?thesis using assms Some am
    by (simp add: handleGetPodLogs_def Let_def case_prod_beta split: option.splits)
qed

lemma srv_ok_service_handlers [keeps_ok]:
  "srv_ok s \<Longrightarrow> srv_ok (snd (handleCreateService A rq s))" "srv_ok s \<Longrightarrow> srv_ok (snd (handleListServices A rq s))"
  "srv_ok s \<Longrightarrow> srv_ok (snd (handleGetService A rq s))" "srv_ok s \<Longrightarrow> srv_ok (snd (handleDeleteService A rq s))"
proof -
  assume ok: "srv_ok s"
  have p: "srv_ok s1" if "on_proxies g s = (r, s1)" for g :: "'a World pxs \<Rightarrow> 'c \<times> 'a World pxs" and r s1
    using srv_ok_proxies [OF ok, of g] that by simp
  show "srv_ok (snd (handleCreateService A rq s))"
    using ok by (auto simp: handleCreateService_def Let_def split: sum.splits prod.splits intro!: srv_ok_tables(3) intro: p)
  show "srv_ok (snd (handleListServices A rq s))" "srv_ok (snd (handleGetService A rq s))"
    "srv_ok (snd (handleDeleteService A rq s))"
    using ok by (simp_all add: handleListServices_def handleGetService_def handleDeleteService_def Let_def keeps_ok
        split: option.splits)
qed

lemma srv_ok_config_handlers [keeps_ok]:
  "srv_ok s \<Longrightarrow> srv_ok (snd (handleCreateConfigMap A rq s))" "srv_ok s \<Longrightarrow> srv_ok (snd (handleListConfigMaps A rq s))"
  "srv_ok s \<Longrightarrow> srv_ok (snd (handleGetConfigMap A rq s))" "srv_ok s \<Longrightarrow> srv_ok (snd (handleDeleteConfigMap A rq s))"
  "srv_ok s \<Longrightarrow> srv_ok (snd (handleCreateSecret A rq s))" "srv_ok s \<Longrightarrow> srv_ok (snd (handleListSecrets A rq s))"
  "srv_ok s \<Longrightarrow> srv_ok (snd (handleGetSecret A rq s))" "srv_ok s \<Longrightarrow> srv_ok (snd (handleDeleteSecret A rq s))"
  by (simp_all add: handleCreateConfigMap_def handleListConfigMaps_def handleGetConfigMap_def handleDeleteConfigMap_def
      handleCreateSecret_def handleListSecrets_def handleGetSecret_def handleDeleteSecret_def Let_def keeps_ok
      split: option.splits sum.splits)

lemma srv_ok_cascade [keeps_ok]:
  "srv_ok s \<Longrightarrow> srv_ok (cascade_pods V rs pods s)" "srv_ok s \<Longrightarrow> srv_ok (cascadeDeleteReplicaSet V rs s)"
  "srv_ok s \<Longrightarrow> srv_ok (cascade_rss V name rss s)"
proof -
  have p: "srv_ok s \<Longrightarrow> srv_ok (cascade_pods V rs pods s)" for rs pods and s :: "('a, 'b) Server"
    unfolding cascade_pods_def by (induction pods arbitrary: s) (simp_all add: Let_def keeps_ok)
  then show "srv_ok s \<Longrightarrow> srv_ok (cascade_pods V rs pods s)" .
  have c: "srv_ok s \<Longrightarrow> srv_ok (cascadeDeleteReplicaSet V rs s)" for rs and s :: "('a, 'b) Server"
    by (simp add: cascadeDeleteReplicaSet_def keeps_ok p)
  then show "srv_ok s \<Longrightarrow> srv_ok (cascadeDeleteReplicaSet V rs s)" .
  show "srv_ok s \<Longrightarrow> srv_ok (cascade_rss V name rss s)"
    unfolding cascade_rss_def by (induction rss arbitrary: s) (simp_all add: c)
qed

lemma srv_ok_controller_handlers [keeps_ok]:
  "srv_ok s \<Longrightarrow> srv_ok (snd (handleCreateDeployment A rq s))" "srv_ok s \<Longrightarrow> srv_ok (snd (handleListDeployments A rq s))"
  "srv_ok s \<Longrightarrow> srv_ok (snd (handleGetDeployment A rq s))" "srv_ok s \<Longrightarrow> srv_ok (snd (handleUpdateDeployment A rq s))"
  "srv_ok s \<Longrightarrow> srv_ok (snd (handleDeleteDeployment A rq s))"
  "srv_ok s \<Longrightarrow> srv_ok (snd (handleCreateReplicaSet A rq s))" "srv_ok s \<Longrightarrow> srv_ok (snd (handleListReplicaSets A rq s))"
  "srv_ok s \<Longrightarrow> srv_ok (snd (handleGetReplicaSet A rq s))" "srv_ok s \<Longrightarrow> srv_ok (snd (handleUpdateReplicaSet A rq s))"
  "srv_ok s \<Longrightarrow> srv_ok (snd (handleDeleteReplicaSet A rq s))"
  by (simp_all add: handleCreateDeployment_def handleListDeployments_def handleGetDeployment_def
      handleUpdateDeployment_def handleDeleteDeployment_def handleCreateReplicaSet_def handleListReplicaSets_def
      handleGetReplicaSet_def handleUpdateReplicaSet_def handleDeleteReplicaSet_def Let_def keeps_ok
      split: option.splits sum.splits)

lemma srv_ok_serve [keeps_ok]: "srv_ok s \<Longrightarrow> srv_ok (snd (serve method segs A rq s))"
proof -
  assume ok: "srv_ok s"
  have "srv_ok (snd (create_handler k A rq s))" "srv_ok (snd (list_handler k A rq s))" "srv_ok (snd (get_handler k A rq s))"
    "srv_ok (snd (delete_handler k A rq s))" "srv_ok (snd (update_handler k A rq s))" for k rq
    using ok by (cases k; simp add: keeps_ok update_handler_def)+
  then show ?thesis using ok by (cases "route_of method segs") (simp_all add: serve_def keeps_ok)
qed

section \<open>Ticks, recovery and background steps\<close>

text \<open>What the operations of a pod manager and the store keep, the replica set controller keeps.\<close>

lemma launch_loop_keeps:
  assumes "\<And>pod s. P s \<Longrightarrow> P (snd (pm_LaunchPod PM pod s))"
  shows "P s \<Longrightarrow> P (snd (launch_loop PM rs draw i n s))"
proof (induction n arbitrary: i s)
  case (Suc n)
  obtain r s1 where l: "pm_LaunchPod PM (new_pod rs (draw i)) s = (r, s1)" by (meson surj_pair)
  have "P s1" using assms [OF Suc.prems, of "new_pod rs (draw i)"] by (simp add: l)
  then show ?case using Suc.IH by (cases r) (simp_all add: Let_def l)
qed simp

lemma delete_loop_keeps:
  assumes "\<And>ns n s. P s \<Longrightarrow> P (snd (pm_DeletePod PM ns n s))"
  shows "P s \<Longrightarrow> P (snd (delete_loop PM act i n s))"
proof (induction n arbitrary: i s)
  case (Suc n)
  let ?m = "pod_Metadata (act ! nat (int (length act) - 1 - int i))"
  obtain r s1 where l: "pm_DeletePod PM (om_Namespace ?m) (om_Name ?m) s = (r, s1)" by (meson surj_pair)
  have "P s1" using assms [OF Suc.prems, of "om_Namespace ?m" "om_Name ?m"] by (simp add: l)
  then show ?case using Suc.IH Suc.prems by (cases r) (simp_all add: Let_def l)
qed simp

lemma RS_Reconcile_keeps:
  assumes "\<And>pod s. P s \<Longrightarrow> P (snd (pm_LaunchPod PM pod s))" "\<And>ns n s. P s \<Longrightarrow> P (snd (pm_DeletePod PM ns n s))"
    "\<And>n ready s. P s \<Longrightarrow> P (store (rs_with_status n ready rs) s)"
  shows "P s \<Longrightarrow> P (snd (RS_Reconcile PM store draw rs s))"
proof -
  assume P: "P s"
  have l: "P s1" if "launch_loop PM rs draw i n s = (r, s1)" for i n r s1
    using launch_loop_keeps [of P PM, OF assms(1) P, of rs draw i n] that by simp
  have d: "P s1" if "delete_loop PM act i n s = (r, s1)" for act i n r s1
    using delete_loop_keeps [of P PM, OF assms(2) P, of act i n] that by simp
  show ?thesis
    unfolding RS_Reconcile_def scan_pods_start Let_def prod.case
    using P by (auto split: prod.splits option.splits intro: assms(3) dest: l d)
qed

lemma RS_ReconcileAll_keeps:
  assumes "\<And>pod s. P s \<Longrightarrow> P (snd (pm_LaunchPod PM pod s))" "\<And>ns n s. P s \<Longrightarrow> P (snd (pm_DeletePod PM ns n s))"
    "\<And>rs n ready s'. rs \<in> set (listRS [] s) \<Longrightarrow> P s' \<Longrightarrow> P (store (rs_with_status n ready rs) s')"
  shows "P s \<Longrightarrow> P (snd (RS_ReconcileAll PM listRS store draw s))"
proof -
  have "set rss \<subseteq> set (listRS [] s) \<Longrightarrow> P s' \<Longrightarrow> P (snd (rs_reconcile_loop PM store draw k rss s'))" for k rss s'
  proof (induction rss arbitrary: k s')
    case (Cons rs rss)
    obtain r s1 where r: "RS_Reconcile PM store (draw k) rs s' = (r, s1)" by (meson surj_pair)
    have rs: "rs \<in> set (listRS [] s)" using Cons.prems(1) by simp
    have "P s1" using RS_Reconcile_keeps [of P PM store rs, OF assms(1,2) assms(3) [OF rs] Cons.prems(2), of "draw k"] by (simp add: r)
    then show ?case using Cons.IH Cons.prems(1) by (cases r) (simp_all add: r)
  qed simp
  then show "P s \<Longrightarrow> P (snd (RS_ReconcileAll PM listRS store draw s))" by (simp add: RS_ReconcileAll_def)
qed

lemma srv_ok_ticks [keeps_ok]:
  "srv_ok s \<Longrightarrow> srv_ok (snd (rs_tick V draw s))" "srv_ok s \<Longrightarrow> srv_ok (dep_tick V s)"
proof -
  show "srv_ok s \<Longrightarrow> srv_ok (snd (rs_tick V draw s))"
    unfolding rs_tick_def
    by (rule RS_ReconcileAll_keeps) (simp_all add: srv_pod_manager_def keeps_ok)
qed (simp add: dep_tick_def keeps_ok)

lemma srv_ok_RecoverState [keeps_ok]: "srv_ok s \<Longrightarrow> srv_ok (RecoverState V s)"
proof -
  have svc: "srv_ok s \<Longrightarrow> srv_ok (recover_service V svc s)" for svc and s :: "('a, 'b) Server"
    by (simp add: recover_service_def keeps_ok split: list.splits)
  have pod: "srv_ok s \<Longrightarrow> srv_ok (recover_pod V pod s)" for pod and s :: "('a, 'b) Server"
    by (simp add: recover_pod_def Let_def keeps_ok)
  have "srv_ok s \<Longrightarrow> srv_ok (fold (recover_service V) svcs s)" for svcs and s :: "('a, 'b) Server"
    by (induction svcs arbitrary: s) (simp_all add: svc)
  moreover have "srv_ok s \<Longrightarrow> srv_ok (fold (recover_pod V) pods s)" for pods and s :: "('a, 'b) Server"
    by (induction pods arbitrary: s) (simp_all add: pod)
  ultimately show "srv_ok s \<Longrightarrow> srv_ok (RecoverState V s)" by (simp add: RecoverState_def Let_def)
qed

lemma background_core: "lm_background E lm lm' \<Longrightarrow> core_same lm lm'"
proof (induction rule: lm_background.induct)
  case (logs lm a mp rb)
  show ?case
    by (rule core_same_mp [OF _ _ _ logs, where mp' = "mp\<lparr>mp_logBuffer := rb\<rparr>"]) (simp_all add: set_mp_def)
next
  case (watch_recv lm ns ls fs i)
  show ?case by (auto simp: watch_recv_def other_core(5) core_same_refl split: option.splits list.splits)
next
  case (watch_send i pod lm lm')
  then show ?case by (rule other_core(4))
qed (simp_all add: tick_core restart_core readiness_core other_core)

lemma srv_step_ok:
  assumes "srv_step A s s'" "srv_ok s"
  shows "srv_ok s'"
  using assms(1)
proof cases
  case (background lm)
  then show ?thesis using srv_ok_core [OF assms(2) background_core] by simp
qed (use assms(2) in \<open>simp_all add: keeps_ok\<close>)

lemma srv_reachable_ok: "srv_reachable A s0 s \<Longrightarrow> srv_ok s0 \<Longrightarrow> srv_ok s"
  by (induction rule: srv_reachable.induct) (auto intro: srv_step_ok)

text \<open>A new server over a database whose pods are stored under their keys.\<close>

lemma srv_ok_NewServer:
  assumes "kv_wf pod_Metadata (kv_load (sg_bolt (se_storage V)) (sg_Pod (se_storage V)) ''pods'' db)"
  shows "srv_ok (NewServer V (NewLifecycleManager pool w) configStore controllerStore db)"
  using assms lm_tab_new [of pool w]
  by (auto simp: srv_ok_def NewServer_def kv_wf_def meta_key_def obj_key_def pod_key_def podKey_def)
    (simp add: NewLifecycleManager_def)

section \<open>Properties\<close>


text \<open>A daemon that is sent the manifest of a pod in a text only the YAML decoder reads.\<close>

definition posted_pod :: Pod where
  "posted_pod = zero_Pod\<lparr>pod_Metadata := zero_ObjectMeta\<lparr>om_Name := ''web'',
     om_Annotations := Some [(AnnotationExecutablePath, ''app'')]\<rparr>\<rparr>"

definition demo_A :: "(unit, mem_db) api_env" where
  "demo_A = \<lparr>ae_srv = demo_V, ae_yaml_Pod = (\<lambda>b. Inr posted_pod), ae_yaml_Service = (\<lambda>b. Inr zero_Service),
     ae_yaml_ConfigMap = (\<lambda>b. Inr zero_ConfigMap), ae_yaml_Secret = (\<lambda>b. Inr zero_Secret)\<rparr>"

definition demo_rq :: request where
  "demo_rq = \<lparr>rq_ns = [], rq_name = [], rq_body = Inr ''pod'', rq_query = (\<lambda>k. []), rq_accept = [],
     rq_flusher = True, rq_uuid = ''u1''\<rparr>"

definition demo_posted :: "(unit, mem_db) Server" where
  "demo_posted = snd (serve ''POST'' [''api'', ''v1'', ''namespaces'', ''default'', ''pods''] demo_A demo_rq demo_server)"

lemma demo_post:
  obtains pod1 lm where "pod_key pod1 = ''default/web''"
    "Launch (srv_lm_env demo_V demo_server) (pending_pod demo_V demo_server
       (posted_pod\<lparr>pod_Metadata := stamp demo_A (at_path ''default'' [] demo_rq) demo_server (pod_Metadata posted_pod),
          pod_TypeMeta := \<lparr>tm_APIVersion = ''v1'', tm_Kind = ''Pod''\<rparr>\<rparr>)) ''native'' ''app'' []
       (new_daemon ()) = ((None, pod1), lm)"
    "demo_posted = storePod demo_V (running_pod pod1) (demo_server\<lparr>srv_lifecycle := lm\<rparr>)"
proof -
  define p where "p = posted_pod\<lparr>pod_Metadata := stamp demo_A (at_path ''default'' [] demo_rq) demo_server (pod_Metadata posted_pod),
          pod_TypeMeta := \<lparr>tm_APIVersion = ''v1'', tm_Kind = ''Pod''\<rparr>\<rparr>"
  let ?q = "pending_pod demo_V demo_server p"
  have meta: "pod_Spec p = zero_PodSpec" "om_UID (pod_Metadata p) = ''u1''"
      "om_Annotations (pod_Metadata p) = Some [(''lok8s.io/executable-path'', ''app'')]"
      "om_Name (pod_Metadata p) = ''web''" "om_Namespace (pod_Metadata p) = ''default''"
    by (simp_all add: posted_pod_def zero_Pod_def stamp_def demo_rq_def at_path_def zero_ObjectMeta_def AnnotationExecutablePath_def p_def)
  have c: "ExtractEngineConfig f p = Inr (''native'', ''app'')" for f
    by (simp add: ExtractEngineConfig_def meta mlookup_def AnnotationExecutablePath_def AnnotationWasmModule_def EngineNative_def)
  have "fst (fst (Launch (srv_lm_env demo_V demo_server) ?q ''native'' ''app'' [] (new_daemon ()))) = None"
    by (rule demo_Launch_plain) (simp_all add: meta pending_pod_def mlookup_def)
  then obtain pod1 lm where l: "Launch (srv_lm_env demo_V demo_server) ?q ''native'' ''app'' [] (new_daemon ()) = ((None, pod1), lm)"
    by (metis prod.collapse)
  have m: "pod_Metadata pod1 = pod_Metadata p" using Launch_pod_meta [OF l] by simp
  have svc: "GenerateServiceEnv H ns (srv_services demo_server, srv_db demo_server) pm = []" for H ns pm
    by (simp add: GenerateServiceEnv_def demo_server_def NewServer_def NewServiceStore_def kv_load_def ServiceStore_List_def)
  have lc: "srv_lifecycle demo_server = new_daemon ()" by (simp add: demo_server_def NewServer_def)
  have env: "CollectEnvVars (ps_Containers (pod_Spec p)) = []"
    unfolding meta by (simp add: zero_PodSpec_def CollectEnvVars_def)
  have "Parse (snd (sg_Pod (stg demo_A))) (ae_yaml_Pod demo_A) ''pod'' = Inr posted_pod"
    by (simp add: Parse_def parse_with_def demo_A_def posted_pod_def)
  then have "demo_posted = storePod demo_V (running_pod pod1) (demo_server\<lparr>srv_lifecycle := lm\<rparr>)"
    using l c env unfolding p_def
    by (simp add: svc lc demo_posted_def serve_def route_of_def api_route_def collection_route_def core_kind_def
        handleCreatePod_def at_path_def demo_rq_def demo_A_def Let_def)
  moreover have "pod_key pod1 = ''default/web''" by (simp add: pod_key_def podKey_def m meta)
  ultimately show thesis using that l unfolding p_def by blast
qed

lemma demo_posted_managed: "load_pod (srv_lifecycle demo_posted) ''default/web'' \<noteq> None"
proof (rule demo_post)
  fix pod1 lm
  assume pod1: "pod_key pod1 = ''default/web''" and
    l: "Launch (srv_lm_env demo_V demo_server) (pending_pod demo_V demo_server
       (posted_pod\<lparr>pod_Metadata := stamp demo_A (at_path ''default'' [] demo_rq) demo_server (pod_Metadata posted_pod),
          pod_TypeMeta := \<lparr>tm_APIVersion = ''v1'', tm_Kind = ''Pod''\<rparr>\<rparr>)) ''native'' ''app'' []
       (new_daemon ()) = ((None, pod1), lm)" and
    s: "demo_posted = storePod demo_V (running_pod pod1) (demo_server\<lparr>srv_lifecycle := lm\<rparr>)"
  have "load_pod lm ''default/web'' \<noteq> None"
    by (rule Launch_ok [OF demo_inv(1) demo_inv(2) l]) (use pod1 pod_key_meta [OF Launch_pod_meta [OF l]] in auto)
  then show ?thesis by (simp add: s)
qed

lemma demo_posted_reachable:
  "srv_reachable demo_A (NewServer (ae_srv demo_A) (NewLifecycleManager (NewPortPool 30000 32767) (lm_world (new_daemon ())))
     (fst empty_cfg) (fst empty_ctl) None) demo_posted"
proof -
  have new: "NewServer (ae_srv demo_A) (NewLifecycleManager (NewPortPool 30000 32767) (lm_world (new_daemon ())))
      (fst empty_cfg) (fst empty_ctl) None = demo_server"
    by (simp add: demo_server_def demo_A_def new_daemon_def NewLifecycleManager_def)
  show ?thesis
    unfolding new demo_posted_def by (rule srv_reachable.step [OF srv_reachable.start srv_step.request])
qed


end
