(* ===== verification/Rest.thy ===== *)
theory Rest
  imports Api_Correct
begin

text \<open>
  What the API promises of its objects, whatever their kind: the contract of a REST resource as a
  locale, met by the handlers of all six kinds; the cascading deletion; and what happens to the
  record of a pod, or of a replica set, that is written twice.
\<close>

section \<open>Metadata of what is stored and of what is answered\<close>

fun stored :: "kind \<Rightarrow> string \<Rightarrow> string \<Rightarrow> ('f, 'b) Server \<Rightarrow> ObjectMeta option" where
  "stored KPod ns n s = map_option pod_Metadata (loadPod ns n s)"
| "stored KService ns n s = map_option svc_Metadata (ServiceStore_Load ns n (srv_services s, srv_db s))"
| "stored KConfigMap ns n s = map_option cm_Metadata (LoadConfigMap ns n (srv_configStore s, srv_db s))"
| "stored KSecret ns n s = map_option sec_Metadata (LoadSecret ns n (srv_configStore s, srv_db s))"
| "stored KDeployment ns n s = map_option dep_Metadata (LoadDeployment ns n (srv_ctl s))"
| "stored KReplicaSet ns n s = map_option rs_Metadata (LoadReplicaSet ns n (srv_ctl s))"

fun object_meta :: "body \<Rightarrow> ObjectMeta option" where
  "object_meta (BPod p) = Some (pod_Metadata p)"
| "object_meta (BService x) = Some (svc_Metadata x)"
| "object_meta (BConfigMap x) = Some (cm_Metadata x)"
| "object_meta (BSecret x) = Some (sec_Metadata x)"
| "object_meta (BDeployment x) = Some (dep_Metadata x)"
| "object_meta (BReplicaSet x) = Some (rs_Metadata x)"
| "object_meta _ = None"

section \<open>The contract of a resource\<close>

locale rest_resource =
  fixes create :: "request \<Rightarrow> 's \<Rightarrow> response \<times> 's"
    and read :: "request \<Rightarrow> 's \<Rightarrow> response \<times> 's"
    and delete :: "request \<Rightarrow> 's \<Rightarrow> response \<times> 's"
    and store :: "string \<Rightarrow> string \<Rightarrow> 's \<Rightarrow> ObjectMeta option"
  assumes create_stores: "create rq s = (rp, s') \<Longrightarrow> rp_code rp = 201 \<Longrightarrow>
      \<exists>m. object_meta (rp_body rp) = Some m \<and> store (om_Namespace m) (om_Name m) s' = Some m"
    and read_found: "store ns n s = Some m \<Longrightarrow> read (at_path ns n rq) s = (rp, s') \<Longrightarrow>
      rp_code rp = 200 \<and> object_meta (rp_body rp) = Some m"
    and read_missing: "store ns n s = None \<Longrightarrow> read (at_path ns n rq) s = (rp, s') \<Longrightarrow> rp_code rp = 404 \<and> s' = s"
    and delete_found: "store ns n s = Some m \<Longrightarrow> om_Namespace m = ns \<Longrightarrow> om_Name m = n \<Longrightarrow>
      delete (at_path ns n rq) s = (rp, s') \<Longrightarrow> rp_code rp = 200 \<and> store ns n s' = None"
    and delete_missing: "store ns n s = None \<Longrightarrow> delete (at_path ns n rq) s = (rp, s') \<Longrightarrow> rp_code rp = 404 \<and> s' = s"
begin

text \<open>An object that was created is found; deleted, it is gone, for readers and for deletions.\<close>

lemma life_of_an_object:
  assumes "create rq s = (rp, s1)" "rp_code rp = 201"
  obtains m where "object_meta (rp_body rp) = Some m"
    "rp_code (fst (read (at_path (om_Namespace m) (om_Name m) rq2) s1)) = 200"
    "object_meta (rp_body (fst (read (at_path (om_Namespace m) (om_Name m) rq2) s1))) = Some m"
    "rp_code (fst (delete (at_path (om_Namespace m) (om_Name m) rq3) s1)) = 200"
    "rp_code (fst (read (at_path (om_Namespace m) (om_Name m) rq2)
       (snd (delete (at_path (om_Namespace m) (om_Name m) rq3) s1)))) = 404"
    "rp_code (fst (delete (at_path (om_Namespace m) (om_Name m) rq3)
       (snd (delete (at_path (om_Namespace m) (om_Name m) rq3) s1)))) = 404"
proof -
  obtain m where m: "object_meta (rp_body rp) = Some m" "store (om_Namespace m) (om_Name m) s1 = Some m"
    using create_stores [OF assms] by blast
  let ?ns = "om_Namespace m" and ?n = "om_Name m"
  obtain rp2 s2 where r: "read (at_path ?ns ?n rq2) s1 = (rp2, s2)" by (meson surj_pair)
  obtain rp3 s3 where d: "delete (at_path ?ns ?n rq3) s1 = (rp3, s3)" by (meson surj_pair)
  obtain rp4 s4 where r2: "read (at_path ?ns ?n rq2) s3 = (rp4, s4)" by (meson surj_pair)
  obtain rp5 s5 where d2: "delete (at_path ?ns ?n rq3) s3 = (rp5, s5)" by (meson surj_pair)
  have gone: "store ?ns ?n s3 = None" "rp_code rp3 = 200" using delete_found [OF m(2) refl refl d] by auto
  show thesis
    by (rule that [OF m(1)])
      (use read_found [OF m(2) r] read_missing [OF gone(1) r2] delete_missing [OF gone(1) d2] gone(2) r d r2 d2
        in simp_all)
qed

end

lemma on_ctl_simps [simp]:
  "srv_ctl (on_ctl g s) = g (srv_ctl s)" "srv_lifecycle (on_ctl g s) = srv_lifecycle s" "srv_pods (on_ctl g s) = srv_pods s"
  by (simp_all add: on_ctl_def Let_def)

lemma on_cfg_simps [simp]: "(srv_configStore (on_cfg g s), srv_db (on_cfg g s)) = g (srv_configStore s, srv_db s)"
  by (simp add: on_cfg_def Let_def)

lemma set_node_port_meta [simp]: "svc_Metadata (set_node_port port svc) = svc_Metadata svc"
  by (simp add: set_node_port_def split: list.splits)

lemma secret_reply_meta [simp]: "sec_Metadata (secret_reply sec) = sec_Metadata sec"
  by (simp add: secret_reply_def)

text \<open>The cascading deletion leaves the deployments and, but for the one at hand, the replica sets.\<close>

lemma cascade_pods_ctl [simp]: "srv_controllerStore (cascade_pods V rs pods s) = srv_controllerStore s"
proof -
  have "srv_controllerStore (snd (DeletePod V ns n s)) = srv_controllerStore s" for ns n and s :: "('a, 'b) Server"
    by (simp add: DeletePod_def deletePod_def Let_def)
  then show ?thesis unfolding cascade_pods_def by (induction pods arbitrary: s) (simp_all add: Let_def)
qed

lemma create_handler_stores:
  assumes "create_handler k A rq s = (rp, s')" "rp_code rp = 201"
  shows "\<exists>m. object_meta (rp_body rp) = Some m \<and> stored k (om_Namespace m) (om_Name m) s' = Some m"
proof (cases k)
  case KPod
  have "pod_Metadata pod1 = pod_Metadata pod" if "Launch E pod t x env lm = ((None, pod1), lm')" for E pod t x env lm pod1 lm'
    using Launch_pod_meta [OF that] .
  then show ?thesis using assms KPod
    by (auto simp: handleCreatePod_def Let_def reply_def writeStatus_def loadPod_def pod_key_def podKey_def
        split: sum.splits prod.splits option.splits)
next
  case KService
  then show ?thesis using assms
    by (auto simp: handleCreateService_def Let_def reply_def writeStatus_def svcs.get_put meta_key_def
        split: sum.splits prod.splits)
next
  case KConfigMap
  then show ?thesis using assms
    by (auto simp: handleCreateConfigMap_def Let_def reply_def writeStatus_def cms.get_put meta_key_def split: sum.splits)
next
  case KSecret
  then show ?thesis using assms
    by (auto simp: handleCreateSecret_def Let_def reply_def writeStatus_def secs.get_put meta_key_def split: sum.splits)
next
  case KDeployment
  then show ?thesis using assms
    by (auto simp: handleCreateDeployment_def Let_def reply_def writeStatus_def deps.get_put meta_key_def split: sum.splits)
next
  case KReplicaSet
  then show ?thesis using assms
    by (auto simp: handleCreateReplicaSet_def Let_def reply_def writeStatus_def rss.get_put meta_key_def split: sum.splits)
qed

lemmas get_handlers_def =
  handleGetPod_def handleGetService_def handleGetConfigMap_def handleGetSecret_def handleGetDeployment_def handleGetReplicaSet_def

lemmas delete_handlers_def =
  handleDeletePod_def handleDeleteService_def handleDeleteConfigMap_def handleDeleteSecret_def
  handleDeleteDeployment_def handleDeleteReplicaSet_def cascadeDeleteReplicaSet_def

interpretation rest: rest_resource "create_handler k A" "get_handler k A" "delete_handler k A" "stored k"
  for k and A :: "('f, 'b) api_env"
proof
  fix rq ns n m rp and s s' :: "('f, 'b) Server"
  show "create_handler k A rq s = (rp, s') \<Longrightarrow> rp_code rp = 201 \<Longrightarrow>
      \<exists>m. object_meta (rp_body rp) = Some m \<and> stored k (om_Namespace m) (om_Name m) s' = Some m"
    by (rule create_handler_stores)
  show "stored k ns n s = Some m \<Longrightarrow> get_handler k A (at_path ns n rq) s = (rp, s') \<Longrightarrow>
      rp_code rp = 200 \<and> object_meta (rp_body rp) = Some m"
    by (cases k) (auto simp: get_handlers_def at_path_def reply_def Let_def split: option.splits)
  show "stored k ns n s = None \<Longrightarrow> get_handler k A (at_path ns n rq) s = (rp, s') \<Longrightarrow> rp_code rp = 404 \<and> s' = s"
    by (cases k) (auto simp: get_handlers_def at_path_def writeStatus_def)
  show "stored k ns n s = None \<Longrightarrow> delete_handler k A (at_path ns n rq) s = (rp, s') \<Longrightarrow> rp_code rp = 404 \<and> s' = s"
    by (cases k) (auto simp: delete_handlers_def at_path_def writeStatus_def)
  show "stored k ns n s = Some m \<Longrightarrow> om_Namespace m = ns \<Longrightarrow> om_Name m = n \<Longrightarrow>
      delete_handler k A (at_path ns n rq) s = (rp, s') \<Longrightarrow> rp_code rp = 200 \<and> stored k ns n s' = None"
    by (cases k) (auto simp: delete_handlers_def at_path_def deleted_def Let_def loadPod_def podKey_def
        svcs.get_del cms.get_del secs.get_del deps.get_del rss.get_del)
qed

section \<open>The cascading deletion\<close>

lemma srv_ok_allPods: "srv_ok s \<Longrightarrow> p \<in> set (allPods ns s) \<longleftrightarrow>
    tlookup (srv_pods s) (pod_key p) = Some p \<and> (ns = [] \<or> pod_ns p = ns)"
proof -
  assume ok: "srv_ok s"
  have "p \<in> snd ` set (srv_pods s) \<longleftrightarrow> (\<exists>k. tlookup (srv_pods s) k = Some p)"
    by (rule tvalues_iff) (use ok in \<open>simp add: srv_ok_def\<close>)
  also have "\<dots> \<longleftrightarrow> tlookup (srv_pods s) (pod_key p) = Some p"
    using ok unfolding srv_ok_def by metis
  finally show ?thesis by (auto simp: allPods_def)
qed

definition pods_of_rs :: "ReplicaSet \<Rightarrow> Pod \<Rightarrow> bool" where
  "pods_of_rs rs p \<longleftrightarrow> owned_by (''ReplicaSet/'' @ om_Name (rs_Metadata rs)) (om_Annotations (pod_Metadata p))"

definition rs_of_dep :: "string \<Rightarrow> ReplicaSet \<Rightarrow> bool" where
  "rs_of_dep n rs \<longleftrightarrow> owned_by (''Deployment/'' @ n) (om_Annotations (rs_Metadata rs))"

lemma cascade_pods_lookup:
  "tlookup (srv_pods (cascade_pods V rs pods s)) k =
     (if \<exists>p \<in> set pods. pods_of_rs rs p \<and> pod_key p = k then None else tlookup (srv_pods s) k)"
  unfolding cascade_pods_def
  by (induction pods arbitrary: s)
    (auto simp: Let_def DeletePod_def pods_of_rs_def pod_key_def)

lemma cascade_rs_lookup:
  assumes "srv_ok s" "rs_ns rs \<noteq> []"
  shows "tlookup (srv_pods (cascadeDeleteReplicaSet V rs s)) k = Some p \<longleftrightarrow>
      tlookup (srv_pods s) k = Some p \<and> \<not> (pod_ns p = rs_ns rs \<and> pods_of_rs rs p)"
proof -
  have k: "k = pod_key p" if "tlookup (srv_pods s) k = Some p" using assms(1) that by (auto simp: srv_ok_def)
  show ?thesis using assms(2) k
    by (auto simp: cascadeDeleteReplicaSet_def cascade_pods_lookup srv_ok_allPods [OF assms(1)])
qed

lemma cascade_rs_ctl:
  "LoadReplicaSet ns n (srv_ctl (cascadeDeleteReplicaSet V rs s)) =
     (if obj_key ns n = meta_key (rs_Metadata rs) then None else LoadReplicaSet ns n (srv_ctl s))"
  by (simp add: cascadeDeleteReplicaSet_def rss.get_del meta_key_def) (simp add: LoadReplicaSet_def)

lemma cascade_rs_wf:
  "kv_wf rs_Metadata (rs_kv (srv_ctl s)) \<Longrightarrow> kv_wf rs_Metadata (rs_kv (srv_ctl (cascadeDeleteReplicaSet V rs s)))"
  unfolding cascadeDeleteReplicaSet_def on_ctl_simps
  by (rule rss.invar_del) (simp add: rs_kv_def kv_wf_def)

lemma cascade_rss_lookup:
  assumes "srv_ok s" "\<forall>rs \<in> set rss. rs_ns rs \<noteq> []"
  shows "tlookup (srv_pods (cascade_rss V n rss s)) k = Some p \<longleftrightarrow> tlookup (srv_pods s) k = Some p \<and>
      \<not> (\<exists>rs \<in> set rss. rs_of_dep n rs \<and> pod_ns p = rs_ns rs \<and> pods_of_rs rs p)"
  using assms unfolding cascade_rss_def
  by (induction rss arbitrary: s) (auto simp: rs_of_dep_def cascade_rs_lookup keeps_ok)

lemma cascade_rss_ctl:
  "LoadReplicaSet ns m (srv_ctl (cascade_rss V n rss s)) =
     (if \<exists>rs \<in> set rss. rs_of_dep n rs \<and> obj_key ns m = meta_key (rs_Metadata rs) then None
      else LoadReplicaSet ns m (srv_ctl s))"
  unfolding cascade_rss_def
  by (induction rss arbitrary: s) (auto simp: rs_of_dep_def cascade_rs_ctl)

lemma cascade_rss_wf:
  "kv_wf rs_Metadata (rs_kv (srv_ctl s)) \<Longrightarrow> kv_wf rs_Metadata (rs_kv (srv_ctl (cascade_rss V n rss s)))"
  unfolding cascade_rss_def by (induction rss arbitrary: s) (auto intro: cascade_rs_wf)

lemma DeleteDeployment_rs:
  "LoadReplicaSet ns m (DeleteDeployment G ns' n x) = LoadReplicaSet ns m x"
  "ListReplicaSets ns (DeleteDeployment G ns' n x) = ListReplicaSets ns x"
  by (simp_all add: DeleteDeployment_def LoadReplicaSet_def ListReplicaSets_def Let_def)

lemma LoadReplicaSet_key: "obj_key ns n = obj_key ns' n' \<Longrightarrow> LoadReplicaSet ns n x = LoadReplicaSet ns' n' x"
  by (simp add: LoadReplicaSet_def obj_key_def)

lemma cascade_rss_list:
  assumes "kv_wf rs_Metadata (rs_kv (srv_ctl s))"
  shows "set (ListReplicaSets ns (srv_ctl (cascade_rss V n (ListReplicaSets ns (srv_ctl s)) s))) =
     {rs \<in> set (ListReplicaSets ns (srv_ctl s)). \<not> rs_of_dep n rs}"
proof -
  let ?L = "ListReplicaSets ns (srv_ctl s)"
  note i = rss.lst_iff [OF assms] and i' = rss.lst_iff [OF cascade_rss_wf [OF assms]]
  have u: "rs = rs'" if "rs \<in> set ?L" "rs' \<in> set ?L" "meta_key (rs_Metadata rs) = meta_key (rs_Metadata rs')" for rs rs'
    using that LoadReplicaSet_key [of "om_Namespace (rs_Metadata rs)" "om_Name (rs_Metadata rs)"
        "om_Namespace (rs_Metadata rs')" "om_Name (rs_Metadata rs')" "srv_ctl s"]
    unfolding i by (simp add: meta_key_def)
  have "rs \<in> set (ListReplicaSets ns (srv_ctl (cascade_rss V n ?L s))) \<longleftrightarrow>
      rs \<in> set ?L \<and> \<not> (\<exists>rs' \<in> set ?L. rs_of_dep n rs' \<and> meta_key (rs_Metadata rs) = meta_key (rs_Metadata rs'))" for rs
    unfolding i' cascade_rss_ctl by (simp add: i meta_key_def [symmetric])
  then show ?thesis using u by blast
qed

section \<open>Properties\<close>

text \<open>The paths of a collection and of an item of each kind.\<close>

fun plural :: "kind \<Rightarrow> string" where
  "plural KPod = ''pods''"
| "plural KService = ''services''"
| "plural KConfigMap = ''configmaps''"
| "plural KSecret = ''secrets''"
| "plural KDeployment = ''deployments''"
| "plural KReplicaSet = ''replicasets''"

definition api_root :: "kind \<Rightarrow> string list" where
  "api_root k = (if k = KDeployment \<or> k = KReplicaSet then [''apis'', ''apps'', ''v1''] else [''api'', ''v1''])"

definition collection :: "kind \<Rightarrow> string \<Rightarrow> string list" where
  "collection k ns = api_root k @ [''namespaces'', ns, plural k]"

definition item :: "kind \<Rightarrow> string \<Rightarrow> string \<Rightarrow> string list" where
  "item k ns n = collection k ns @ [n]"

lemma route_of_paths:
  "route_of ''POST'' (collection k ns) = RCreate k ns" "route_of ''GET'' (collection k ns) = RList k ns"
  "n \<noteq> [] \<Longrightarrow> route_of ''GET'' (item k ns n) = RGet k ns n"
  "n \<noteq> [] \<Longrightarrow> route_of ''DELETE'' (item k ns n) = RDelete k ns n"
  by (cases k; simp add: collection_def item_def api_root_def route_of_def api_route_def apis_route_def
      collection_route_def item_route_def core_kind_def apps_kind_def is_GET_def)+


definition demo_B :: "(unit, mem_db) api_env" where
  "demo_B = demo_A\<lparr>ae_yaml_Service := (\<lambda>b. Inr (web_svc\<lparr>svc_Spec := (svc_Spec web_svc)\<lparr>ss_Selector := None\<rparr>\<rparr>)),
     ae_yaml_ConfigMap := (\<lambda>b. Inr (zero_ConfigMap\<lparr>cm_Metadata := zero_ObjectMeta\<lparr>om_Name := ''web''\<rparr>\<rparr>))\<rparr>"


text \<open>C5: Deleting a deployment cascades exactly.  Of the replica sets of its namespace those
  that name it as their owner go and no others; of the pods of the namespace those that name one of
  these replica sets as their owner go and no others; and no pod is left running that is not
  stored any more.\<close>

theorem cascading_delete:
  assumes "srv_ok s" "kv_wf rs_Metadata (rs_kv (srv_ctl s))" "ns \<noteq> []" "LoadDeployment ns n (srv_ctl s) \<noteq> None"
    and "handleDeleteDeployment A (at_path ns n rq) s = (rp, s')"
  shows "rp_code rp = 200 \<and> LoadDeployment ns n (srv_ctl s') = None \<and>
    set (ListReplicaSets ns (srv_ctl s')) = {rs \<in> set (ListReplicaSets ns (srv_ctl s)). \<not> rs_of_dep n rs} \<and>
    set (allPods ns s') = {p \<in> set (allPods ns s).
      \<not> (\<exists>rs \<in> set (ListReplicaSets ns (srv_ctl s)). rs_of_dep n rs \<and> pods_of_rs rs p)} \<and>
    (load_pod (srv_lifecycle s') (podKey ns m) \<noteq> None \<longrightarrow> loadPod ns m s' \<noteq> None)"
proof -
  let ?rss = "ListReplicaSets ns (srv_ctl s)"
  let ?s = "cascade_rss (ae_srv A) n ?rss s"
  have s': "rp_code rp = 200" "s' = on_ctl (DeleteDeployment (stg A) ns n) ?s"
    using assms(4,5) by (auto simp: handleDeleteDeployment_def at_path_def deleted_def)
  have ns: "rs_ns rs = ns" if "rs \<in> set ?rss" for rs using that assms(3) by (simp add: ListReplicaSets_def)
  have pods: "srv_pods s' = srv_pods ?s" by (simp add: s'(2))
  have ok: "srv_ok ?s" "srv_ok s'" using assms(1) by (simp_all add: s' keeps_ok)
  have "p \<in> set (allPods ns s') \<longleftrightarrow> p \<in> set (allPods ns s) \<and>
      \<not> (\<exists>rs \<in> set ?rss. rs_of_dep n rs \<and> pods_of_rs rs p)" for p
    using ns assms(3)
    by (auto simp: srv_ok_allPods [OF ok(2)] srv_ok_allPods [OF assms(1)] pods cascade_rss_lookup [OF assms(1)])
  then have "set (allPods ns s') = {p \<in> set (allPods ns s). \<not> (\<exists>rs \<in> set ?rss. rs_of_dep n rs \<and> pods_of_rs rs p)}"
    by blast
  moreover have "loadPod ns m s' \<noteq> None" if "load_pod (srv_lifecycle s') (podKey ns m) \<noteq> None"
    using ok(2) that by (auto simp: srv_ok_def load_pod_def loadPod_def podKey_def split: option.splits)
  ultimately show ?thesis
    using s'(1) cascade_rss_list [OF assms(2)] by (simp add: s'(2) deps.get_del DeleteDeployment_rs)
qed

definition demo_cascade :: "(unit, mem_db) Server" where
  "demo_cascade = demo_server
     \<lparr>srv_controllerStore := \<lparr>ctl_deployments = [(''default/web'', demo_dep 1)],
        ctl_replicaSets = [(''default/web-1'', demo_rs ''web-1'' ''1'' 1 1)]\<rparr>,
      srv_pods := [(''default/web-1-x'', zero_Pod\<lparr>pod_Metadata := zero_ObjectMeta\<lparr>om_Name := ''web-1-x'',
        om_Namespace := ''default'', om_Annotations := Some [(''lok8s.io/owner'', ''ReplicaSet/web-1'')]\<rparr>\<rparr>)]\<rparr>"

theorem cascading_delete_witness:
  "length (allPods ''default'' demo_cascade) = 1 \<and>
   allPods ''default'' (snd (handleDeleteDeployment demo_A (at_path ''default'' ''web'' demo_rq) demo_cascade)) = []"
proof -
  obtain rp s' where d: "handleDeleteDeployment demo_A (at_path ''default'' ''web'' demo_rq) demo_cascade = (rp, s')"
    by (meson surj_pair)
  have ok: "srv_ok demo_cascade"
    using lm_tab_new
    by (simp add: srv_ok_def demo_cascade_def demo_server_def NewServer_def new_daemon_def pod_key_def podKey_def tdistinct_def)
      (simp add: NewLifecycleManager_def)
  have wf: "kv_wf rs_Metadata (rs_kv (srv_ctl demo_cascade))"
    by (simp add: kv_wf_def rs_kv_def demo_cascade_def demo_rs_def meta_key_def obj_key_def tdistinct_def)
  have dep: "LoadDeployment ''default'' ''web'' (srv_ctl demo_cascade) \<noteq> None"
    by (simp add: LoadDeployment_def demo_cascade_def)
  have "set (allPods ''default'' s') = {}"
    using cascading_delete [OF ok wf _ dep d]
    by (auto simp: demo_cascade_def allPods_def ListReplicaSets_def rs_of_dep_def pods_of_rs_def demo_rs_def owned_by_def mget_def mlookup_def)
  then show ?thesis by (simp add: d) (simp add: demo_cascade_def allPods_def)
qed

text \<open>C30: Posting the manifest of a pod that already runs spoils its record.  The request is answered
  with 500 and the pod runs on, but the stored record now is a failed pod with a new UID; unless
  it is read before, the next start of the daemon does not recover it.\<close>

theorem repeated_post_spoils_record:
  assumes "rq_body rq = Inr body" "Parse (snd (sg_Pod (stg A))) (ae_yaml_Pod A) body = Inr pod"
    and "om_Namespace (pod_Metadata pod) = [] \<or> om_Namespace (pod_Metadata pod) = rq_ns rq" "om_Name (pod_Metadata pod) = n"
    and "ExtractEngineConfig (\<lambda>p. h_Stat (se_host (ae_srv A)) p (srv_os s))
      (pod\<lparr>pod_Metadata := stamp A rq s (pod_Metadata pod), pod_TypeMeta := \<lparr>tm_APIVersion = ''v1'', tm_Kind = ''Pod''\<rparr>\<rparr>) = Inr (e, t)"
    and "load_pod (srv_lifecycle s) (podKey (rq_ns rq) n) = Some am"
    and "handleCreatePod A rq s = (rp, s')"
  shows "rp_code rp = 500 \<and> srv_lifecycle s' = srv_lifecycle s \<and>
    (\<exists>p. loadPod (rq_ns rq) n s' = Some p \<and> st_Phase (pod_Status p) = PodFailed \<and> om_UID (pod_Metadata p) = rq_uuid rq \<and>
       recover_pod (ae_srv A) p s0 = s0)"
proof -
  define p where "p = pending_pod (ae_srv A) s (pod\<lparr>pod_Metadata := stamp A rq s (pod_Metadata pod),
      pod_TypeMeta := \<lparr>tm_APIVersion = ''v1'', tm_Kind = ''Pod''\<rparr>\<rparr>)"
  have k: "pod_key p = podKey (rq_ns rq) n" and u: "om_UID (pod_Metadata p) = rq_uuid rq"
    using assms(3,4) by (auto simp: p_def pod_key_def stamp_def)
  have "tlookup (lm_pods (srv_lifecycle s)) (pod_key p) \<noteq> None"
    using assms(6) k by (auto simp: load_pod_def split: option.splits)
  then have l: "Launch E p e t env (srv_lifecycle s) = ((Some (EAlreadyManaged (pod_key p)), p), srv_lifecycle s)" for E env
    by (simp add: Launch_def)
  let ?f = "failed_pod (ae_srv A) (EAlreadyManaged (pod_key p)) p"
  have s': "rp_code rp = 500" "s' = storePod (ae_srv A) ?f s"
    using assms(1,2,5,7) by (simp_all add: p_def l [unfolded p_def] handleCreatePod_def Let_def writeStatus_def) auto
  have "pod_key ?f = podKey (rq_ns rq) n" using k by (simp add: pod_key_def)
  then have "loadPod (rq_ns rq) n s' = Some ?f" by (simp add: s'(2) loadPod_def podKey_def)
  then show ?thesis using s' u by (simp add: recover_pod_def PodFailed_def PodRunning_def PodPending_def)
qed

theorem repeated_post_spoils_record_witness:
  "load_pod (srv_lifecycle demo_posted) ''default/web'' \<noteq> None \<and>
   (\<exists>p. loadPod ''default'' ''web'' (snd (handleCreatePod demo_A (at_path ''default'' [] demo_rq) demo_posted)) = Some p \<and>
      st_Phase (pod_Status p) = PodFailed)"
proof -
  obtain rp s' where c: "handleCreatePod demo_A (at_path ''default'' [] demo_rq) demo_posted = (rp, s')" by (meson surj_pair)
  obtain am where m: "load_pod (srv_lifecycle demo_posted) (podKey ''default'' ''web'') = Some am"
    using demo_posted_managed by (auto simp: podKey_def)
  have "\<exists>p. loadPod ''default'' ''web'' s' = Some p \<and> st_Phase (pod_Status p) = PodFailed"
    using repeated_post_spoils_record [OF _ _ _ _ _ _ c, of "''pod''" posted_pod "''web''" "''native''" "''app''"] m
    by (fastforce simp: at_path_def demo_rq_def Parse_def parse_with_def demo_A_def posted_pod_def zero_ObjectMeta_def
      ExtractEngineConfig_def mlookup_def AnnotationExecutablePath_def AnnotationWasmModule_def EngineNative_def stamp_def)
  then show ?thesis using m c by (simp add: podKey_def)
qed

text \<open>C31: A changed service is stored but not served.  When the service has a proxy already, a POST
  of it with another selector is answered with 201 and found by a GET, but its proxy goes on with the
  service as it was first posted: the pods the old selector picks stay its backends.\<close>

theorem updated_service_not_served:
  assumes "rq_body rq = Inr body" "ParseService (snd (sg_Service (stg A))) (ae_yaml_Service A) body = Inr svc"
    and "om_Namespace (svc_Metadata svc) = [] \<or> om_Namespace (svc_Metadata svc) = rq_ns rq"
    and "tlookup (pm_proxies (srv_proxyManager s)) (obj_key (rq_ns rq) (om_Name (svc_Metadata svc))) = Some sp"
    and "handleCreateService A rq s = (rp, s')"
  shows "rp_code rp = 201 \<and> srv_proxyManager s' = srv_proxyManager s \<and>
    (\<exists>svc'. ServiceStore_Load (rq_ns rq) (om_Name (svc_Metadata svc)) (srv_services s', srv_db s') = Some svc' \<and>
       ss_Selector (svc_Spec svc') = ss_Selector (svc_Spec svc)) \<and>
    (\<exists>sp'. tlookup (pm_proxies (srv_proxyManager s')) (obj_key (rq_ns rq) (om_Name (svc_Metadata svc))) = Some sp' \<and>
       getBackends pods sp' = getBackends pods sp)"
proof -
  define svc1 where "svc1 = svc\<lparr>svc_Metadata := stamp A rq s (svc_Metadata svc),
      svc_TypeMeta := \<lparr>tm_APIVersion = ''v1'', tm_Kind = ''Service''\<rparr>\<rparr>"
  have k: "svc_key svc1 = obj_key (rq_ns rq) (om_Name (svc_Metadata svc))" "om_Namespace (svc_Metadata svc1) = rq_ns rq"
      "om_Name (svc_Metadata svc1) = om_Name (svc_Metadata svc)" "svc_Spec svc1 = svc_Spec svc"
    using assms(3) by (auto simp: svc1_def svc_key_def stamp_def obj_key_def)
  have px: "on_proxies (StartProxy H svc1) s = (Inr (spx_port sp), s)" for H
    using assms(4) by (simp add: on_proxies_def StartProxy_def Let_def k)
  let ?svc = "set_node_port (spx_port sp) svc1"
  let ?st = "ServiceStore_Store (stg A) ?svc (srv_services s, srv_db s)"
  have s': "rp_code rp = 201" "s' = s\<lparr>srv_services := fst ?st, srv_db := snd ?st\<rparr>"
    using assms(1,2,5) px unfolding svc1_def by (auto simp: handleCreateService_def Let_def reply_def)
  have "ServiceStore_Load (rq_ns rq) (om_Name (svc_Metadata svc)) ?st = Some ?svc"
    using svcs.get_own [of ?svc "stg A" "(srv_services s, srv_db s)"] k by simp
  moreover have "ss_Selector (svc_Spec ?svc) = ss_Selector (svc_Spec svc)"
    by (simp add: set_node_port_def k split: list.splits)
  ultimately show ?thesis using s' assms(4) by simp
qed

theorem updated_service_not_served_witness:
  "let s = demo_server\<lparr>srv_proxyManager := \<lparr>pm_proxies = [(''default/web'', NewServiceProxy web_svc)]\<rparr>\<rparr>;
       s' = snd (handleCreateService demo_B (at_path ''default'' [] demo_rq) s)
   in map_option (\<lambda>sp. getBackends [web_pod ''a'' 30000, web_pod ''b'' 30001] sp)
        (tlookup (pm_proxies (srv_proxyManager s')) ''default/web'') = Some [30000, 30001]"
proof -
  let ?s = "demo_server\<lparr>srv_proxyManager := \<lparr>pm_proxies = [(''default/web'', NewServiceProxy web_svc)]\<rparr>\<rparr>"
  obtain rp s' where c: "handleCreateService demo_B (at_path ''default'' [] demo_rq) ?s = (rp, s')" by (meson surj_pair)
  obtain sp' where "tlookup (pm_proxies (srv_proxyManager s')) ''default/web'' = Some sp'"
      "getBackends [web_pod ''a'' 30000, web_pod ''b'' 30001] sp' =
       getBackends [web_pod ''a'' 30000, web_pod ''b'' 30001] (NewServiceProxy web_svc)"
    using updated_service_not_served [OF _ _ _ _ c, of "''pod''" "web_svc\<lparr>svc_Spec := (svc_Spec web_svc)\<lparr>ss_Selector := None\<rparr>\<rparr>"
      "NewServiceProxy web_svc" "[web_pod ''a'' 30000, web_pod ''b'' 30001]"]
    by (auto simp: at_path_def demo_rq_def ParseService_def parse_with_def demo_B_def web_svc_def obj_key_def)
  then show ?thesis using web_backends by (simp add: c)
qed

text \<open>C32: A deletion can be undone by the controller.  When a replica set is deleted after the
  controller has listed it and before it reconciles it, the reconciliation stores it again, so that
  the next ones bring its pods back.\<close>

theorem deletion_undone_by_controller:
  assumes "LoadReplicaSet (rs_ns rs) (om_Name (rs_Metadata rs)) (srv_ctl s0) = Some rs"
    and "handleDeleteReplicaSet A (at_path (rs_ns rs) (om_Name (rs_Metadata rs)) rq) s0 = (rp, s1)"
    and "RS_Reconcile (srv_pod_manager (ae_srv A)) (srv_StoreReplicaSet (ae_srv A)) draw rs s1 = (None, s2)"
  shows "rp_code rp = 200 \<and> LoadReplicaSet (rs_ns rs) (om_Name (rs_Metadata rs)) (srv_ctl s1) = None \<and>
    (\<exists>rs'. LoadReplicaSet (rs_ns rs) (om_Name (rs_Metadata rs)) (srv_ctl s2) = Some rs' \<and>
       rs_Spec rs' = rs_Spec rs \<and> rs_Metadata rs' = rs_Metadata rs)"
proof -
  have s1: "rp_code rp = 200" "s1 = cascadeDeleteReplicaSet (ae_srv A) rs s0"
    using assms(1,2) by (auto simp: handleDeleteReplicaSet_def at_path_def deleted_def)
  obtain n r s where s2: "s2 = srv_StoreReplicaSet (ae_srv A) (rs_with_status n r rs) s"
    using assms(3) unfolding RS_Reconcile_def Let_def scan_pods_start prod.case
    by (auto split: if_splits prod.splits option.splits)
  have m: "rs_Metadata (rs_with_status n r rs) = rs_Metadata rs" "rs_Spec (rs_with_status n r rs) = rs_Spec rs"
    by (simp_all add: rs_with_status_def)
  have "LoadReplicaSet (rs_ns rs) (om_Name (rs_Metadata rs)) (srv_ctl s2) = Some (rs_with_status n r rs)"
    by (simp add: s2 srv_StoreReplicaSet_def rss.get_put meta_key_def m)
  then show ?thesis using s1 m by (simp add: cascade_rs_ctl meta_key_def)
qed

definition no_replica :: ReplicaSet where
  "no_replica = one_replica\<lparr>rs_Spec := (rs_Spec one_replica)\<lparr>rss_Replicas := Some 0\<rparr>\<rparr>"

theorem deletion_undone_by_controller_witness:
  "let s0 = demo_server\<lparr>srv_controllerStore := \<lparr>ctl_deployments = [], ctl_replicaSets = [(''default/web'', no_replica)]\<rparr>\<rparr>;
       s1 = snd (handleDeleteReplicaSet demo_A (at_path ''default'' ''web'' demo_rq) s0);
       s2 = snd (RS_Reconcile (srv_pod_manager demo_V) (srv_StoreReplicaSet demo_V) demo_draw no_replica s1)
   in LoadReplicaSet ''default'' ''web'' (srv_ctl s1) = None \<and> LoadReplicaSet ''default'' ''web'' (srv_ctl s2) \<noteq> None"
proof -
  let ?s0 = "demo_server\<lparr>srv_controllerStore := \<lparr>ctl_deployments = [], ctl_replicaSets = [(''default/web'', no_replica)]\<rparr>\<rparr>"
  have rs: "rs_ns no_replica = ''default''" "om_Name (rs_Metadata no_replica) = ''web''" "rs_desired no_replica = 0"
    by (simp_all add: no_replica_def one_replica_def rs_desired_def)
  obtain rp s1 where d: "handleDeleteReplicaSet demo_A (at_path ''default'' ''web'' demo_rq) ?s0 = (rp, s1)" by (meson surj_pair)
  have l: "LoadReplicaSet ''default'' ''web'' (srv_ctl ?s0) = Some no_replica" by (simp add: LoadReplicaSet_def)
  have "srv_pods ?s0 = []" by (simp add: demo_server_def NewServer_def kv_load_def)
  then have "srv_pods s1 = []"
    using d by (auto simp: handleDeleteReplicaSet_def at_path_def LoadReplicaSet_def cascadeDeleteReplicaSet_def allPods_def cascade_pods_def)
  then have none: "fst (RS_Reconcile (srv_pod_manager demo_V) (srv_StoreReplicaSet demo_V) demo_draw no_replica s1) = None"
    by (simp add: RS_Reconcile_def scan_pods_start srv_pod_manager_def ListPods_def allPods_def rs Let_def in32_def)
  obtain s2 where r: "RS_Reconcile (srv_pod_manager demo_V) (srv_StoreReplicaSet demo_V) demo_draw no_replica s1 = (None, s2)"
    using none by (metis prod.collapse)
  have V: "ae_srv demo_A = demo_V" by (simp add: demo_A_def)
  show ?thesis
    using deletion_undone_by_controller [of no_replica ?s0 demo_A demo_rq rp s1 demo_draw s2] l d r
    unfolding rs V Let_def by auto
qed

end
