(* ===== verification/Cli.thy ===== *)
theory Cli
  imports Api
begin

text \<open>
  The program \<open>lok8s\<close> of \<open>main.go\<close>: the choice between daemon and client, the start and the stop
  of the daemon, and the client's commands \<open>apply\<close>, \<open>get\<close>, \<open>delete\<close> and \<open>logs\<close>.

  A command is a function that gives what it prints, its exit status and the world after it.  The
  HTTP client, the file system, the YAML and JSON decoders and the quoting of \<open>%q\<close> are given; the
  requests a command sends act on the world \<open>'s\<close>, which holds the server.
\<close>

section \<open>What the client is given\<close>

record rawMetadata =
  rmd_Name :: string
  rmd_Namespace :: string

record rawManifest =
  rm_APIVersion :: string
  rm_Kind :: string
  rm_Metadata :: rawMetadata

record http_req =
  hr_method :: string
  hr_url :: string
  hr_accept :: string
  hr_body :: bytes

text \<open>A response: its code, the bytes that can be read and the error reading ends with, if any.\<close>

record http_resp =
  hp_code :: int
  hp_body :: bytes
  hp_err :: "goerror option"

record ('s, 'm) cli_env =
  ce_Do :: "http_req \<Rightarrow> 's \<Rightarrow> (goerror + http_resp) \<times> 's"
  ce_NewRequest :: "string \<Rightarrow> goerror option"
  ce_ReadFile :: "string \<Rightarrow> goerror + bytes"
  ce_yaml_raw :: "bytes \<Rightarrow> goerror + rawManifest"
  ce_yaml_map :: "bytes \<Rightarrow> goerror + 'm"
  ce_json_map :: "'m \<Rightarrow> goerror + bytes"
  ce_status_message :: "bytes \<Rightarrow> string"
  ce_json_Table :: "bytes \<Rightarrow> goerror + Table"
  ce_json_PodList :: "bytes \<Rightarrow> goerror + PodList"
  ce_Indent :: "bytes \<Rightarrow> goerror + bytes"
  ce_Error :: "goerror \<Rightarrow> string"
  ce_quote :: "string \<Rightarrow> string"
  ce_upper :: "string \<Rightarrow> string"
  ce_lower :: "string \<Rightarrow> string"

type_synonym 's outcome = "string \<times> int \<times> 's"

definition newline :: string where
  "newline = [CHR 0x0A]"

definition println :: "string \<Rightarrow> string" where
  "println s = s @ newline"

definition GET_req :: "string \<Rightarrow> http_req" where
  "GET_req url = \<lparr>hr_method = ''GET'', hr_url = url, hr_accept = [], hr_body = []\<rparr>"

text \<open>The message of a status response, or the body when it has none.\<close>

definition error_message :: "('s, 'm) cli_env \<Rightarrow> http_resp \<Rightarrow> string" where
  "error_message C resp =
     (let msg = ce_status_message C (hp_body resp) in if msg = [] then hp_body resp else msg)"

definition with_status_code :: "string \<Rightarrow> int \<Rightarrow> string" where
  "with_status_code text code = println (text @ '' (Status: '' @ itoa code @ '')'')"

section \<open>Endpoints and documents\<close>

definition getEndpoint :: "(string \<Rightarrow> string) \<Rightarrow> string \<Rightarrow> string \<Rightarrow> string \<Rightarrow> string \<Rightarrow> goerror + string" where
  "getEndpoint lower serverAddr namespace kind name =
     (let kind = ToLower lower kind;
          endpoint = (\<lambda>root resource.
            serverAddr @ root @ ''/namespaces/'' @ namespace @ ''/'' @ resource @
            (if name \<noteq> [] then ''/'' @ name else []))
      in if kind \<in> {''pod'', ''pods'', ''po''} then Inr (endpoint ''/api/v1'' ''pods'')
         else if kind \<in> {''service'', ''services'', ''svc''} then Inr (endpoint ''/api/v1'' ''services'')
         else if kind \<in> {''configmap'', ''configmaps'', ''cm''} then Inr (endpoint ''/api/v1'' ''configmaps'')
         else if kind \<in> {''secret'', ''secrets''} then Inr (endpoint ''/api/v1'' ''secrets'')
         else if kind \<in> {''deployment'', ''deployments'', ''deploy''} then Inr (endpoint ''/apis/apps/v1'' ''deployments'')
         else if kind \<in> {''replicaset'', ''replicasets'', ''rs''} then Inr (endpoint ''/apis/apps/v1'' ''replicasets'')
         else Inl (EUnknownKind kind))"

definition splitYAML :: "bytes \<Rightarrow> bytes list" where
  "splitYAML data =
     filter (\<lambda>part. part \<noteq> []) (map TrimSpace (split_str (newline @ ''---'') data))"

section \<open>Apply\<close>

fun file_flag :: "string list \<Rightarrow> string" where
  "file_flag [] = []"
| "file_flag (arg # rest) =
     (if arg = ''-f'' \<or> arg = ''--file'' then (case rest of [] \<Rightarrow> [] | filePath # _ \<Rightarrow> filePath)
      else if HasPrefix arg ''-f='' then TrimPrefix arg ''-f=''
      else if HasPrefix arg ''--file='' then TrimPrefix arg ''--file=''
      else file_flag rest)"

definition apply_doc :: "('s, 'm) cli_env \<Rightarrow> string \<Rightarrow> string \<Rightarrow> bytes \<Rightarrow> 's \<Rightarrow> string \<times> 's" where
  "apply_doc C serverAddr namespace doc s =
     (case ce_yaml_raw C doc of
        Inl err \<Rightarrow> (println (''Error parsing manifest: '' @ ce_Error C err), s)
      | Inr raw \<Rightarrow>
          if rm_APIVersion raw = [] \<or> rm_Kind raw = [] \<or> rmd_Name (rm_Metadata raw) = [] then
            (println ''Error: manifest missing apiVersion, kind, or metadata.name'', s)
          else
            let ns = (if rmd_Namespace (rm_Metadata raw) \<noteq> [] then rmd_Namespace (rm_Metadata raw) else namespace);
                object = ToLower (ce_lower C) (rm_Kind raw) @ ''/'' @ rmd_Name (rm_Metadata raw)
            in case ce_yaml_map C doc of
                 Inl err \<Rightarrow> (println (''Error parsing manifest to map: '' @ ce_Error C err), s)
               | Inr m \<Rightarrow>
                   (case ce_json_map C m of
                      Inl err \<Rightarrow> (println (''Error converting manifest to JSON: '' @ ce_Error C err), s)
                    | Inr jsonData \<Rightarrow>
                        (case getEndpoint (ce_lower C) serverAddr ns (rm_Kind raw) [] of
                           Inl err \<Rightarrow> (println (''Error: '' @ ce_Error C err), s)
                         | Inr url \<Rightarrow>
                             (case ce_Do C \<lparr>hr_method = ''POST'', hr_url = url, hr_accept = [], hr_body = jsonData\<rparr> s of
                                (Inl err, s1) \<Rightarrow> (println (''Error connecting to server: '' @ ce_Error C err), s1)
                              | (Inr resp, s1) \<Rightarrow>
                                  if hp_code resp = 201 \<or> hp_code resp = 200
                                  then (println (object @ '' created/configured''), s1)
                                  else (with_status_code (''Error applying '' @ object @ '': '' @ error_message C resp)
                                          (hp_code resp), s1)))))"

fun apply_docs :: "('s, 'm) cli_env \<Rightarrow> string \<Rightarrow> string \<Rightarrow> bytes list \<Rightarrow> 's \<Rightarrow> string \<times> 's" where
  "apply_docs C serverAddr namespace [] s = ([], s)"
| "apply_docs C serverAddr namespace (doc # docs) s =
     (let (out, s1) = apply_doc C serverAddr namespace doc s;
          (out', s2) = apply_docs C serverAddr namespace docs s1
      in (out @ out', s2))"

definition handleApply :: "('s, 'm) cli_env \<Rightarrow> string \<Rightarrow> string \<Rightarrow> string list \<Rightarrow> 's \<Rightarrow> 's outcome" where
  "handleApply C serverAddr namespace args s =
     (if args = [] \<or> file_flag args = [] then
        (println ''Error: apply requires a file flag, e.g. -f <path>'', 1, s)
      else case ce_ReadFile C (file_flag args) of
             Inl err \<Rightarrow> (println (''Error reading file '' @ ce_quote C (file_flag args) @ '': '' @ ce_Error C err), 1, s)
           | Inr data \<Rightarrow>
               let (out, s1) = apply_docs C serverAddr namespace (splitYAML data) s in (out, 0, s1))"

section \<open>Get\<close>

fun cell_str :: "cell \<Rightarrow> string" where
  "cell_str (CStr s) = s"
| "cell_str (CInt n) = itoa n"

text \<open>
  The printing of a table.  \<open>%-*s\<close> fills up to a number of characters, which in UTF-8 are the
  bytes that do not continue one; the widths are computed in bytes.  The first index out of range
  is a panic, in the loop that computes the widths; after it all indices are in range.
\<close>

definition rune_count :: "string \<Rightarrow> nat" where
  "rune_count s = length (filter (\<lambda>c. \<not> (128 \<le> (of_char c :: nat) \<and> (of_char c :: nat) < 192)) s)"

definition pad :: "nat \<Rightarrow> string \<Rightarrow> string" where
  "pad width s = s @ replicate (width - rune_count s) (CHR '' '')"

fun widen_row :: "string list \<Rightarrow> nat \<Rightarrow> nat list \<Rightarrow> goerror + nat list" where
  "widen_row [] i widths = Inr widths"
| "widen_row (cellStr # cells) i widths =
     (if i < length widths
      then widen_row cells (Suc i) (if length cellStr > widths ! i then widths[i := length cellStr] else widths)
      else Inl (EPanicIndex (int i) (length widths)))"

fun widen_rows :: "string list list \<Rightarrow> nat list \<Rightarrow> goerror + nat list" where
  "widen_rows [] widths = Inr widths"
| "widen_rows (row # rows) widths =
     (case widen_row row 0 widths of Inl e \<Rightarrow> Inl e | Inr widths1 \<Rightarrow> widen_rows rows widths1)"

fun print_cells :: "nat list \<Rightarrow> nat \<Rightarrow> string list \<Rightarrow> string" where
  "print_cells widths i [] = newline"
| "print_cells widths i (c # cs) = pad (widths ! i) c @ ''   '' @ print_cells widths (Suc i) cs"

definition print_table :: "(string \<Rightarrow> string) \<Rightarrow> Table \<Rightarrow> goerror + string list" where
  "print_table upper table =
     (let cols = tbl_ColumnDefinitions table; rows = map (\<lambda>row. map cell_str (tr_Cells row)) (tbl_Rows table)
      in if cols = [] then Inr [println ''No resources found.'']
         else case widen_rows rows (map (\<lambda>col. length (tc_Name col)) cols) of
                Inl e \<Rightarrow> Inl e
              | Inr widths \<Rightarrow>
                  Inr (print_cells widths 0 (map (\<lambda>col. ToUpper upper (tc_Name col)) cols) #
                       map (print_cells widths 0) rows))"

definition accept_table :: string where
  "accept_table = ''application/json;as=Table;v=v1;g=meta.k8s.io''"

text \<open>A panic ends the program with exit status 2.\<close>

definition print_response :: "('s, 'm) cli_env \<Rightarrow> string \<Rightarrow> bytes \<Rightarrow> string \<times> int" where
  "print_response C name body =
     (if name \<noteq> [] then
        (case ce_Indent C body of Inr pretty \<Rightarrow> (println pretty, 0) | Inl _ \<Rightarrow> (println body, 0))
      else case ce_json_Table C body of
             Inl _ \<Rightarrow> (println body, 0)
           | Inr table \<Rightarrow>
               (case print_table (ce_upper C) table of Inl _ \<Rightarrow> ([], 2) | Inr lines \<Rightarrow> (concat lines, 0)))"

definition handleGet :: "('s, 'm) cli_env \<Rightarrow> string \<Rightarrow> string \<Rightarrow> string list \<Rightarrow> 's \<Rightarrow> 's outcome" where
  "handleGet C serverAddr namespace args s =
     (case args of
        [] \<Rightarrow> (println ''Error: get requires a resource type (e.g. pods, services, deployments)'', 1, s)
      | resourceType # rest \<Rightarrow>
          let name = (case rest of [] \<Rightarrow> [] | n # _ \<Rightarrow> n)
          in case getEndpoint (ce_lower C) serverAddr namespace resourceType name of
               Inl err \<Rightarrow> (println (''Error: '' @ ce_Error C err), 1, s)
             | Inr url \<Rightarrow>
                 (case ce_NewRequest C url of
                    Some err \<Rightarrow> (println (''Error creating request: '' @ ce_Error C err), 1, s)
                  | None \<Rightarrow>
                      (case ce_Do C ((GET_req url)\<lparr>hr_accept := (if name = [] then accept_table else [])\<rparr>) s of
                         (Inl err, s1) \<Rightarrow> (println (''Error connecting to server: '' @ ce_Error C err), 1, s1)
                       | (Inr resp, s1) \<Rightarrow>
                           if hp_code resp \<noteq> 200 then
                             (with_status_code (''Error: '' @ error_message C resp) (hp_code resp), 1, s1)
                           else case hp_err resp of
                                  Some err \<Rightarrow> (println (''Error reading response: '' @ ce_Error C err), 1, s1)
                                | None \<Rightarrow>
                                    let (out, code) = print_response C name (hp_body resp) in (out, code, s1))))"

section \<open>Delete\<close>

definition handleDelete :: "('s, 'm) cli_env \<Rightarrow> string \<Rightarrow> string \<Rightarrow> string list \<Rightarrow> 's \<Rightarrow> 's outcome" where
  "handleDelete C serverAddr namespace args s =
     (case args of
        resourceType # name # _ \<Rightarrow>
          (case getEndpoint (ce_lower C) serverAddr namespace resourceType name of
             Inl err \<Rightarrow> (println (''Error: '' @ ce_Error C err), 1, s)
           | Inr url \<Rightarrow>
               (case ce_NewRequest C url of
                  Some err \<Rightarrow> (println (''Error creating request: '' @ ce_Error C err), 1, s)
                | None \<Rightarrow>
                    (case ce_Do C ((GET_req url)\<lparr>hr_method := ''DELETE''\<rparr>) s of
                       (Inl err, s1) \<Rightarrow> (println (''Error connecting to server: '' @ ce_Error C err), 1, s1)
                     | (Inr resp, s1) \<Rightarrow>
                         let object = ToLower (ce_lower C) resourceType @ ''/'' @ name
                         in if hp_code resp = 200 then (println (object @ '' deleted''), 0, s1)
                            else (with_status_code (''Error deleting '' @ object @ '': '' @ error_message C resp)
                                    (hp_code resp), 0, s1))))
      | _ \<Rightarrow> (println ''Error: delete requires a resource type and resource name (e.g. delete pod my-pod)'', 1, s))"

section \<open>Logs\<close>

record log_flags =
  lf_podName :: string
  lf_selector :: string
  lf_follow :: bool
  lf_tail :: string
  lf_all :: bool

definition no_flags :: log_flags where
  "no_flags = \<lparr>lf_podName = [], lf_selector = [], lf_follow = False, lf_tail = [], lf_all = False\<rparr>"

text \<open>The loop over the arguments; \<open>Inl\<close> is the line printed before the program ends.\<close>

fun parse_logs :: "(string \<Rightarrow> string) \<Rightarrow> string list \<Rightarrow> log_flags \<Rightarrow> string + log_flags" where
  "parse_logs quote [] f = Inr f"
| "parse_logs quote (arg # rest) f =
     (if arg = ''-f'' \<or> arg = ''--follow'' then parse_logs quote rest (f\<lparr>lf_follow := True\<rparr>)
      else if HasPrefix arg ''--tail='' then parse_logs quote rest (f\<lparr>lf_tail := TrimPrefix arg ''--tail=''\<rparr>)
      else if arg = ''--tail'' then
        (case rest of [] \<Rightarrow> Inr f | v # rest1 \<Rightarrow> parse_logs quote rest1 (f\<lparr>lf_tail := v\<rparr>))
      else if arg = ''-l'' \<or> arg = ''--selector'' then
        (case rest of [] \<Rightarrow> Inr f | v # rest1 \<Rightarrow> parse_logs quote rest1 (f\<lparr>lf_selector := v\<rparr>))
      else if HasPrefix arg ''-l='' then parse_logs quote rest (f\<lparr>lf_selector := TrimPrefix arg ''-l=''\<rparr>)
      else if HasPrefix arg ''--selector='' then
        parse_logs quote rest (f\<lparr>lf_selector := TrimPrefix arg ''--selector=''\<rparr>)
      else if arg = ''--all'' then parse_logs quote rest (f\<lparr>lf_all := True\<rparr>)
      else if HasPrefix arg ''-'' then Inl (println (''Error: unknown flag '' @ quote arg))
      else if lf_podName f = [] then parse_logs quote rest (f\<lparr>lf_podName := arg\<rparr>)
      else Inl (println (''Error: multiple pod names specified ('' @ lf_podName f @ '' and '' @ arg @ '')'')))"

definition pods_url :: "string \<Rightarrow> string \<Rightarrow> string" where
  "pods_url serverAddr namespace = serverAddr @ ''/api/v1/namespaces/'' @ namespace @ ''/pods''"

text \<open>
  The pods whose logs are wanted, or what is printed and the exit status when there are none; the
  usage is the text \<open>usage\<close>.
\<close>

definition log_pods :: "('s, 'm) cli_env \<Rightarrow> string \<Rightarrow> string \<Rightarrow> string \<Rightarrow> log_flags \<Rightarrow> 's \<Rightarrow>
    (string \<times> int + string list) \<times> 's" where
  "log_pods C usage serverAddr namespace f s =
     (if lf_podName f \<noteq> [] then (Inr [lf_podName f], s)
      else if lf_selector f \<noteq> [] \<or> lf_all f then
        let url = pods_url serverAddr namespace @
              (if lf_selector f \<noteq> [] then ''?labelSelector='' @ ReplaceAll (lf_selector f) '' '' [] else [])
        in case ce_Do C (GET_req url) s of
             (Inl err, s1) \<Rightarrow> (Inl (println (''Error connecting to server: '' @ ce_Error C err), 1), s1)
           | (Inr resp, s1) \<Rightarrow>
               if hp_code resp \<noteq> 200
               then (Inl (with_status_code (''Error fetching pods: '' @ hp_body resp) (hp_code resp), 1), s1)
               else (case ce_json_PodList C (hp_body resp) of
                       Inl err \<Rightarrow> (Inl (println (''Error decoding pods list: '' @ ce_Error C err), 1), s1)
                     | Inr podList \<Rightarrow>
                         if pl_Items podList = [] then (Inl (println ''No matching pods found.'', 0), s1)
                         else (Inr (map (\<lambda>pod. om_Name (pod_Metadata pod)) (pl_Items podList)), s1))
      else (Inl (println ''Error: logs requires a pod name, a selector (-l), or --all'' @ usage, 1), s))"

definition colors :: "string list" where
  "colors = map (\<lambda>n. CHR 0x1B # ''['' @ itoa n @ ''m'') [32, 33, 34, 35, 36, 91, 92, 93, 94, 95, 96]"

definition color_prefix :: "nat \<Rightarrow> nat \<Rightarrow> string \<Rightarrow> string" where
  "color_prefix pods idx pName =
     (if pods > 1
      then colors ! (idx mod length colors) @ ''['' @ pName @ ''] '' @ (CHR 0x1B # ''[0m'') else [])"

definition log_url :: "string \<Rightarrow> string \<Rightarrow> log_flags \<Rightarrow> string \<Rightarrow> string" where
  "log_url serverAddr namespace f pName =
     (let params = (if lf_follow f then [''follow=true''] else []) @
            (if lf_tail f \<noteq> [] then [''tailLines='' @ lf_tail f] else [])
      in pods_url serverAddr namespace @ ''/'' @ pName @ ''/log'' @
         (if params \<noteq> [] then ''?'' @ join_str ''&'' params else []))"

definition stream_pod :: "('s, 'm) cli_env \<Rightarrow> string \<Rightarrow> string \<Rightarrow> log_flags \<Rightarrow> string \<Rightarrow> string \<Rightarrow> 's \<Rightarrow> string \<times> 's" where
  "stream_pod C serverAddr namespace f colorPrefix pName s =
     (case ce_Do C (GET_req (log_url serverAddr namespace f pName)) s of
        (Inl err, s1) \<Rightarrow> (println (''Error connecting for '' @ pName @ '': '' @ ce_Error C err), s1)
      | (Inr resp, s1) \<Rightarrow>
          if hp_code resp \<noteq> 200
          then (with_status_code (''Error getting logs for '' @ pName @ '': '' @ error_message C resp) (hp_code resp), s1)
          else (concat (map (\<lambda>line. colorPrefix @ line) (lines_of (hp_body resp))) @
                (case hp_err resp of
                   None \<Rightarrow> []
                 | Some err \<Rightarrow> println (''Error reading stream for '' @ pName @ '': '' @ ce_Error C err)), s1))"

text \<open>
  The pods are read by one goroutine each; here one after the other.  The output of each is what
  it prints, and the lines of different pods can be interleaved.
\<close>

fun stream_pods :: "('s, 'm) cli_env \<Rightarrow> string \<Rightarrow> string \<Rightarrow> log_flags \<Rightarrow> nat \<Rightarrow> nat \<Rightarrow> string list \<Rightarrow> 's \<Rightarrow> string list \<times> 's" where
  "stream_pods C serverAddr namespace f total_pods idx [] s = ([], s)"
| "stream_pods C serverAddr namespace f total_pods idx (pod # pods) s =
     (let (out, s1) = stream_pod C serverAddr namespace f (color_prefix total_pods idx pod) pod s;
          (outs, s2) = stream_pods C serverAddr namespace f total_pods (Suc idx) pods s1
      in (out # outs, s2))"

definition handleLogs :: "('s, 'm) cli_env \<Rightarrow> string \<Rightarrow> string \<Rightarrow> string \<Rightarrow> string list \<Rightarrow> 's \<Rightarrow> 's outcome" where
  "handleLogs C usage serverAddr namespace args s =
     (case parse_logs (ce_quote C) args no_flags of
        Inl out \<Rightarrow> (out, 1, s)
      | Inr f \<Rightarrow>
          (case log_pods C usage serverAddr namespace f s of
             (Inl (out, code), s1) \<Rightarrow> (out, code, s1)
           | (Inr pods, s1) \<Rightarrow>
               let (outs, s2) = stream_pods C serverAddr namespace f (length pods) 0 pods s1 in (concat outs, 0, s2)))"

section \<open>The client\<close>

text \<open>The global flags, wherever they stand, and the other arguments in order.\<close>

datatype global_arg = NextServer | SetServer string | NextNamespace | SetNamespace string | CleanArg

definition global_arg_of :: "string \<Rightarrow> global_arg" where
  "global_arg_of arg =
     (if arg = ''-s'' \<or> arg = ''--server'' then NextServer
      else if HasPrefix arg ''-s='' then SetServer (TrimPrefix arg ''-s='')
      else if HasPrefix arg ''--server='' then SetServer (TrimPrefix arg ''--server='')
      else if arg = ''-n'' \<or> arg = ''--namespace'' then NextNamespace
      else if HasPrefix arg ''-n='' then SetNamespace (TrimPrefix arg ''-n='')
      else if HasPrefix arg ''--namespace='' then SetNamespace (TrimPrefix arg ''--namespace='')
      else CleanArg)"

fun global_flags :: "string list \<Rightarrow> string \<Rightarrow> string \<Rightarrow> string list \<Rightarrow> string \<times> string \<times> string list" where
  "global_flags [] serverAddr namespace cleanArgs = (serverAddr, namespace, cleanArgs)"
| "global_flags (arg # rest) serverAddr namespace cleanArgs =
     (case global_arg_of arg of
        NextServer \<Rightarrow>
          (case rest of [] \<Rightarrow> (serverAddr, namespace, cleanArgs) | v # rest1 \<Rightarrow> global_flags rest1 v namespace cleanArgs)
      | SetServer v \<Rightarrow> global_flags rest v namespace cleanArgs
      | NextNamespace \<Rightarrow>
          (case rest of [] \<Rightarrow> (serverAddr, namespace, cleanArgs) | v # rest1 \<Rightarrow> global_flags rest1 serverAddr v cleanArgs)
      | SetNamespace v \<Rightarrow> global_flags rest serverAddr v cleanArgs
      | CleanArg \<Rightarrow> global_flags rest serverAddr namespace (cleanArgs @ [arg]))"

definition runCli :: "('s, 'm) cli_env \<Rightarrow> string \<Rightarrow> string list \<Rightarrow> 's \<Rightarrow> 's outcome" where
  "runCli C usage args s =
     (let (serverAddr0, namespace0, cleanArgs) = global_flags args [] [] [];
          serverAddr = TrimSuffix (if serverAddr0 = [] then ''http://localhost:8080'' else serverAddr0) ''/'';
          namespace = (if namespace0 = [] then ''default'' else namespace0)
      in case cleanArgs of
           [] \<Rightarrow> (usage, 1, s)
         | cmd # rest \<Rightarrow>
             if cmd = ''apply'' then handleApply C serverAddr namespace rest s
             else if cmd = ''get'' then handleGet C serverAddr namespace rest s
             else if cmd = ''delete'' then handleDelete C serverAddr namespace rest s
             else if cmd = ''logs'' then handleLogs C usage serverAddr namespace rest s
             else (println (''Error: unknown command '' @ ce_quote C cmd) @ usage, 1, s))"

section \<open>The daemon\<close>

text \<open>
  \<open>main\<close> starts the daemon for four commands and is the client otherwise.  The daemon opens its
  database, builds its parts over it and recovers its state; told to stop, it closes the proxies
  and terminates the pods.  Between the two it is the state machine of \<open>Api\<close>.
\<close>

definition is_server_command :: "string list \<Rightarrow> bool" where
  "is_server_command args =
     (case args of [] \<Rightarrow> False | cmd # _ \<Rightarrow> cmd \<in> {''server'', ''daemon'', ''apiserver'', ''start''})"

definition runServer_start :: "('f, 'b) srv_env \<Rightarrow> goerror + 'b \<Rightarrow> 'f \<Rightarrow> goerror + ('f, 'b) Server" where
  "runServer_start V opened os =
     (case DB_Open (sg_bolt (se_storage V)) opened of
        Inl err \<Rightarrow> Inl err
      | Inr db \<Rightarrow>
          let configStore = fst (NewConfigStore (se_storage V) (Some db));
              controllerStore = fst (NewControllerStore (se_storage V) (Some db))
          in Inr (RecoverState V (NewServer V (new_daemon os) configStore controllerStore (Some db))))"

definition runServer_stop :: "('f, 'b) srv_env \<Rightarrow> ('f, 'b) Server \<Rightarrow> ('f, 'b) Server" where
  "runServer_stop V s =
     (let s1 = Server_Shutdown V s
      in s1\<lparr>srv_lifecycle := LM_Shutdown (srv_lm_env V s1) (srv_lifecycle s1)\<rparr>)"

end
