(* ===== verification/Cli_Correct.thy ===== *)
theory Cli_Correct
  imports Cli Rest
begin

text \<open>
  The client and the server fit together: the addresses the client builds are routed to the
  handlers it means, and the tables the server sends are printed without a panic, in aligned
  columns.  A file of several documents is taken apart into exactly these.
\<close>

section \<open>Addresses\<close>

fun aliases :: "kind \<Rightarrow> string list" where
  "aliases KPod = [''pod'', ''pods'', ''po'']"
| "aliases KService = [''service'', ''services'', ''svc'']"
| "aliases KConfigMap = [''configmap'', ''configmaps'', ''cm'']"
| "aliases KSecret = [''secret'', ''secrets'']"
| "aliases KDeployment = [''deployment'', ''deployments'', ''deploy'']"
| "aliases KReplicaSet = [''replicaset'', ''replicasets'', ''rs'']"

lemma getEndpoint_path:
  assumes "ToLower lower kind \<in> set (aliases k)"
  shows "getEndpoint lower addr ns kind name =
    Inr (addr @ ''/'' @ join_str ''/'' (if name = [] then collection k ns else item k ns name))"
  using assms by (cases k) (auto simp: getEndpoint_def Let_def collection_def item_def api_root_def)

lemma getEndpoint_unknown:
  assumes "\<forall>k. ToLower lower kind \<notin> set (aliases k)"
  shows "getEndpoint lower addr ns kind name = Inl (EUnknownKind (ToLower lower kind))"
  using assms [THEN spec, of KPod] assms [THEN spec, of KService] assms [THEN spec, of KConfigMap]
    assms [THEN spec, of KSecret] assms [THEN spec, of KDeployment] assms [THEN spec, of KReplicaSet]
  by (simp add: getEndpoint_def Let_def)

lemma split_paths:
  assumes "CHR ''/'' \<notin> set ns"
  shows "split_str ''/'' (join_str ''/'' (collection k ns)) = collection k ns"
    and "CHR ''/'' \<notin> set name \<Longrightarrow> split_str ''/'' (join_str ''/'' (item k ns name)) = item k ns name"
proof -
  have "CHR ''/'' \<notin> set x" if "x \<in> set (collection k ns)" for x
    using that assms by (cases k) (auto simp: collection_def api_root_def)
  moreover have "collection k ns \<noteq> []" by (simp add: collection_def)
  ultimately show "split_str ''/'' (join_str ''/'' (collection k ns)) = collection k ns"
    "CHR ''/'' \<notin> set name \<Longrightarrow> split_str ''/'' (join_str ''/'' (item k ns name)) = item k ns name"
    by (intro split_join; auto simp: item_def)+
qed

section \<open>Tables\<close>

definition rectangular :: "Table \<Rightarrow> bool" where
  "rectangular t \<longleftrightarrow> tbl_ColumnDefinitions t \<noteq> [] \<and>
     (\<forall>row \<in> set (tbl_Rows t). length (tr_Cells row) = length (tbl_ColumnDefinitions t))"

lemma rectangular_mk:
  "cols \<noteq> [] \<Longrightarrow> (\<And>v. length (cells v) = length cols) \<Longrightarrow> rectangular (mk_table cols cells enc objs)"
  by (auto simp: rectangular_def mk_table_def)

lemma tables_rectangular:
  "rectangular (ConvertPodsToTable c1 now pods)" "rectangular (ConvertConfigMapsToTable c2 now cms)"
  "rectangular (ConvertSecretsToTable c3 now secs)" "rectangular (ConvertServicesToTable upper c4 now svcs)"
  "rectangular (ConvertDeploymentsToTable c5 now deps)" "rectangular (ConvertReplicaSetsToTable c6 now rss)"
  unfolding ConvertPodsToTable_def ConvertConfigMapsToTable_def ConvertSecretsToTable_def ConvertServicesToTable_def
    ConvertDeploymentsToTable_def ConvertReplicaSetsToTable_def
  by (rule rectangular_mk; simp add: pod_cells_def Let_def)+

lemma list_handler_rectangular:
  assumes "rp_body (fst (list_handler k A rq s)) = BTable t"
  shows "rectangular t"
  using assms
  by (cases k) (auto simp: tables_rectangular handleListPods_def handleWatchPods_def handleListServices_def handleListConfigMaps_def
      handleListSecrets_def handleListDeployments_def handleListReplicaSets_def reply_def writeStatus_def Let_def
      split: if_splits prod.splits)

text \<open>The loop that computes the widths is a maximum, column by column.\<close>

lemma widen_row_max:
  "i + length cells \<le> length widths \<Longrightarrow> \<exists>ws. widen_row cells i widths = Inr ws \<and> length ws = length widths \<and>
     (\<forall>j < length widths. ws ! j =
        (if i \<le> j \<and> j < i + length cells then max (widths ! j) (length (cells ! (j - i))) else widths ! j))"
proof (induction cells arbitrary: i widths)
  case (Cons c cells)
  let ?ws = "if length c > widths ! i then widths[i := length c] else widths"
  have len: "length ?ws = length widths" by simp
  have "Suc i + length cells \<le> length ?ws" using Cons.prems by simp
  from Cons.IH [OF this] obtain ws where ws: "widen_row cells (Suc i) ?ws = Inr ws" "length ws = length widths"
      "\<And>j. j < length widths \<Longrightarrow> ws ! j = (if Suc i \<le> j \<and> j < Suc i + length cells
         then max (?ws ! j) (length (cells ! (j - Suc i))) else ?ws ! j)"
    unfolding len by blast
  have "ws ! j = (if i \<le> j \<and> j < i + length (c # cells) then max (widths ! j) (length ((c # cells) ! (j - i)))
      else widths ! j)" if "j < length widths" for j
    using ws(3) [OF that] that Cons.prems by (cases "j = i") (auto simp: nth_Cons')
  then show ?case using Cons.prems ws by auto
qed simp

lemma widen_rows_bound:
  "(\<And>row. row \<in> set rows \<Longrightarrow> length row = length widths) \<Longrightarrow> \<exists>ws. widen_rows rows widths = Inr ws \<and>
     length ws = length widths \<and> (\<forall>j < length widths. widths ! j \<le> ws ! j \<and>
       (\<forall>row \<in> set rows. length (row ! j) \<le> ws ! j))"
proof (induction rows arbitrary: widths)
  case (Cons row rows)
  have r: "length row = length widths" using Cons.prems by simp
  obtain w1 where w1: "widen_row row 0 widths = Inr w1" "length w1 = length widths"
      "\<forall>j < length widths. w1 ! j = max (widths ! j) (length (row ! j))"
    using widen_row_max [of 0 row widths] r by auto
  have "length x = length w1" if "x \<in> set rows" for x using Cons.prems w1(2) that by simp
  from Cons.IH [OF this] w1(2) obtain ws where ws: "widen_rows rows w1 = Inr ws" "length ws = length widths"
      "\<forall>j < length widths. w1 ! j \<le> ws ! j \<and> (\<forall>row \<in> set rows. length (row ! j) \<le> ws ! j)"
    by auto
  have "widths ! j \<le> ws ! j \<and> length (row ! j) \<le> ws ! j" if "j < length widths" for j
    using ws(3) w1(3) that by (metis max.bounded_iff)
  then show ?case using w1(1) ws by auto
qed simp

lemma rune_count_ascii: "ascii s \<Longrightarrow> rune_count s = length s"
  unfolding rune_count_def ascii_def list_all_iff by (subst filter_True) auto

lemma print_cells_length:
  "i + length cells \<le> length ws \<Longrightarrow> (\<And>j. j < length cells \<Longrightarrow> rune_count (cells ! j) = length (cells ! j) \<and>
     length (cells ! j) \<le> ws ! (i + j)) \<Longrightarrow>
   length (print_cells ws i cells) = (\<Sum>j \<in> {i ..< i + length cells}. ws ! j + 3) + 1"
proof (induction cells arbitrary: i)
  case Nil
  then show ?case by (simp add: newline_def)
next
  case (Cons c cells)
  have "rune_count (cells ! j) = length (cells ! j) \<and> length (cells ! j) \<le> ws ! (Suc i + j)" if "j < length cells" for j
    using Cons.prems(2) [of "Suc j"] that by simp
  then have "length (print_cells ws (Suc i) cells) = (\<Sum>j \<in> {Suc i ..< Suc i + length cells}. ws ! j + 3) + 1"
    using Cons.IH [of "Suc i"] Cons.prems(1) by simp
  moreover have "length (pad (ws ! i) c) = ws ! i" using Cons.prems(2) [of 0] by (simp add: pad_def)
  ultimately show ?case by (simp add: sum.atLeast_Suc_lessThan)
qed

section \<open>Documents\<close>

text \<open>
  A separator whose first character does not occur again in it cuts a string where it was put
  together, when the part before has no such separator in it.
\<close>

lemma cut_str_here:
  assumes "c \<notin> set p"
  shows "cut_str (c # p) a = None \<Longrightarrow> cut_str (c # p) (a @ c # p @ b) = Some (a, b)"
proof (induction a)
  case (Cons x a)
  have no: "\<not> prefix (c # p) (x # a)" "cut_str (c # p) a = None" using Cons.prems by (auto split: if_splits)
  have "\<not> prefix (c # p) ((x # a) @ c # p @ b)"
  proof
    assume "prefix (c # p) ((x # a) @ c # p @ b)"
    then consider "prefix (c # p) (x # a)" | q where "c # p = (x # a) @ c # q"
      by (auto simp: prefix_append prefix_Cons Cons_eq_append_conv)
    then show False using no(1) assms by cases auto
  qed
  then show ?case using Cons.IH [OF no(2)] by simp
qed simp

lemma split_str_join:
  assumes "c \<notin> set p" "\<And>d. d \<in> set parts \<Longrightarrow> cut_str (c # p) d = None" "parts \<noteq> []"
  shows "split_str (c # p) (join_str (c # p) parts) = parts"
  using assms(2,3)
proof (induction parts)
  case (Cons d parts)
  show ?case
  proof (cases "parts = []")
    case True
    then show ?thesis using Cons.prems(1) [of d] by (subst split_str.simps) simp
  next
    case False
    have "cut_str (c # p) (d @ c # p @ join_str (c # p) parts) = Some (d, join_str (c # p) parts)"
      by (rule cut_str_here [OF assms(1)]) (simp add: Cons.prems(1))
    then show ?thesis using Cons.IH Cons.prems(1) False
      by (subst split_str.simps) (simp add: join_Cons)
  qed
qed simp

lemma lead_newline: "lead_space (newline @ d) = Some newline"
proof -
  have n: "char_of (10 :: nat) = CHR 0x0A" "char_of (9 :: nat) = CHR 0x09" by code_simp+
  obtain rest where sp: "spaces = u8 [9] # u8 [10] # rest" by (simp add: spaces_def)
  show ?thesis unfolding lead_space_def sp by (simp add: newline_def u8_def n)
qed

lemma TrimSpace_newline: "trimmed d \<Longrightarrow> TrimSpace (newline @ d) = d"
  by (simp add: TrimSpace_def trim_left.simps [of "newline @ d"] lead_newline)
    (simp add: trimmed_def trim_left.simps [of d] trim_right.simps [of d])

lemma cut_newline:
  "cut_str (newline @ ''---'') d = None \<Longrightarrow> \<not> prefix ''---'' d \<Longrightarrow> cut_str (newline @ ''---'') (newline @ d) = None"
  by (simp add: newline_def)

lemma ascii_upper: "ascii s \<Longrightarrow> ascii (map upper_char s)"
  by (induction s) (auto simp: ascii_def upper_char_def)

text \<open>The text of several documents is the text of the first, then each other behind a separator.\<close>

lemma join_front: "join_str sep ((a @ x) # xs) = a @ join_str sep (x # xs)"
  by (cases xs) simp_all

lemma join_documents:
  "join_str (newline @ ''---'' @ newline) (d # docs) =
     join_str (newline @ ''---'') (d # map (\<lambda>d. newline @ d) docs)"
  by (induction docs arbitrary: d) (simp_all only: join_str.simps list.map append_assoc join_front)

section \<open>Properties\<close>




text \<open>A file of documents is taken apart into exactly these.  The documents may not begin or end
  in white space, begin with dashes, or hold a separator themselves; written one after the other
  with a line of three dashes between them, they are what \<open>apply\<close> sends, in order.\<close>

theorem splitYAML_join:
  assumes "docs \<noteq> []"
    and "\<forall>d \<in> set docs. d \<noteq> [] \<and> trimmed d \<and> \<not> prefix ''---'' d \<and> \<not> Contains d (newline @ ''---'')"
  shows "splitYAML (join_str (newline @ ''---'' @ newline) docs) = docs"
proof -
  obtain d rest where docs: "docs = d # rest" using assms(1) by (cases docs) auto
  have c: "cut_str (newline @ ''---'') x = None" if x: "x \<in> set (d # map (\<lambda>d. newline @ d) rest)" for x
  proof -
    obtain e where e: "e \<in> set docs" "x = e \<or> x = newline @ e" using x by (auto simp: docs)
    then have "cut_str (newline @ ''---'') e = None" "\<not> prefix ''---'' e" using assms(2) unfolding Contains_def by blast+
    then show ?thesis using e(2) cut_newline [of e] by metis
  qed
  have "split_str (newline @ ''---'') (join_str (newline @ ''---'') (d # map (\<lambda>d. newline @ d) rest)) =
      d # map (\<lambda>d. newline @ d) rest"
    using split_str_join [of "CHR 0x0A" "''---''" "d # map (\<lambda>d. newline @ d) rest"] c by (simp add: newline_def)
  moreover have "map TrimSpace (d # map (\<lambda>d. newline @ d) rest) = d # rest"
    using assms(2) by (simp add: docs TrimSpace_trimmed TrimSpace_newline map_idI)
  moreover have "filter (\<lambda>part. part \<noteq> []) (d # rest) = d # rest" using assms(2) by (simp add: docs filter_id_conv)
  ultimately show ?thesis by (simp only: docs splitYAML_def join_documents)
qed

theorem splitYAML_join_witness:
  "splitYAML (join_str (newline @ ''---'' @ newline) [''a: 1'', ''b: 2'']) = [''a: 1'', ''b: 2'']"
proof -
  have "trimmed ''a: 1''" "trimmed ''b: 2''" by (simp_all add: trimmed_graphic graphic_def)
  then show ?thesis
    using splitYAML_join [of "[''a: 1'', ''b: 2'']"] by (simp add: Contains_def newline_def)
qed


text \<open>A response that says no makes \<open>get\<close> fail and \<open>delete\<close> succeed: a script cannot see from the
  exit status of \<open>delete\<close> that nothing was deleted.\<close>

theorem failed_delete_exits_zero:
  assumes "getEndpoint (ce_lower C) addr ns kind name = Inr url" "ce_NewRequest C url = None"
    and "\<And>rq. ce_Do C rq s = (Inr resp, s1)" "hp_code resp \<noteq> 200"
  shows "fst (snd (handleDelete C addr ns [kind, name] s)) = 0 \<and> fst (snd (handleGet C addr ns [kind, name] s)) = 1"
  using assms by (simp add: handleDelete_def handleGet_def Let_def)

end
