(* ===== verification/Recovery.thy ===== *)
theory Recovery
  imports Cli Rest
begin

text \<open>
  The beginning and the end of the daemon: after the recovery every stored pod that is recorded as
  running or pending is managed; after the shutdown no pod is managed and no proxy is left.
\<close>

section \<open>Recovery\<close>

lemma Launch_pods:
  assumes "lm_tab lm" "Launch E pod engineType target env lm = ((r, pod'), lm')"
  shows "(r = None \<longrightarrow> tlookup (lm_pods lm') (pod_key pod) \<noteq> None) \<and>
    (\<forall>k. k \<noteq> pod_key pod \<longrightarrow> tlookup (lm_pods lm') k = tlookup (lm_pods lm) k)"
  using assms(2)
proof (cases rule: Launch_cases)
  case (no_port e)
  have "lm_pods lm' = lm_pods lm" by (subst no_port(5)) simp
  then show ?thesis using no_port(4) by simp
next
  case (early hostPort pool e w)
  then show ?thesis by (simp add: lm_frame)
next
  case (started hostPort pool containerPort projected w)
  show ?thesis
  proof (cases r)
    case None
    show ?thesis by (rule start_launch_ok [OF started(4) [unfolded None], simplified]) (simp add: None)
  next
    case (Some e)
    show ?thesis using start_launch_err(1) [OF started(4) [unfolded Some], simplified] Some by simp
  qed
qed simp

definition running :: "Pod \<Rightarrow> bool" where
  "running pod \<longleftrightarrow> st_Phase (pod_Status pod) = PodRunning \<or> st_Phase (pod_Status pod) = PodPending"

abbreviation managed :: "('f, 'b) Server \<Rightarrow> string \<Rightarrow> bool" where
  "managed s k \<equiv> tlookup (lm_pods (srv_lifecycle s)) k \<noteq> None"

text \<open>A launch leaves its pod failed or managed, and the other pods as they are.\<close>

lemma LaunchPod_recovers:
  assumes "srv_ok s" "LaunchPod V pod s = (r, s')"
  shows "(\<forall>p. tlookup (srv_pods s') (pod_key pod) = Some p \<longrightarrow> running p \<longrightarrow> managed s' (pod_key pod)) \<and>
    (\<forall>k. k \<noteq> pod_key pod \<longrightarrow> tlookup (srv_pods s') k = tlookup (srv_pods s) k \<and> managed s' k = managed s k)"
proof -
  have tab: "lm_tab (srv_lifecycle s)" using assms(1) by (simp add: srv_ok_def)
  have k: "pod_key (pending_pod V s0 pod) = pod_key pod" for s0 :: "('a, 'b) Server" by (rule pod_key_meta) simp
  have f: "\<not> running (failed_pod V e p)" for e p
    by (simp add: running_def PodFailed_def PodRunning_def PodPending_def)
  show ?thesis
    using assms(2)
  proof (cases rule: LaunchPod_cases)
    case (config e)
    then show ?thesis using f by simp
  next
    case (failed e engineType target env s0 pod1 lm)
    then show ?thesis using f Launch_pods [OF tab failed(4)] by (simp add: k)
  next
    case (ok engineType target env s0 pod1 lm)
    then show ?thesis using Launch_pods [OF tab ok(4)] by (simp add: k)
  qed
qed

lemma recover_service_frame:
  "srv_pods (recover_service V svc s) = srv_pods s"
  "lm_pods (srv_lifecycle (recover_service V svc s)) = lm_pods (srv_lifecycle s)"
  by (simp_all add: recover_service_def on_proxies_def srv_Reserve_def split: list.splits prod.splits)

lemma recover_services_frame:
  "srv_pods (fold (recover_service V) svcs s) = srv_pods s \<and>
   lm_pods (srv_lifecycle (fold (recover_service V) svcs s)) = lm_pods (srv_lifecycle s)"
  by (induction svcs arbitrary: s) (simp_all add: recover_service_frame)

lemma srv_ok_recover [keeps_ok]:
  "srv_ok s \<Longrightarrow> srv_ok (recover_pod V pod s)" "srv_ok s \<Longrightarrow> srv_ok (fold (recover_service V) svcs s)"
proof -
  show "srv_ok s \<Longrightarrow> srv_ok (recover_pod V pod s)" by (simp add: recover_pod_def Let_def keeps_ok)
  have "srv_ok s \<Longrightarrow> srv_ok (recover_service V svc s)" for svc and s :: "('a, 'b) Server"
    by (simp add: recover_service_def keeps_ok split: list.splits)
  then show "srv_ok s \<Longrightarrow> srv_ok (fold (recover_service V) svcs s)" by (induction svcs arbitrary: s) simp_all
qed

lemma recover_pod_step:
  assumes "srv_ok s" "tlookup (srv_pods s) (pod_key pod) = Some pod"
  shows "(\<forall>p. tlookup (srv_pods (recover_pod V pod s)) (pod_key pod) = Some p \<longrightarrow> running p \<longrightarrow>
      managed (recover_pod V pod s) (pod_key pod)) \<and>
    (\<forall>k. k \<noteq> pod_key pod \<longrightarrow> tlookup (srv_pods (recover_pod V pod s)) k = tlookup (srv_pods s) k \<and>
      managed (recover_pod V pod s) k = managed s k)"
proof (cases "running pod")
  case True
  define s1 where "s1 = (if st_HostPort (pod_Status pod) > 0
      then srv_Reserve (pod_key pod) (st_HostPort (pod_Status pod)) s else s)"
  have s1: "srv_ok s1" "srv_pods s1 = srv_pods s" "lm_pods (srv_lifecycle s1) = lm_pods (srv_lifecycle s)"
    using srv_ok_Reserve [OF assms(1)] assms(1) by (simp_all add: s1_def srv_Reserve_def)
  obtain r s' where l: "LaunchPod V pod s1 = (r, s')" by (meson surj_pair)
  have "recover_pod V pod s = s'" using True l by (auto simp: recover_pod_def running_def s1_def Let_def)
  then show ?thesis using LaunchPod_recovers [OF s1(1) l] by (simp add: s1)
next
  case False
  then have "recover_pod V pod s = s" by (simp add: recover_pod_def running_def)
  then show ?thesis using assms(2) False by simp
qed

lemma recover_pods:
  "srv_ok s \<Longrightarrow> distinct (map pod_key pods) \<Longrightarrow>
   (\<And>pod. pod \<in> set pods \<Longrightarrow> tlookup (srv_pods s) (pod_key pod) = Some pod) \<Longrightarrow>
   (\<And>k p. tlookup (srv_pods s) k = Some p \<Longrightarrow> running p \<Longrightarrow> managed s k \<or> k \<in> pod_key ` set pods) \<Longrightarrow>
   tlookup (srv_pods (fold (recover_pod V) pods s)) k = Some p \<Longrightarrow> running p \<Longrightarrow>
   managed (fold (recover_pod V) pods s) k"
proof (induction pods arbitrary: s)
  case (Cons pod pods)
  let ?s = "recover_pod V pod s"
  have step: "(\<forall>p. tlookup (srv_pods ?s) (pod_key pod) = Some p \<longrightarrow> running p \<longrightarrow> managed ?s (pod_key pod))"
      "\<And>k. k \<noteq> pod_key pod \<Longrightarrow> tlookup (srv_pods ?s) k = tlookup (srv_pods s) k \<and> managed ?s k = managed s k"
    using recover_pod_step [OF Cons.prems(1) Cons.prems(3), of pod V] by auto
  have "managed (fold (recover_pod V) pods ?s) k"
  proof (rule Cons.IH)
    show "srv_ok ?s" using Cons.prems(1) by (rule srv_ok_recover)
    show "distinct (map pod_key pods)" using Cons.prems(2) by simp
    show "tlookup (srv_pods ?s) (pod_key q) = Some q" if "q \<in> set pods" for q
      using step(2) [of "pod_key q"] Cons.prems(2) Cons.prems(3) [of q] that by (metis image_eqI list.set_intros(2) list.simps(9) distinct.simps(2) set_map)
    show "managed ?s k' \<or> k' \<in> pod_key ` set pods" if "tlookup (srv_pods ?s) k' = Some q" "running q" for k' q
      using step that Cons.prems(4) [of k' q] by (cases "k' = pod_key pod") auto
  qed (use Cons.prems in simp_all)
  then show ?case by simp
qed simp

lemma distinct_pod_keys:
  assumes "srv_ok s"
  shows "distinct (map pod_key (allPods [] s))"
proof -
  have d: "distinct (map fst (srv_pods s))" and k: "\<And>k p. tlookup (srv_pods s) k = Some p \<Longrightarrow> k = pod_key p"
    using assms by (simp_all add: srv_ok_def tdistinct_def)
  have eq: "map fst (srv_pods s) = map (pod_key \<circ> snd) (srv_pods s)"
  proof (rule map_cong [OF refl])
    fix kp assume "kp \<in> set (srv_pods s)"
    then show "fst kp = (pod_key \<circ> snd) kp" using k [of "fst kp" "snd kp"] d by simp
  qed
  show ?thesis using d unfolding eq by (simp add: allPods_def)
qed

lemma RecoverState_manages:
  assumes "srv_ok s" "tlookup (srv_pods (RecoverState V s)) k = Some p" "running p"
  shows "managed (RecoverState V s) k"
proof -
  let ?s = "fold (recover_service V) (ServiceStore_List [] (srv_services s, srv_db s)) s"
  have ok: "srv_ok ?s" using assms(1) by (simp add: keeps_ok)
  have eq: "RecoverState V s = fold (recover_pod V) (allPods [] ?s) ?s" by (simp add: RecoverState_def Let_def)
  have key: "k' = pod_key q" if "tlookup (srv_pods ?s) k' = Some q" for k' q using ok that by (simp add: srv_ok_def)
  show ?thesis
    unfolding eq
  proof (rule recover_pods [OF ok distinct_pod_keys [OF ok], where p = p])
    show "tlookup (srv_pods ?s) (pod_key q) = Some q" if "q \<in> set (allPods [] ?s)" for q
      using that by (simp add: srv_ok_allPods [OF ok])
    show "managed ?s k' \<or> k' \<in> pod_key ` set (allPods [] ?s)" if "tlookup (srv_pods ?s) k' = Some q" "running q" for k' q
      using key [OF that(1)] that(1) by (auto simp: srv_ok_allPods [OF ok])
  qed (use assms(2,3) in \<open>simp_all add: eq\<close>)
qed

section \<open>Shutdown\<close>

lemma fold_Terminate_tab:
  "lm_tab lm \<Longrightarrow> tlookup (lm_pods (fold (\<lambda>pod lm. snd (Terminate E (om_Namespace (pod_Metadata pod))
     (om_Name (pod_Metadata pod)) lm)) pods lm)) k =
   (if k \<in> pod_key ` set pods then None else tlookup (lm_pods lm) k)"
proof (induction pods arbitrary: lm)
  case (Cons pod pods)
  obtain r lm' where t: "Terminate E (om_Namespace (pod_Metadata pod)) (om_Name (pod_Metadata pod)) lm = (r, lm')"
    by (meson surj_pair)
  have "lm_tab lm'" "tlookup (lm_pods lm') k = (if k = pod_key pod then None else tlookup (lm_pods lm) k)"
    using Terminate_tab [OF Cons.prems t] by (simp_all add: pod_key_def)
  then show ?case using Cons.IH [of lm'] by (cases "k = pod_key pod") (simp_all add: t)
qed simp

lemma LM_Shutdown_tab:
  assumes "lm_tab lm"
  shows "tlookup (lm_pods (LM_Shutdown E lm)) k = None"
proof (cases "tlookup (lm_pods lm) k")
  case (Some a)
  then obtain mp where mp: "get_mp lm a = Some mp" "pod_key (mp_pod mp) = k" using assms unfolding lm_tab_def by blast
  have "(k, a) \<in> set (lm_pods lm)" using Some by (rule map_of_SomeD)
  then have "mp_pod mp \<in> set (managed_pods lm)"
    using mp(1) by (force simp: managed_pods_def List.map_filter_def)
  then show ?thesis using mp(2) unfolding LM_Shutdown_def fold_Terminate_tab [OF assms] by auto
qed (simp add: LM_Shutdown_def fold_Terminate_tab [OF assms])

lemma Server_Shutdown_simps:
  "pm_proxies (srv_proxyManager (Server_Shutdown V s)) = []" "srv_pods (Server_Shutdown V s) = srv_pods s"
  "srv_db (Server_Shutdown V s) = srv_db s" "srv_ok s \<Longrightarrow> srv_ok (Server_Shutdown V s)"
  by (simp_all add: Server_Shutdown_def keeps_ok)
    (simp_all add: on_proxies_def ProxyManager_Shutdown_def split: prod.splits)

section \<open>Properties\<close>

text \<open>C7: After a restart no record lies.  When the daemon has recovered its state from a database
  whose pods are stored under their keys, every pod that is recorded as running or pending is
  managed; the ones that could not be launched again are recorded as failed.\<close>

theorem recovery_complete:
  assumes "kv_wf pod_Metadata (kv_load (sg_bolt (se_storage V)) (sg_Pod (se_storage V)) ''pods'' db)"
    and "s = RecoverState V (NewServer V (NewLifecycleManager pool w) configStore controllerStore db)"
    and "loadPod ns n s = Some p" "st_Phase (pod_Status p) = PodRunning \<or> st_Phase (pod_Status p) = PodPending"
  shows "load_pod (srv_lifecycle s) (podKey ns n) \<noteq> None"
proof -
  note ok = srv_ok_NewServer [OF assms(1), of pool w configStore controllerStore]
  have "managed s (podKey ns n)"
    using RecoverState_manages [OF ok] assms(2-4) by (simp add: loadPod_def podKey_def running_def)
  moreover have "lm_tab (srv_lifecycle s)" using srv_ok_RecoverState [OF ok] by (simp add: assms(2) srv_ok_def)
  ultimately show ?thesis unfolding lm_tab_def load_pod_def by (fastforce split: option.splits)
qed

text \<open>A database with one running pod, which is launched again.\<close>

definition kept_pod :: Pod where
  "kept_pod = zero_Pod\<lparr>pod_Metadata := zero_ObjectMeta\<lparr>om_Name := ''web'', om_Namespace := ''default'', om_UID := ''u1'',
       om_Annotations := Some [(AnnotationExecutablePath, ''app'')]\<rparr>,
     pod_Status := zero_PodStatus\<lparr>st_Phase := PodRunning\<rparr>\<rparr>"

definition kept_V :: "(unit, mem_db) srv_env" where
  "kept_V = demo_V\<lparr>se_storage := demo_storage\<lparr>sg_Pod := const_codec kept_pod\<rparr>\<rparr>"

definition kept_db :: "mem_db option" where
  "kept_db = Some [(''pods'', [(''default/web'', ''{}'')])]"

definition kept_server :: "(unit, mem_db) Server" where
  "kept_server = NewServer kept_V (new_daemon ()) (fst empty_cfg) (fst empty_ctl) kept_db"

lemma kept_load: "fst (kv_load (sg_bolt (se_storage kept_V)) (sg_Pod (se_storage kept_V)) ''pods'' kept_db) =
    [(''default/web'', kept_pod)]"
  by (simp add: kv_load_def kept_V_def demo_storage_def kept_db_def DB_List_def mem_bolt_def load_scan_def const_codec_def)

lemma kept_LaunchPod: "fst (LaunchPod kept_V kept_pod kept_server) = None"
proof -
  have meta: "pod_Spec kept_pod = zero_PodSpec" "om_UID (pod_Metadata kept_pod) = ''u1''"
      "om_Annotations (pod_Metadata kept_pod) = Some [(''lok8s.io/executable-path'', ''app'')]"
    by (simp_all add: kept_pod_def zero_Pod_def AnnotationExecutablePath_def)
  have c: "ExtractEngineConfig f kept_pod = Inr (''native'', ''app'')" for f
    by (simp add: ExtractEngineConfig_def meta mlookup_def AnnotationExecutablePath_def AnnotationWasmModule_def EngineNative_def)
  have e: "srv_lm_env kept_V s0 = srv_lm_env demo_V s0" for s0 by (simp add: srv_lm_env_def kept_V_def)
  have "fst (fst (Launch (srv_lm_env kept_V s0) (pending_pod kept_V s0 kept_pod) ''native'' ''app'' env (new_daemon ()))) = None" for s0 env
    unfolding e by (rule demo_Launch_plain) (simp_all add: meta pending_pod_def mlookup_def)
  moreover have "srv_lifecycle kept_server = new_daemon ()" by (simp add: kept_server_def NewServer_def)
  ultimately show ?thesis by (simp add: LaunchPod_def c Let_def case_prod_beta split: option.splits)
qed

lemma kept_wf: "kv_wf pod_Metadata (kv_load (sg_bolt (se_storage kept_V)) (sg_Pod (se_storage kept_V)) ''pods'' kept_db)"
  using kept_load by (simp add: kv_wf_def tdistinct_def meta_key_def obj_key_def kept_pod_def)

lemma kept_recovered:
  obtains p where "loadPod ''default'' ''web'' (RecoverState kept_V kept_server) = Some p"
    "st_Phase (pod_Status p) = PodRunning"
proof -
  have svcs: "ServiceStore_List [] (srv_services kept_server, srv_db kept_server) = []"
    by (simp add: kept_server_def NewServer_def NewServiceStore_def kv_load_def kept_db_def DB_List_def kept_V_def
        demo_storage_def mem_bolt_def ServiceStore_List_def)
  have pods: "allPods [] kept_server = [kept_pod]" by (simp add: allPods_def kept_server_def NewServer_def kept_load)
  have "recover_pod kept_V kept_pod kept_server = snd (LaunchPod kept_V kept_pod kept_server)"
    by (simp add: recover_pod_def kept_pod_def zero_PodStatus_def)
  then have r: "RecoverState kept_V kept_server = snd (LaunchPod kept_V kept_pod kept_server)"
    by (simp add: RecoverState_def svcs pods)
  obtain s' where l: "LaunchPod kept_V kept_pod kept_server = (None, s')" using kept_LaunchPod by (metis prod.collapse)
  have k: "pod_key kept_pod = ''default/web''" by (simp add: podKey_def pod_key_def kept_pod_def)
  obtain p where "loadPod ''default'' ''web'' s' = Some p" "st_Phase (pod_Status p) = PodRunning"
    using l by (cases rule: LaunchPod_cases) (auto simp: loadPod_def k)
  then show thesis using that r l by simp
qed

theorem recovery_complete_witness:
  "load_pod (srv_lifecycle (RecoverState kept_V kept_server)) ''default/web'' \<noteq> None"
proof (rule kept_recovered)
  fix p assume p: "loadPod ''default'' ''web'' (RecoverState kept_V kept_server) = Some p" "st_Phase (pod_Status p) = PodRunning"
  have k: "podKey ''default'' ''web'' = ''default/web''" by (simp add: podKey_def)
  show ?thesis
    using recovery_complete [OF kept_wf _ p(1), of "NewPortPool 30000 32767" "lm_world (new_daemon ())" "fst empty_cfg" "fst empty_ctl"]
      p(2) k by (simp add: kept_server_def new_daemon_def NewLifecycleManager_def)
qed

text \<open>The daemon leaves nothing behind.  From every state it reaches, stopping it ends with no
  managed pod and no proxy, while the records of the pods stay in the table and in the database, for
  the next start to recover.\<close>

theorem shutdown_leaves_nothing:
  assumes "srv_reachable A (NewServer (ae_srv A) (NewLifecycleManager pool w) configStore controllerStore db) s"
    and "kv_wf pod_Metadata (kv_load (sg_bolt (stg A)) (sg_Pod (stg A)) ''pods'' db)"
  shows "load_pod (srv_lifecycle (runServer_stop (ae_srv A) s)) k = None \<and>
    pm_proxies (srv_proxyManager (runServer_stop (ae_srv A) s)) = [] \<and>
    srv_pods (runServer_stop (ae_srv A) s) = srv_pods s \<and> srv_db (runServer_stop (ae_srv A) s) = srv_db s"
proof -
  have "srv_ok s" by (rule srv_reachable_ok [OF assms(1) srv_ok_NewServer [OF assms(2)]])
  then have tab: "lm_tab (srv_lifecycle (Server_Shutdown (ae_srv A) s))" using Server_Shutdown_simps(4) srv_ok_def by blast
  show ?thesis
    by (simp add: runServer_stop_def Let_def Server_Shutdown_simps load_pod_def LM_Shutdown_tab [OF tab])
qed

theorem shutdown_leaves_nothing_witness:
  "load_pod (srv_lifecycle demo_posted) ''default/web'' \<noteq> None \<and>
   load_pod (srv_lifecycle (runServer_stop demo_V demo_posted)) ''default/web'' = None"
proof -
  have V: "ae_srv demo_A = demo_V" by (simp add: demo_A_def)
  have "kv_wf pod_Metadata (kv_load (sg_bolt (stg demo_A)) (sg_Pod (stg demo_A)) ''pods'' None)"
    by (simp add: kv_load_def kv_wf_def)
  then show ?thesis
    using shutdown_leaves_nothing [OF demo_posted_reachable] demo_posted_managed unfolding V by blast
qed

end
