(* ===== verification/Relay.thy ===== *)
theory Relay
  imports Connections
begin

text \<open>
  The bytes of a connection: what \<open>handleConn\<close> of \<open>network/proxy.go\<close> and of \<open>service/proxy.go\<close> does once
  the target is reached.  Two goroutines copy, one in each direction, with \<open>io.Copy\<close>; the handler
  returns when the first of them ends, and closes both connections.
\<close>

section \<open>One direction\<close>

text \<open>
  A direction: what its sender has written so far, whether the sender has ended its side, what is on
  the way, what the receiver has got, and how the copying ended, if it did (\<open>Some None\<close> without an
  error, which \<open>io.Copy\<close> reports when it has read to the end).
\<close>

record direction =
  dr_sent :: bytes
  dr_fin :: bool
  dr_way :: bytes
  dr_got :: bytes
  dr_ended :: "goerror option option"

definition quiet :: direction where
  "quiet = \<lparr>dr_sent = [], dr_fin = False, dr_way = [], dr_got = [], dr_ended = None\<rparr>"

definition dir_write :: "bytes \<Rightarrow> direction \<Rightarrow> direction" where
  "dir_write b d = (if dr_fin d then d else d\<lparr>dr_sent := dr_sent d @ b, dr_way := dr_way d @ b\<rparr>)"

definition close_write :: "direction \<Rightarrow> direction" where
  "close_write d = d\<lparr>dr_fin := True\<rparr>"

text \<open>One turn of \<open>io.Copy\<close>: it moves up to \<open>n\<close> bytes, or ends at the end of the stream.\<close>

definition copy_turn :: "nat \<Rightarrow> direction \<Rightarrow> direction" where
  "copy_turn n d =
     (if dr_ended d \<noteq> None then d
      else if dr_way d = [] then (if dr_fin d then d\<lparr>dr_ended := Some None\<rparr> else d)
      else d\<lparr>dr_way := drop n (dr_way d), dr_got := dr_got d @ take n (dr_way d)\<rparr>)"

definition copy_fails :: "goerror \<Rightarrow> direction \<Rightarrow> direction" where
  "copy_fails e d = (if dr_ended d \<noteq> None then d else d\<lparr>dr_ended := Some (Some e)\<rparr>)"

definition dir_ok :: "direction \<Rightarrow> bool" where
  "dir_ok d \<longleftrightarrow> dr_sent d = dr_got d @ dr_way d \<and> (dr_ended d = Some None \<longrightarrow> dr_fin d \<and> dr_way d = [])"

lemma dir_ok_steps:
  "dir_ok quiet" "dir_ok d \<Longrightarrow> dir_ok (dir_write b d)" "dir_ok d \<Longrightarrow> dir_ok (close_write d)"
  "dir_ok d \<Longrightarrow> dir_ok (copy_turn n d)" "dir_ok d \<Longrightarrow> dir_ok (copy_fails e d)"
  by (auto simp: dir_ok_def quiet_def dir_write_def close_write_def copy_turn_def copy_fails_def)

section \<open>Both directions\<close>

text \<open>\<open>rl_up\<close> goes from the client to the target, \<open>rl_down\<close> back; \<open>rl_closed\<close> says that the handler has returned.\<close>

record relay =
  rl_up :: direction
  rl_down :: direction
  rl_closed :: bool

definition dialled :: relay where
  "dialled = \<lparr>rl_up = quiet, rl_down = quiet, rl_closed = False\<rparr>"

inductive dir_step :: "direction \<Rightarrow> direction \<Rightarrow> bool" where
  writes: "dir_step d (dir_write b d)"
| ends: "dir_step d (close_write d)"
| copies: "dir_step d (copy_turn n d)"
| fails: "dir_step d (copy_fails e d)"

inductive relay_step :: "relay \<Rightarrow> relay \<Rightarrow> bool" where
  up: "\<not> rl_closed r \<Longrightarrow> dir_step (rl_up r) d \<Longrightarrow> relay_step r (r\<lparr>rl_up := d\<rparr>)"
| down: "\<not> rl_closed r \<Longrightarrow> dir_step (rl_down r) d \<Longrightarrow> relay_step r (r\<lparr>rl_down := d\<rparr>)"
| returns: "dr_ended (rl_up r) \<noteq> None \<or> dr_ended (rl_down r) \<noteq> None \<Longrightarrow> relay_step r (r\<lparr>rl_closed := True\<rparr>)"

inductive relay_steps :: "relay \<Rightarrow> relay \<Rightarrow> bool" for r where
  refl: "relay_steps r r"
| step: "relay_steps r s \<Longrightarrow> relay_step s t \<Longrightarrow> relay_steps r t"

declare dir_step.intros [intro] relay_step.intros [intro]

inductive_cases relay_stepE: "relay_step r s"

definition relay_ok :: "relay \<Rightarrow> bool" where
  "relay_ok r \<longleftrightarrow> dir_ok (rl_up r) \<and> dir_ok (rl_down r) \<and>
     (rl_closed r \<longrightarrow> dr_ended (rl_up r) \<noteq> None \<or> dr_ended (rl_down r) \<noteq> None)"

lemma dir_step_ok: "dir_step d d' \<Longrightarrow> dir_ok d \<Longrightarrow> dir_ok d'"
  by (induction rule: dir_step.induct) (simp_all add: dir_ok_steps)

lemma relay_step_ok: "relay_step r s \<Longrightarrow> relay_ok r \<Longrightarrow> relay_ok s"
  by (erule relay_stepE) (auto simp: relay_ok_def dir_step_ok)

lemma relay_steps_ok: "relay_steps dialled r \<Longrightarrow> relay_ok r"
proof (induction rule: relay_steps.induct)
  case refl
  show ?case by (simp add: relay_ok_def dialled_def dir_ok_steps)
qed (rule relay_step_ok)

lemma relay_up: "relay_steps r s \<Longrightarrow> \<not> rl_closed s \<Longrightarrow> dir_step (rl_up s) d \<Longrightarrow> relay_steps r (s\<lparr>rl_up := d\<rparr>)"
  by (rule relay_steps.step) auto

lemma relay_down: "relay_steps r s \<Longrightarrow> \<not> rl_closed s \<Longrightarrow> dir_step (rl_down s) d \<Longrightarrow> relay_steps r (s\<lparr>rl_down := d\<rparr>)"
  by (rule relay_steps.step) auto

lemma copy_all:
  assumes "dir_ok d" "dr_ended d = None" "dr_fin d" "d' = copy_turn 0 (copy_turn (length (dr_way d)) d)"
  shows "dr_got d' = dr_sent d \<and> dr_ended d' = Some None"
  using assms by (cases "dr_way d = []") (simp_all add: copy_turn_def dir_ok_def)

lemma closed_stays: "relay_steps r s \<Longrightarrow> rl_closed r \<Longrightarrow> rl_closed s \<and> rl_up s = rl_up r \<and> rl_down s = rl_down r"
  by (induction rule: relay_steps.induct) (auto elim: relay_stepE)

section \<open>Properties\<close>


text \<open>C37: A client that ends its side loses the answer.  A client that has sent its request and shuts
  down its writing side, as a client that pipes its input does, makes the copying to the target end
  first: then the handler closes both connections, whatever the target has still to answer.\<close>

theorem half_close_loses_answer:
  "\<exists>r. relay_steps dialled r \<and> rl_closed r \<and> dr_got (rl_up r) = request \<and> dr_ended (rl_up r) = Some None \<and>
     dr_sent (rl_down r) = answer \<and> dr_ended (rl_down r) = None \<and>
     (\<forall>s. relay_steps r s \<longrightarrow> dr_got (rl_down s) = [])"
proof -
  define u where "u = close_write (dir_write request quiet)"
  define u' where "u' = copy_turn 0 (copy_turn (length (dr_way u)) u)"
  let ?a = "dialled\<lparr>rl_up := u\<rparr>" and ?b = "dialled\<lparr>rl_up := u'\<rparr>"
  let ?c = "?b\<lparr>rl_down := dir_write answer quiet\<rparr>"
  let ?r = "?c\<lparr>rl_closed := True\<rparr>"
  have u: "dir_ok u" "dr_ended u = None" "dr_fin u" "dr_sent u = request"
    by (simp_all add: u_def dir_ok_steps) (simp_all add: close_write_def dir_write_def quiet_def)
  note c = copy_all [OF u(1-3) u'_def]
  have "relay_steps dialled (dialled\<lparr>rl_up := dir_write request quiet\<rparr>)"
    by (rule relay_up [OF relay_steps.refl]) (auto simp: dialled_def)
  from relay_up [OF this, of u] have "relay_steps dialled ?a" by (auto simp: dialled_def u_def)
  from relay_up [OF this, of "copy_turn (length (dr_way u)) u"]
  have "relay_steps dialled (dialled\<lparr>rl_up := copy_turn (length (dr_way u)) u\<rparr>)" by (auto simp: dialled_def)
  from relay_up [OF this, of u'] have "relay_steps dialled ?b" by (auto simp: dialled_def u'_def)
  from relay_down [OF this, of "dir_write answer quiet"] have "relay_steps dialled ?c" by (auto simp: dialled_def)
  then have steps: "relay_steps dialled ?r" by (rule relay_steps.step) (rule relay_step.returns, simp add: c)
  have "dr_got (rl_down s) = []" if "relay_steps ?r s" for s
    using closed_stays [OF that] by (simp add: dir_write_def quiet_def)
  then show ?thesis
    using steps c u(4) by (intro exI [of _ ?r]) (simp add: dir_write_def quiet_def)
qed

theorem half_close_loses_answer_witness:
  "\<exists>r. relay_steps dialled r \<and> rl_closed r \<and> dr_got (rl_up r) = ''GET'' \<and> dr_sent (rl_down r) = ''OK'' \<and>
     dr_got (rl_down r) = []"
  using half_close_loses_answer [of "''GET''" "''OK''"] relay_steps.refl by blast


end
