(* ===== verification/Races.thy ===== *)
theory Races
  imports Recovery
begin

text \<open>
  Requests in flight at the same time.  The handlers of pods and the pod manager's operations are
  cut between their calls on the lifecycle manager and on the table of pods (\<open>api/handler.go\<close>,
  \<open>api/server.go\<close>), and the pieces of different requests interleave.  Requests for different pods do
  not disturb each other; two requests for the same pod can.
\<close>

section \<open>The pieces\<close>

text \<open>What is left to do of a request: the calls that remain, with what they were given.\<close>

datatype task =
    Launching Pod
  | Storing Pod
  | Refreshing Pod
  | Terminating string string
  | Deleting string string

fun task_key :: "task \<Rightarrow> string" where
  "task_key (Launching pod) = pod_key pod"
| "task_key (Storing pod) = pod_key pod"
| "task_key (Refreshing pod) = pod_key pod"
| "task_key (Terminating ns n) = podKey ns n"
| "task_key (Deleting ns n) = podKey ns n"

text \<open>Creating a pod up to its launch, with the pod that is to be stored then.\<close>

definition create_launch :: "('f, 'b) api_env \<Rightarrow> request \<Rightarrow> ('f, 'b) Server \<Rightarrow>
    (response \<times> Pod option) \<times> ('f, 'b) Server" where
  "create_launch A rq s =
     (let V = ae_srv A in
      case rq_body rq of
        Inl _ \<Rightarrow> ((writeStatus 400 ''failed to read request body'', None), s)
      | Inr body \<Rightarrow>
          (case Parse (snd (sg_Pod (stg A))) (ae_yaml_Pod A) body of
             Inl err \<Rightarrow> ((writeStatus 422 (se_Error V err), None), s)
           | Inr pod0 \<Rightarrow>
               let pod = pod0\<lparr>pod_Metadata := stamp A rq s (pod_Metadata pod0),
                     pod_TypeMeta := \<lparr>tm_APIVersion = ''v1'', tm_Kind = ''Pod''\<rparr>\<rparr>
               in case ExtractEngineConfig (\<lambda>p. h_Stat (se_host V) p (srv_os s)) pod of
                    Inl err \<Rightarrow> ((writeStatus 422 (se_Error V err), None), s)
                  | Inr (engineType, target) \<Rightarrow>
                      let env = CollectEnvVars (ps_Containers (pod_Spec pod)) @
                            GenerateServiceEnv (se_host V) (rq_ns rq) (srv_services s, srv_db s) (srv_proxyManager s);
                          ((r, pod1), lm) =
                            Launch (srv_lm_env V s) (pending_pod V s pod) engineType target env (srv_lifecycle s)
                      in (case r of
                            Some err \<Rightarrow> (writeStatus 500 (se_Error V err), Some (failed_pod V err pod1))
                          | None \<Rightarrow> (reply 201 (BPod (running_pod pod1)), Some (running_pod pod1)),
                          s\<lparr>srv_lifecycle := lm\<rparr>)))"

text \<open>Reading a pod, with the pod that is to be stored when it is managed.\<close>

definition get_read :: "('f, 'b) api_env \<Rightarrow> request \<Rightarrow> ('f, 'b) Server \<Rightarrow> response \<times> Pod option" where
  "get_read A rq s =
     (case loadPod (rq_ns rq) (rq_name rq) s of
        None \<Rightarrow> (writeStatus 404 ''pod not found'', None)
      | Some pod \<Rightarrow>
          (case LM_Status (srv_lm_env (ae_srv A) s) (rq_ns rq) (rq_name rq) (srv_lifecycle s) of
             Some status \<Rightarrow>
               (reply 200 (BPod (pod\<lparr>pod_Status := status\<rparr>)), Some (pod\<lparr>pod_Status := status\<rparr>))
           | None \<Rightarrow> (reply 200 (BPod pod), None)))"

text \<open>The launch of the pod manager after it has stored the pod.\<close>

definition launch_rest :: "('f, 'b) srv_env \<Rightarrow> Pod \<Rightarrow> ('f, 'b) Server \<Rightarrow>
    (goerror option \<times> Pod) \<times> ('f, 'b) Server" where
  "launch_rest V pod s =
     (case ExtractEngineConfig (\<lambda>p. h_Stat (se_host V) p (srv_os s)) pod of
        Inl err \<Rightarrow> ((Some err, failed_pod V err pod), s)
      | Inr (engineType, target) \<Rightarrow>
          let env = CollectEnvVars (ps_Containers (pod_Spec pod)) @
                GenerateServiceEnv (se_host V) (om_Namespace (pod_Metadata pod)) (srv_services s, srv_db s)
                  (srv_proxyManager s);
              ((r, pod1), lm) = Launch (srv_lm_env V s) (pending_pod V s pod) engineType target env (srv_lifecycle s)
          in ((r, case r of Some err \<Rightarrow> failed_pod V err pod1 | None \<Rightarrow> running_pod pod1), s\<lparr>srv_lifecycle := lm\<rparr>))"

fun run_task :: "('f, 'b) srv_env \<Rightarrow> task \<Rightarrow> ('f, 'b) Server \<Rightarrow> task list \<times> ('f, 'b) Server" where
  "run_task V (Launching pod) s = (case launch_rest V pod s of ((r, p), s1) \<Rightarrow> ([Storing p], s1))"
| "run_task V (Storing pod) s = ([], storePod V pod s)"
| "run_task V (Refreshing pod) s = ([], storePod V pod s)"
| "run_task V (Terminating ns n) s =
     ([Deleting ns n], s\<lparr>srv_lifecycle := snd (Terminate (srv_lm_env V s) ns n (srv_lifecycle s))\<rparr>)"
| "run_task V (Deleting ns n) s = ([], deletePod V ns n s)"

text \<open>One after the other, the pieces are the handlers and the operations.\<close>

lemma handleCreatePod_pieces:
  "handleCreatePod A rq s =
     (case create_launch A rq s of
        ((resp, None), s1) \<Rightarrow> (resp, s1)
      | ((resp, Some pod), s1) \<Rightarrow> (resp, snd (run_task (ae_srv A) (Storing pod) s1)))"
  by (auto simp: handleCreatePod_def create_launch_def Let_def split: sum.splits prod.splits option.splits)

lemma handleGetPod_pieces:
  "handleGetPod A rq s =
     (case get_read A rq s of
        (resp, None) \<Rightarrow> (resp, s)
      | (resp, Some pod) \<Rightarrow> (resp, snd (run_task (ae_srv A) (Refreshing pod) s)))"
  by (auto simp: handleGetPod_def get_read_def Let_def split: option.splits)

lemma handleDeletePod_pieces:
  "snd (handleDeletePod A rq s) =
     (if loadPod (rq_ns rq) (rq_name rq) s = None then s
      else snd (run_task (ae_srv A) (Deleting (rq_ns rq) (rq_name rq))
             (snd (run_task (ae_srv A) (Terminating (rq_ns rq) (rq_name rq)) s))))"
  by (auto simp: handleDeletePod_def Let_def)

lemma LaunchPod_pieces:
  "LaunchPod V pod s =
     (case launch_rest V pod (storePod V pod s) of
        ((r, p), s1) \<Rightarrow> (r, snd (run_task V (Storing p) s1)))"
  by (auto simp: LaunchPod_def launch_rest_def Let_def split: sum.splits prod.splits option.splits)

lemma DeletePod_pieces:
  "DeletePod V ns n s = (None, snd (run_task V (Deleting ns n) (snd (run_task V (Terminating ns n) s))))"
  by (simp add: DeletePod_def Let_def)

section \<open>Interleavings\<close>

text \<open>
  A server and the requests in flight.  The pod manager's operations are called by the replica set
  controller and by the recovery; they begin without looking for the pod.
\<close>

type_synonym ('f, 'b) inflight = "('f, 'b) Server \<times> task list"

inductive req_step :: "('f, 'b) api_env \<Rightarrow> ('f, 'b) inflight \<Rightarrow> ('f, 'b) inflight \<Rightarrow> bool"
  for A :: "('f, 'b) api_env" where
  create: "create_launch A rq s = ((resp, p), s') \<Longrightarrow>
    req_step A (s, ts) (s', map Storing (case p of None \<Rightarrow> [] | Some pod \<Rightarrow> [pod]) @ ts)"
| get: "get_read A rq s = (resp, p) \<Longrightarrow>
    req_step A (s, ts) (s, map Refreshing (case p of None \<Rightarrow> [] | Some pod \<Rightarrow> [pod]) @ ts)"
| delete: "loadPod ns n s \<noteq> None \<Longrightarrow> req_step A (s, ts) (s, [Terminating ns n] @ ts)"
| manager_launch: "req_step A (s, ts) (storePod (ae_srv A) pod s, [Launching pod] @ ts)"
| manager_delete: "req_step A (s, ts) (s, [Terminating ns n] @ ts)"
| proceed: "t \<in> set ts \<Longrightarrow> run_task (ae_srv A) t s = (ts', s') \<Longrightarrow> req_step A (s, ts) (s', ts' @ remove1 t ts)"
| background: "lm_background (srv_lm_env (ae_srv A) s) (srv_lifecycle s) lm \<Longrightarrow>
    req_step A (s, ts) (s\<lparr>srv_lifecycle := lm\<rparr>, ts)"

inductive req_steps :: "('f, 'b) api_env \<Rightarrow> ('f, 'b) inflight \<Rightarrow> ('f, 'b) inflight \<Rightarrow> bool"
  for A :: "('f, 'b) api_env" and x where
  refl: "req_steps A x x"
| step: "req_steps A x y \<Longrightarrow> req_step A y z \<Longrightarrow> req_steps A x z"

text \<open>Runs with no two requests for the same pod in flight.\<close>

inductive serial_steps :: "('f, 'b) api_env \<Rightarrow> ('f, 'b) inflight \<Rightarrow> ('f, 'b) inflight \<Rightarrow> bool"
  for A :: "('f, 'b) api_env" and x where
  refl: "serial_steps A x x"
| step: "serial_steps A x y \<Longrightarrow> req_step A y z \<Longrightarrow> distinct (map task_key (snd z)) \<Longrightarrow> serial_steps A x z"

section \<open>Requests for different pods\<close>

fun task_ok :: "('f, 'b) Server \<Rightarrow> task \<Rightarrow> bool" where
  "task_ok s (Storing pod) = (running pod \<longrightarrow> managed s (pod_key pod))"
| "task_ok s (Refreshing pod) = managed s (pod_key pod)"
| "task_ok s (Deleting ns n) = (\<not> managed s (podKey ns n))"
| "task_ok s t = True"

text \<open>The tables agree about a pod that no request is about.\<close>

definition key_ok :: "('f, 'b) Server \<Rightarrow> string \<Rightarrow> bool" where
  "key_ok s k \<longleftrightarrow> (managed s k \<longrightarrow> tlookup (srv_pods s) k \<noteq> None) \<and>
     (\<forall>p. tlookup (srv_pods s) k = Some p \<longrightarrow> running p \<longrightarrow> managed s k)"

definition tables_ok :: "('f, 'b) Server \<Rightarrow> bool" where
  "tables_ok s \<longleftrightarrow> lm_tab (srv_lifecycle s) \<and> tdistinct (srv_pods s) \<and>
     (\<forall>k p. tlookup (srv_pods s) k = Some p \<longrightarrow> k = pod_key p)"

definition same_at :: "string \<Rightarrow> ('f, 'b) Server \<Rightarrow> ('f, 'b) Server \<Rightarrow> bool" where
  "same_at k s s' \<longleftrightarrow> tlookup (srv_pods s') k = tlookup (srv_pods s) k \<and>
     tlookup (lm_pods (srv_lifecycle s')) k = tlookup (lm_pods (srv_lifecycle s)) k"

fun flight_ok :: "('f, 'b) inflight \<Rightarrow> bool" where
  "flight_ok (s, ts) \<longleftrightarrow> tables_ok s \<and> (\<forall>t \<in> set ts. task_ok s t) \<and> (\<forall>k. k \<notin> task_key ` set ts \<longrightarrow> key_ok s k)"

lemma same_at_ok: "same_at (task_key t) s s' \<Longrightarrow> task_ok s' t = task_ok s t" "same_at k s s' \<Longrightarrow> key_ok s' k = key_ok s k"
  by (cases t; simp add: same_at_def) (simp add: same_at_def key_ok_def)

text \<open>A step that touches one pod, whose tasks it replaces.\<close>

lemma flight_ok_local:
  assumes "flight_ok (s, ts)" "tables_ok s'" "\<And>k. k \<noteq> k0 \<Longrightarrow> same_at k s s'"
    and "set ts0 \<subseteq> set ts" "k0 \<notin> task_key ` set ts0" "\<And>t. t \<in> set ts \<Longrightarrow> task_key t \<noteq> k0 \<Longrightarrow> t \<in> set ts0"
    and "\<And>t. t \<in> set new \<Longrightarrow> task_key t = k0 \<and> task_ok s' t" "new = [] \<Longrightarrow> key_ok s' k0"
  shows "flight_ok (s', new @ ts0)"
proof -
  have "task_ok s' t" if "t \<in> set (new @ ts0)" for t
    using that assms(1,4,5,7) same_at_ok(1) [OF assms(3), of t] by auto
  moreover have "key_ok s' k" if k: "k \<notin> task_key ` set (new @ ts0)" for k
  proof (cases "k = k0")
    case True
    then have "new = []" using k assms(7) by (cases new) auto
    then show ?thesis using assms(8) True by simp
  next
    case False
    then have "k \<notin> task_key ` set ts" using k assms(6) by auto
    then show ?thesis using assms(1) same_at_ok(2) [OF assms(3) [OF False]] by simp
  qed
  ultimately show ?thesis using assms(2) by simp
qed

lemma storePod_same: "k \<noteq> pod_key pod \<Longrightarrow> same_at k s (storePod V pod s)"
  by (simp add: same_at_def)

lemma tables_ok_store: "tables_ok s \<Longrightarrow> tables_ok (storePod V pod s)"
  by (auto simp: tables_ok_def split: if_splits)

text \<open>A launch: the pod that is to be stored says that it runs only when it is managed.\<close>

lemma launch_ok:
  assumes "tables_ok s" "Launch E pod engineType target env (srv_lifecycle s) = ((r, pod1), lm)"
    and "p = (case r of Some err \<Rightarrow> failed_pod V err pod1 | None \<Rightarrow> running_pod pod1)" "s' = s\<lparr>srv_lifecycle := lm\<rparr>"
  shows "tables_ok s'" "pod_key p = pod_key pod" "running p \<Longrightarrow> managed s' (pod_key p)"
    "k \<noteq> pod_key pod \<Longrightarrow> same_at k s s'"
proof -
  have tab: "lm_tab (srv_lifecycle s)" using assms(1) by (simp add: tables_ok_def)
  note l = Launch_pods [OF tab assms(2)]
  show "tables_ok s'" using assms(1,4) Launch_tab [OF tab assms(2)] by (simp add: tables_ok_def)
  have m: "pod_Metadata p = pod_Metadata pod" using Launch_pod_meta [OF assms(2)] by (simp add: assms(3) split: option.splits)
  show k: "pod_key p = pod_key pod" by (rule pod_key_meta [OF m])
  have "\<not> running (failed_pod V e pod1)" for e
    by (simp add: running_def PodFailed_def PodRunning_def PodPending_def)
  then show "running p \<Longrightarrow> managed s' (pod_key p)" using l k by (auto simp: assms(3,4) split: option.splits)
  show "k \<noteq> pod_key pod \<Longrightarrow> same_at k s s'" using l by (simp add: same_at_def assms(4))
qed

lemma create_launch_ok:
  fixes s :: "('f, 'b) Server"
  assumes "tables_ok s" "create_launch A rq s = ((resp, p), s')"
  shows "p = None \<and> s' = s \<or> (\<exists>pod. p = Some pod \<and> tables_ok s' \<and> task_ok s' (Storing pod) \<and>
    (\<forall>k. k \<noteq> pod_key pod \<longrightarrow> same_at k s s'))"
proof (cases p)
  case (Some pod)
  then obtain E pod0 engineType target env r pod1 lm
    where l: "Launch (E :: ('f World, 'b) lm_env) pod0 engineType target env (srv_lifecycle s) = ((r, pod1), lm)"
      and p: "pod = (case r of Some err \<Rightarrow> failed_pod (ae_srv A) err pod1 | None \<Rightarrow> running_pod pod1)"
      and s': "s' = s\<lparr>srv_lifecycle := lm\<rparr>"
    using assms(2) by (auto simp: create_launch_def Let_def split: sum.splits prod.splits option.splits)
  note ok = launch_ok [OF assms(1) l p s']
  show ?thesis using ok(1,3,4) by (simp add: ok(2) Some)
qed (use assms(2) in \<open>auto simp: create_launch_def Let_def split: sum.splits prod.splits option.splits\<close>)

lemma launch_rest_ok:
  fixes s :: "('f, 'b) Server"
  assumes "tables_ok s" "launch_rest V pod s = ((r, p), s')"
  shows "tables_ok s' \<and> pod_key p = pod_key pod \<and> task_ok s' (Storing p) \<and> (\<forall>k. k \<noteq> pod_key pod \<longrightarrow> same_at k s s')"
proof (cases "ExtractEngineConfig (\<lambda>p. h_Stat (se_host V) p (srv_os s)) pod")
  case (Inl e)
  then have p: "p = failed_pod V e pod" "s' = s" using assms(2) by (simp_all add: launch_rest_def)
  have "pod_key p = pod_key pod" by (rule pod_key_meta) (simp add: p)
  then show ?thesis using assms(1)
    by (simp add: p same_at_def running_def PodFailed_def PodRunning_def PodPending_def)
next
  case (Inr et)
  then obtain E engineType target env pod1 lm
    where l: "Launch (E :: ('f World, 'b) lm_env) (pending_pod V s pod) engineType target env (srv_lifecycle s) = ((r, pod1), lm)"
      and p: "p = (case r of Some err \<Rightarrow> failed_pod V err pod1 | None \<Rightarrow> running_pod pod1)"
      and s': "s' = s\<lparr>srv_lifecycle := lm\<rparr>"
    using assms(2) by (auto simp: launch_rest_def Let_def split: prod.splits)
  have k: "pod_key (pending_pod V s pod) = pod_key pod" by (rule pod_key_meta) simp
  note ok = launch_ok [OF assms(1) l p s', unfolded k]
  show ?thesis using ok by simp
qed

lemma get_read_ok:
  assumes "tables_ok s" "get_read A rq s = (resp, Some pod)"
  shows "managed s (pod_key pod)"
proof -
  obtain p status where p: "loadPod (rq_ns rq) (rq_name rq) s = Some p" "pod = p\<lparr>pod_Status := status\<rparr>"
    and st: "LM_Status (srv_lm_env (ae_srv A) s) (rq_ns rq) (rq_name rq) (srv_lifecycle s) = Some status"
    using assms(2) by (auto simp: get_read_def split: option.splits)
  have "pod_key p = podKey (rq_ns rq) (rq_name rq)" using assms(1) p(1) by (simp add: tables_ok_def loadPod_def podKey_def)
  then have "pod_key pod = podKey (rq_ns rq) (rq_name rq)" using p(2) pod_key_meta [of pod p] by simp
  then show ?thesis using st by (auto simp: LM_Status_def load_pod_def split: option.splits)
qed

lemma terminate_ok:
  assumes "tables_ok s" "s' = s\<lparr>srv_lifecycle := snd (Terminate E ns n (srv_lifecycle s))\<rparr>"
  shows "tables_ok s' \<and> \<not> managed s' (podKey ns n) \<and> (\<forall>k. k \<noteq> podKey ns n \<longrightarrow> same_at k s s')"
proof -
  obtain r lm where t: "Terminate E ns n (srv_lifecycle s) = (r, lm)" by (meson surj_pair)
  have tab: "lm_tab (srv_lifecycle s)" using assms(1) by (simp add: tables_ok_def)
  show ?thesis using Terminate_tab [OF tab t] assms by (simp add: t tables_ok_def same_at_def)
qed

lemma run_task_ok:
  assumes "flight_ok (s, ts)" "t \<in> set ts" "distinct (map task_key ts)" "run_task V t s = (ts', s')"
  shows "flight_ok (s', ts' @ remove1 t ts)"
proof -
  have ok: "tables_ok s" "task_ok s t" using assms(1,2) by auto
  have d: "distinct ts" "inj_on task_key (set ts)" using assms(3) by (simp_all add: distinct_map)
  note frame = flight_ok_local [OF assms(1), of _ "task_key t" "remove1 t ts" ts']
  have ts0: "set (remove1 t ts) \<subseteq> set ts" "task_key t \<notin> task_key ` set (remove1 t ts)"
      "\<And>u. u \<in> set ts \<Longrightarrow> task_key u \<noteq> task_key t \<Longrightarrow> u \<in> set (remove1 t ts)"
    using d assms(2) by (auto simp: set_remove1_eq dest: inj_onD)
  show ?thesis
  proof (cases t)
    case (Launching pod)
    obtain r p s1 where l: "launch_rest V pod s = ((r, p), s1)" by (metis surj_pair)
    then have eq: "ts' = [Storing p]" "s' = s1" using assms(4) Launching by auto
    show ?thesis
      using launch_rest_ok [OF ok(1) l] by (intro frame ts0) (auto simp: Launching eq)
  next
    case (Storing pod)
    then have eq: "ts' = []" "s' = storePod V pod s" using assms(4) by auto
    show ?thesis
      using ok by (intro frame ts0) (auto simp: Storing eq tables_ok_store storePod_same key_ok_def)
  next
    case (Refreshing pod)
    then have eq: "ts' = []" "s' = storePod V pod s" using assms(4) by auto
    show ?thesis
      using ok by (intro frame ts0) (auto simp: Refreshing eq tables_ok_store storePod_same key_ok_def)
  next
    case (Terminating ns n)
    then have eq: "ts' = [Deleting ns n]" "s' = s\<lparr>srv_lifecycle := snd (Terminate (srv_lm_env V s) ns n (srv_lifecycle s))\<rparr>"
      using assms(4) by auto
    show ?thesis
      using terminate_ok [OF ok(1) eq(2)] by (intro frame ts0) (auto simp: Terminating eq(1))
  next
    case (Deleting ns n)
    then have eq: "ts' = []" "s' = deletePod V ns n s" using assms(4) by auto
    show ?thesis
      using ok by (intro frame ts0) (auto simp: Deleting eq tables_ok_def same_at_def key_ok_def)
  qed
qed

lemma flight_ok_begin:
  assumes "flight_ok (s, ts)" "tables_ok s'" "\<And>k. k \<noteq> task_key t \<Longrightarrow> same_at k s s'" "task_ok s' t"
    and "distinct (map task_key ([t] @ ts))"
  shows "flight_ok (s', [t] @ ts)"
  by (rule flight_ok_local [OF assms(1-3)]) (use assms(4,5) in auto)

lemma same_at_refl: "same_at k s s"
  by (simp add: same_at_def)

lemma req_step_ok:
  assumes "req_step A x y" "flight_ok x" "distinct (map task_key (snd x))" "distinct (map task_key (snd y))"
  shows "flight_ok y"
  using assms
proof (induction rule: req_step.induct)
  case (create rq s resp p s' ts)
  have tab: "tables_ok s" using create.prems(1) by simp
  show ?case
  proof (cases p)
    case None
    then have "s' = s" using create_launch_ok [OF tab create.hyps] by auto
    then show ?thesis using create.prems(1) None by simp
  next
    case (Some pod)
    then show ?thesis
      using create_launch_ok [OF tab create.hyps] create.prems flight_ok_begin [OF create.prems(1), of s' "Storing pod"] by auto
  qed
next
  case (get rq s resp p ts)
  then show ?case
    using get_read_ok [of s A rq resp] flight_ok_begin [OF get.prems(1), of s] same_at_refl by (cases p) auto
next
  case (delete ns n s ts)
  then show ?case using flight_ok_begin [OF delete.prems(1), of s "Terminating ns n"] same_at_refl by auto
next
  case (manager_launch s ts pod)
  then show ?case
    using flight_ok_begin [OF manager_launch.prems(1), of "storePod (ae_srv A) pod s" "Launching pod"]
      tables_ok_store [of s "ae_srv A" pod] storePod_same [of _ pod s "ae_srv A"] by auto
next
  case (manager_delete s ts ns n)
  then show ?case using flight_ok_begin [OF manager_delete.prems(1), of s "Terminating ns n"] same_at_refl by auto
next
  case (proceed t ts s ts' s')
  then show ?case using run_task_ok [OF proceed.prems(1) proceed.hyps(1)] by auto
next
  case (background s lm ts)
  note c = background_core [OF background.hyps]
  have same: "same_at k s (s\<lparr>srv_lifecycle := lm\<rparr>)" for k using c by (simp add: same_at_def core_same_def)
  have "tables_ok (s\<lparr>srv_lifecycle := lm\<rparr>)"
    using background.prems(1) lm_tab_core [OF c] by (simp add: tables_ok_def)
  then show ?case using background.prems(1) same_at_ok [OF same] by simp
qed

lemma serial_steps_ok:
  assumes "serial_steps A (s0, []) x" "flight_ok (s0, [])"
  shows "flight_ok x \<and> distinct (map task_key (snd x))"
  using assms(1)
proof (induction rule: serial_steps.induct)
  case (step y z)
  then show ?case using req_step_ok by blast
qed (use assms(2) in simp)

section \<open>Two requests for the same pod\<close>

lemma create_launch_created:
  assumes "create_launch A rq s = ((resp, Some pod), s')" "rp_code resp = 201"
  shows "running pod"
  using assms
  by (auto simp: create_launch_def Let_def writeStatus_def running_def running_pod_def split: sum.splits prod.splits option.splits)

lemma managed_load_pod: "tables_ok s \<Longrightarrow> load_pod (srv_lifecycle s) k \<noteq> None \<longleftrightarrow> managed s k"
  unfolding tables_ok_def lm_tab_def load_pod_def by (fastforce split: option.splits)

lemma req_steps_proceed:
  assumes "req_steps A x (s, ts)" "t \<in> set ts" "ts2 = fst (run_task (ae_srv A) t s) @ remove1 t ts"
    "s2 = snd (run_task (ae_srv A) t s)"
  shows "req_steps A x (s2, ts2)"
  by (rule req_steps.step [OF assms(1)]) (use assms(2-) in \<open>auto intro: req_step.proceed\<close>)

text \<open>A daemon without pods is sent one.\<close>

lemma demo_create:
  assumes "srv_lifecycle s = new_daemon ()"
  obtains resp pod s' where "create_launch demo_A (at_path ''default'' [] demo_rq) s = ((resp, Some pod), s')"
    "rp_code resp = 201" "pod_key pod = ''default/web''"
proof -
  define p where "p = posted_pod\<lparr>pod_Metadata := stamp demo_A (at_path ''default'' [] demo_rq) s (pod_Metadata posted_pod),
    pod_TypeMeta := \<lparr>tm_APIVersion = ''v1'', tm_Kind = ''Pod''\<rparr>\<rparr>"
  have meta: "pod_Spec p = zero_PodSpec" "om_UID (pod_Metadata p) = ''u1''"
      "om_Annotations (pod_Metadata p) = Some [(''lok8s.io/executable-path'', ''app'')]"
      "om_Name (pod_Metadata p) = ''web''" "om_Namespace (pod_Metadata p) = ''default''"
    by (simp_all add: posted_pod_def zero_Pod_def stamp_def demo_rq_def at_path_def zero_ObjectMeta_def AnnotationExecutablePath_def p_def)
  have c: "ExtractEngineConfig f p = Inr (''native'', ''app'')" for f
    by (simp add: ExtractEngineConfig_def meta mlookup_def AnnotationExecutablePath_def AnnotationWasmModule_def EngineNative_def)
  let ?E = "srv_lm_env demo_V s" and ?q = "pending_pod demo_V s p"
  define env where "env = CollectEnvVars (ps_Containers (pod_Spec p)) @
    GenerateServiceEnv (se_host demo_V) ''default'' (srv_services s, srv_db s) (srv_proxyManager s)"
  have "fst (fst (Launch ?E ?q ''native'' ''app'' env (new_daemon ()))) = None"
    by (rule demo_Launch_plain) (simp_all add: meta pending_pod_def mlookup_def)
  then obtain pod1 lm where l: "Launch ?E ?q ''native'' ''app'' env (new_daemon ()) = ((None, pod1), lm)"
    by (metis prod.collapse)
  have m: "pod_Metadata pod1 = pod_Metadata p" using Launch_pod_meta [OF l] by simp
  have "Parse (snd (sg_Pod (stg demo_A))) (ae_yaml_Pod demo_A) ''pod'' = Inr posted_pod"
    by (simp add: Parse_def parse_with_def demo_A_def posted_pod_def)
  then have "create_launch demo_A (at_path ''default'' [] demo_rq) s =
      ((reply 201 (BPod (running_pod pod1)), Some (running_pod pod1)), s\<lparr>srv_lifecycle := lm\<rparr>)"
    using l c assms unfolding p_def env_def
    by (simp add: create_launch_def at_path_def demo_rq_def demo_A_def Let_def)
  moreover have "pod_key (running_pod pod1) = ''default/web''" by (simp add: pod_key_def podKey_def m meta)
  ultimately show thesis using that by (simp add: reply_def)
qed

lemma demo_server_facts:
  "srv_lifecycle demo_server = new_daemon ()" "srv_pods demo_server = []" "tables_ok demo_server"
  "RecoverState demo_V demo_server = demo_server"
proof -
  show l: "srv_lifecycle demo_server = new_daemon ()" and p: "srv_pods demo_server = []"
    by (simp_all add: demo_server_def NewServer_def kv_load_def)
  show "tables_ok demo_server"
    using lm_tab_new by (simp add: tables_ok_def l p new_daemon_def)
  have "ServiceStore_List [] (srv_services demo_server, srv_db demo_server) = []"
    by (simp add: demo_server_def NewServer_def NewServiceStore_def kv_load_def ServiceStore_List_def)
  then show "RecoverState demo_V demo_server = demo_server" by (simp add: RecoverState_def allPods_def p)
qed

section \<open>Properties\<close>

text \<open>C6: Requests for different pods do not disturb each other.  From a recovered daemon, however
  the calls of requests, of the pod manager's operations and of the goroutines interleave, as long
  as no two requests in flight are for the same pod: for every pod that no request in flight is
  for, the tables agree.  If it is managed it is stored, and if it is recorded as running or
  pending it is managed.\<close>

theorem serial_requests_agree:
  assumes "kv_wf pod_Metadata (kv_load (sg_bolt (stg A)) (sg_Pod (stg A)) ''pods'' db)"
    and "s0 = RecoverState (ae_srv A) (NewServer (ae_srv A) (NewLifecycleManager pool w) configStore controllerStore db)"
    and "serial_steps A (s0, []) (s, ts)" "podKey ns n \<notin> task_key ` set ts"
  shows "(load_pod (srv_lifecycle s) (podKey ns n) \<noteq> None \<longrightarrow> loadPod ns n s \<noteq> None) \<and>
    (\<forall>p. loadPod ns n s = Some p \<and> (st_Phase (pod_Status p) = PodRunning \<or> st_Phase (pod_Status p) = PodPending) \<longrightarrow>
       load_pod (srv_lifecycle s) (podKey ns n) \<noteq> None)"
proof -
  note ok0 = srv_ok_NewServer [OF assms(1), of pool w configStore controllerStore]
  have ok: "srv_ok s0" unfolding assms(2) by (rule srv_ok_RecoverState [OF ok0])
  have "flight_ok (s0, [])"
    using ok RecoverState_manages [OF ok0] assms(2) by (auto simp: tables_ok_def srv_ok_def key_ok_def)
  then have "flight_ok (s, ts)" using serial_steps_ok [OF assms(3)] by blast
  then have k: "tables_ok s" "key_ok s (podKey ns n)" using assms(4) by auto
  have l: "loadPod ns n s = tlookup (srv_pods s) (podKey ns n)" by (simp add: loadPod_def podKey_def)
  show ?thesis using k(2) unfolding managed_load_pod [OF k(1)] l by (auto simp: key_ok_def running_def)
qed

theorem serial_requests_agree_witness:
  "\<exists>s. serial_steps demo_A (RecoverState demo_V demo_server, []) (s, []) \<and>
     load_pod (srv_lifecycle s) ''default/web'' \<noteq> None \<and> loadPod ''default'' ''web'' s \<noteq> None"
proof -
  obtain resp pod s' where c: "create_launch demo_A (at_path ''default'' [] demo_rq) demo_server = ((resp, Some pod), s')"
    "rp_code resp = 201" "pod_key pod = ''default/web''" by (rule demo_create [OF demo_server_facts(1)])
  let ?s = "storePod (ae_srv demo_A) pod s'"
  have "req_step demo_A (demo_server, []) (s', [Storing pod])" using req_step.create [OF c(1), of "[]"] by simp
  then have "serial_steps demo_A (demo_server, []) (s', [Storing pod])"
    by (rule serial_steps.step [OF serial_steps.refl]) simp
  then have steps: "serial_steps demo_A (demo_server, []) (?s, [])"
    by (rule serial_steps.step) (use req_step.proceed [of "Storing pod" "[Storing pod]" demo_A s'] in simp_all)
  have k: "podKey ''default'' ''web'' = ''default/web''" by (simp add: podKey_def)
  have "tables_ok s'" "managed s' ''default/web''"
    using create_launch_ok [OF demo_server_facts(3) c(1)] create_launch_created [OF c(1,2)] c(3) by auto
  then have m: "load_pod (srv_lifecycle ?s) ''default/web'' \<noteq> None" using managed_load_pod [of s'] by simp
  have wf: "kv_wf pod_Metadata (kv_load (sg_bolt (stg demo_A)) (sg_Pod (stg demo_A)) ''pods'' None)"
    by (simp add: kv_load_def kv_wf_def)
  have V: "ae_srv demo_A = demo_V" by (simp add: demo_A_def)
  have new: "NewServer demo_V (NewLifecycleManager (NewPortPool 30000 32767) (lm_world (new_daemon ())))
      (fst empty_cfg) (fst empty_ctl) None = demo_server"
    by (simp add: demo_server_def new_daemon_def NewLifecycleManager_def)
  have "loadPod ''default'' ''web'' ?s \<noteq> None"
    using serial_requests_agree [of demo_A None demo_server "NewPortPool 30000 32767" "lm_world (new_daemon ())"
        "fst empty_cfg" "fst empty_ctl" ?s "[]" "''default''" "''web''", unfolded V new, OF wf [unfolded V]]
      steps m demo_server_facts(4) unfolding k V by simp
  then show ?thesis using steps m unfolding demo_server_facts(4) by blast
qed

text \<open>C36: A pod nobody can stop.  If a pod is deleted and created again at the same time, its launch
  can fall between the termination of the old one and the deletion of its record, which is then the
  record of the new one.  The pod runs, and requests to read or to delete it are answered with
  404.\<close>

theorem delete_create_race:
  assumes "tables_ok s" "loadPod ns n s = Some old"
    and "s1 = snd (run_task (ae_srv A) (Terminating ns n) s)"
    and "create_launch A rq s1 = ((resp, Some pod), s2)" "rp_code resp = 201" "pod_key pod = podKey ns n"
  shows "\<exists>s'. req_steps A (s, []) (s', []) \<and> load_pod (srv_lifecycle s') (podKey ns n) \<noteq> None \<and>
    rp_code (fst (handleGetPod A (at_path ns n rq') s')) = 404 \<and>
    rp_code (fst (handleDeletePod A (at_path ns n rq') s')) = 404"
proof -
  let ?V = "ae_srv A" and ?s' = "deletePod (ae_srv A) ns n (storePod (ae_srv A) pod s2)"
  have "req_steps A (s, []) (s, [Terminating ns n])"
    using req_steps.step [OF req_steps.refl req_step.delete, of ns n s A "[]"] assms(2) by simp
  then have "req_steps A (s, []) (s1, [Deleting ns n])"
    by (rule req_steps_proceed [of _ _ _ _ "Terminating ns n"]) (simp_all add: assms(3))
  then have "req_steps A (s, []) (s2, [Storing pod, Deleting ns n])"
    by (rule req_steps.step) (use req_step.create [OF assms(4)] in simp)
  then have "req_steps A (s, []) (storePod ?V pod s2, [Deleting ns n])"
    by (rule req_steps_proceed [of _ _ _ _ "Storing pod"]) simp_all
  then have steps: "req_steps A (s, []) (?s', [])"
    by (rule req_steps_proceed [of _ _ _ _ "Deleting ns n"]) simp_all
  have tab: "tables_ok s1" using terminate_ok [OF assms(1), of s1 "srv_lm_env (ae_srv A) s" ns n] assms(3) by simp
  have c: "tables_ok s2" "managed s2 (podKey ns n)"
    using create_launch_ok [OF tab assms(4)] create_launch_created [OF assms(4,5)] assms(6) by auto
  have "load_pod (srv_lifecycle ?s') (podKey ns n) \<noteq> None" using managed_load_pod [OF c(1)] c(2) by simp
  moreover have "loadPod ns n ?s' = None" by (simp add: loadPod_def podKey_def)
  ultimately show ?thesis
    using steps by (intro exI [of _ ?s']) (simp add: handleGetPod_def handleDeletePod_def at_path_def writeStatus_def)
qed

theorem delete_create_race_witness:
  "\<exists>s s'. req_steps demo_A (s, []) (s', []) \<and> load_pod (srv_lifecycle s') ''default/web'' \<noteq> None \<and>
     rp_code (fst (handleDeletePod demo_A (at_path ''default'' ''web'' demo_rq) s')) = 404"
proof -
  let ?old = "posted_pod\<lparr>pod_Metadata := (pod_Metadata posted_pod)\<lparr>om_Namespace := ''default''\<rparr>\<rparr>"
  let ?s = "storePod demo_V ?old demo_server"
  have V: "ae_srv demo_A = demo_V" by (simp add: demo_A_def)
  have k: "podKey ''default'' ''web'' = ''default/web''" "pod_key ?old = ''default/web''"
    by (simp_all add: podKey_def pod_key_def posted_pod_def)
  have "load_pod (srv_lifecycle ?s) (podKey ''default'' ''web'') = None"
    by (simp add: demo_server_facts load_pod_def new_daemon_def NewLifecycleManager_def)
  note t = Terminate_unmanaged [OF this, of "srv_lm_env (ae_srv demo_A) ?s"]
  have s1: "snd (run_task (ae_srv demo_A) (Terminating ''default'' ''web'') ?s) = ?s"
    unfolding run_task.simps t snd_conv by simp
  have old: "loadPod ''default'' ''web'' ?s = Some ?old" by (simp add: loadPod_def k)
  obtain resp pod s2 where c: "create_launch demo_A (at_path ''default'' [] demo_rq) ?s = ((resp, Some pod), s2)"
    "rp_code resp = 201" "pod_key pod = ''default/web''" by (rule demo_create [of ?s]) (simp add: demo_server_facts)
  show ?thesis
    using delete_create_race [OF tables_ok_store [OF demo_server_facts(3)] old s1 [symmetric] c(1,2), of demo_rq] c(3)
    unfolding k by blast
qed

text \<open>Reading a pod can undo its deletion.  A request for a managed pod stores the status it has
  read; if the pod is deleted in between, its record comes back, although the pod is not managed any
  more.  It is reported with the old status, and launched again at the next start if that says it
  was running.\<close>

theorem get_delete_race:
  assumes "tables_ok s" "loadPod ns n s = Some p"
    and "LM_Status (srv_lm_env (ae_srv A) s) ns n (srv_lifecycle s) = Some status"
  shows "\<exists>s'. req_steps A (s, []) (s', []) \<and> load_pod (srv_lifecycle s') (podKey ns n) = None \<and>
    loadPod ns n s' = Some (p\<lparr>pod_Status := status\<rparr>)"
proof -
  let ?V = "ae_srv A" and ?p = "p\<lparr>pod_Status := status\<rparr>"
  let ?s1 = "snd (run_task (ae_srv A) (Terminating ns n) s)"
  let ?s' = "storePod ?V ?p (deletePod ?V ns n ?s1)"
  have "pod_key p = podKey ns n" using assms(1,2) by (simp add: tables_ok_def loadPod_def podKey_def)
  then have key: "pod_key ?p = podKey ns n" using pod_key_meta [of ?p p] by simp
  obtain rq :: request where rq: "rq_ns rq = ns" "rq_name rq = n"
    by (rule that [of "\<lparr>rq_ns = ns, rq_name = n, rq_body = Inr [], rq_query = \<lambda>_. [], rq_accept = [], rq_flusher = False, rq_uuid = []\<rparr>"]) simp_all
  have g: "get_read A rq s = (reply 200 (BPod ?p), Some ?p)" using assms(2,3) by (simp add: get_read_def rq)
  have "req_steps A (s, []) (s, [Refreshing ?p])"
    using req_steps.step [OF req_steps.refl req_step.get [OF g], of "[]"] by simp
  then have "req_steps A (s, []) (s, [Terminating ns n, Refreshing ?p])"
    by (rule req_steps.step) (use req_step.delete [of ns n s A "[Refreshing ?p]"] assms(2) in simp)
  then have "req_steps A (s, []) (?s1, [Deleting ns n, Refreshing ?p])"
    by (rule req_steps_proceed [of _ _ _ _ "Terminating ns n"]) simp_all
  then have "req_steps A (s, []) (deletePod ?V ns n ?s1, [Refreshing ?p])"
    by (rule req_steps_proceed [of _ _ _ _ "Deleting ns n"]) simp_all
  then have steps: "req_steps A (s, []) (?s', [])"
    by (rule req_steps_proceed [of _ _ _ _ "Refreshing ?p"]) simp_all
  have t: "tables_ok ?s1" "\<not> managed ?s1 (podKey ns n)"
    using terminate_ok [OF assms(1), of ?s1 "srv_lm_env ?V s" ns n] by simp_all
  have "load_pod (srv_lifecycle ?s1) (podKey ns n) = None" using managed_load_pod [OF t(1)] t(2) by blast
  then have "load_pod (srv_lifecycle ?s') (podKey ns n) = None" by simp
  moreover have "loadPod ns n ?s' = Some ?p" using key by (simp add: loadPod_def podKey_def)
  ultimately show ?thesis using steps by blast
qed

theorem get_delete_race_witness:
  "\<exists>s'. req_steps demo_A (demo_posted, []) (s', []) \<and> load_pod (srv_lifecycle s') ''default/web'' = None \<and>
     loadPod ''default'' ''web'' s' \<noteq> None"
proof -
  have wf: "kv_wf pod_Metadata (kv_load (sg_bolt (stg demo_A)) (sg_Pod (stg demo_A)) ''pods'' None)"
    by (simp add: kv_load_def kv_wf_def)
  have ok: "srv_ok demo_posted" by (rule srv_reachable_ok [OF demo_posted_reachable srv_ok_NewServer [OF wf]])
  have k: "podKey ''default'' ''web'' = ''default/web''" by (simp add: podKey_def)
  obtain a mp where m: "load_pod (srv_lifecycle demo_posted) ''default/web'' = Some (a, mp)"
    using demo_posted_managed by auto
  obtain status where st: "LM_Status (srv_lm_env (ae_srv demo_A) demo_posted) ''default'' ''web'' (srv_lifecycle demo_posted) = Some status"
    by (cases "Registry_Get (le_registry (srv_lm_env (ae_srv demo_A) demo_posted)) (mp_engineType mp)")
      (simp_all add: LM_Status_def k m Let_def)
  obtain p where p: "loadPod ''default'' ''web'' demo_posted = Some p"
    using ok load_podD [OF m] by (auto simp: srv_ok_def loadPod_def)
  have "tables_ok demo_posted" using ok by (simp add: srv_ok_def tables_ok_def)
  from get_delete_race [OF this p st] show ?thesis unfolding k by auto
qed

end
