(* ===== verification/Main_Loop.thy ===== *)
theory Main_Loop
  imports Races
begin

text \<open>
  The loops of the daemon: the goroutines of the two controllers (\<open>Start\<close> and \<open>Stop\<close> of
  \<open>controller/replicaset.go\<close> and \<open>controller/deployment.go\<close>) and the main goroutine (\<open>runServer\<close> of
  \<open>main.go\<close> with \<open>ListenAndServe\<close> and \<open>Shutdown\<close> of \<open>api/server.go\<close>), as steps that interleave.
\<close>

section \<open>The controllers\<close>

text \<open>
  Of a controller: whether its channel \<open>stopCh\<close> is closed and the count of its wait group.  \<open>Start\<close>
  counts a goroutine, which counts itself off when it returns.  Closing a closed channel is a
  run-time panic (\<open>None\<close>); after it, \<open>Stop\<close> waits for the count to be zero.
\<close>

record ReplicaSetController =
  rsc_stopCh :: bool
  rsc_wg :: nat

definition NewReplicaSetController :: ReplicaSetController where
  "NewReplicaSetController = \<lparr>rsc_stopCh = False, rsc_wg = 0\<rparr>"

definition RSC_Start :: "ReplicaSetController \<Rightarrow> ReplicaSetController" where
  "RSC_Start c = c\<lparr>rsc_wg := Suc (rsc_wg c)\<rparr>"

definition RSC_return :: "ReplicaSetController \<Rightarrow> ReplicaSetController" where
  "RSC_return c = c\<lparr>rsc_wg := rsc_wg c - 1\<rparr>"

definition RSC_Stop :: "ReplicaSetController \<Rightarrow> ReplicaSetController option" where
  "RSC_Stop c = (if rsc_stopCh c then None else Some (c\<lparr>rsc_stopCh := True\<rparr>))"

record DeploymentController =
  dc_stopCh :: bool
  dc_wg :: nat

definition NewDeploymentController :: DeploymentController where
  "NewDeploymentController = \<lparr>dc_stopCh = False, dc_wg = 0\<rparr>"

definition DC_Start :: "DeploymentController \<Rightarrow> DeploymentController" where
  "DC_Start c = c\<lparr>dc_wg := Suc (dc_wg c)\<rparr>"

definition DC_return :: "DeploymentController \<Rightarrow> DeploymentController" where
  "DC_return c = c\<lparr>dc_wg := dc_wg c - 1\<rparr>"

definition DC_Stop :: "DeploymentController \<Rightarrow> DeploymentController option" where
  "DC_Stop c = (if dc_stopCh c then None else Some (c\<lparr>dc_stopCh := True\<rparr>))"

text \<open>
  A controller at work: \<open>lo_done\<close> says that its context is cancelled, \<open>lo_stop\<close> how far a call of
  \<open>Stop\<close> has come, and \<open>lo_ticks\<close> counts the reconciliations.  The goroutine selects among the ticker
  and the two channels, at random when several are ready, so that it may still reconcile when one of
  them is closed.
\<close>

datatype stopping = NotStopped | Waiting | Stopped

record 'c looping =
  lo_ctl :: 'c
  lo_done :: bool
  lo_stop :: stopping
  lo_ticks :: nat

inductive loop_step :: "('c \<Rightarrow> bool) \<Rightarrow> ('c \<Rightarrow> nat) \<Rightarrow> ('c \<Rightarrow> 'c) \<Rightarrow> ('c \<Rightarrow> 'c option) \<Rightarrow>
    'c looping \<Rightarrow> 'c looping \<Rightarrow> bool"
  for stopCh wg ret stop where
  tick: "0 < wg (lo_ctl v) \<Longrightarrow> loop_step stopCh wg ret stop v (v\<lparr>lo_ticks := Suc (lo_ticks v)\<rparr>)"
| cancel: "loop_step stopCh wg ret stop v (v\<lparr>lo_done := True\<rparr>)"
| returns: "0 < wg (lo_ctl v) \<Longrightarrow> lo_done v \<or> stopCh (lo_ctl v) \<Longrightarrow>
    loop_step stopCh wg ret stop v (v\<lparr>lo_ctl := ret (lo_ctl v)\<rparr>)"
| stop: "stop (lo_ctl v) = Some c \<Longrightarrow> loop_step stopCh wg ret stop v (v\<lparr>lo_ctl := c, lo_stop := Waiting\<rparr>)"
| waited: "lo_stop v = Waiting \<Longrightarrow> wg (lo_ctl v) = 0 \<Longrightarrow> loop_step stopCh wg ret stop v (v\<lparr>lo_stop := Stopped\<rparr>)"

inductive loop_steps :: "('c \<Rightarrow> bool) \<Rightarrow> ('c \<Rightarrow> nat) \<Rightarrow> ('c \<Rightarrow> 'c) \<Rightarrow> ('c \<Rightarrow> 'c option) \<Rightarrow>
    'c looping \<Rightarrow> 'c looping \<Rightarrow> bool"
  for stopCh wg ret stop v where
  refl: "loop_steps stopCh wg ret stop v v"
| step: "loop_steps stopCh wg ret stop v u \<Longrightarrow> loop_step stopCh wg ret stop u w \<Longrightarrow> loop_steps stopCh wg ret stop v w"

definition started :: "'c \<Rightarrow> 'c looping" where
  "started c = \<lparr>lo_ctl = c, lo_done = False, lo_stop = NotStopped, lo_ticks = 0\<rparr>"

text \<open>What the two controllers share.\<close>

locale stoppable =
  fixes stopCh :: "'c \<Rightarrow> bool"
    and wg :: "'c \<Rightarrow> nat"
    and ret :: "'c \<Rightarrow> 'c"
    and stop :: "'c \<Rightarrow> 'c option"
  assumes ret_effect: "wg (ret c) = wg c - 1" "stopCh (ret c) = stopCh c"
    and stop_effect: "stop c = Some c' \<Longrightarrow> \<not> stopCh c \<and> stopCh c' \<and> wg c' = wg c" "stopCh c \<Longrightarrow> stop c = None"
begin

lemma stop_states:
  assumes "loop_steps stopCh wg ret stop (started c) v" "\<not> stopCh c"
  shows "(lo_stop v = NotStopped \<longleftrightarrow> \<not> stopCh (lo_ctl v)) \<and> (lo_stop v = Stopped \<longrightarrow> wg (lo_ctl v) = 0)"
  using assms(1)
proof (induction rule: loop_steps.induct)
  case refl
  show ?case using assms(2) by (simp add: started_def)
next
  case (step u w)
  from step.hyps(2) show ?case
  proof cases
    case (stop d)
    then show ?thesis using step.IH stop_effect(1) [OF stop(2)] by auto
  qed (use step.IH ret_effect in auto)
qed

text \<open>After \<open>Stop\<close> has returned there is no reconciliation any more; and it can return.\<close>

lemma quiet_when_stopped:
  assumes "loop_steps stopCh wg ret stop (started c) v" "\<not> stopCh c" "lo_stop v = Stopped"
    and "loop_steps stopCh wg ret stop v w"
  shows "lo_ticks w = lo_ticks v"
proof -
  have "lo_ticks w = lo_ticks v \<and> wg (lo_ctl w) = 0 \<and> stopCh (lo_ctl w)"
    using assms(4)
  proof (induction rule: loop_steps.induct)
    case refl
    show ?case using stop_states [OF assms(1,2)] assms(3) by auto
  next
    case (step u w)
    from step.hyps(2) show ?case
      by cases (use step.IH stop_effect(2) in auto)
  qed
  then show ?thesis by simp
qed

lemma stop_can_return:
  assumes "stopCh (lo_ctl v)" "lo_stop v = Waiting"
  shows "\<exists>w. loop_steps stopCh wg ret stop v w \<and> lo_stop w = Stopped \<and> lo_ticks w = lo_ticks v"
  using assms
proof (induction "wg (lo_ctl v)" arbitrary: v)
  case 0
  have "loop_steps stopCh wg ret stop v (v\<lparr>lo_stop := Stopped\<rparr>)"
    by (rule loop_steps.step [OF loop_steps.refl loop_step.waited]) (use 0 in simp_all)
  then show ?case by force
next
  case (Suc n)
  let ?v = "v\<lparr>lo_ctl := ret (lo_ctl v)\<rparr>"
  have r: "loop_step stopCh wg ret stop v ?v" by (rule loop_step.returns) (use Suc in simp_all)
  have "n = wg (lo_ctl ?v)" using Suc.hyps(2) ret_effect(1) [of "lo_ctl v"] by simp
  then obtain w where w: "loop_steps stopCh wg ret stop ?v w" "lo_stop w = Stopped" "lo_ticks w = lo_ticks v"
    using Suc.hyps(1) [of ?v] Suc.prems ret_effect(2) [of "lo_ctl v"] by auto
  from w(1) have "loop_steps stopCh wg ret stop v w"
    by (induction rule: loop_steps.induct) (rule loop_steps.step [OF loop_steps.refl r], erule (1) loop_steps.step)
  then show ?case using w by blast
qed

lemma stop_correct:
  assumes "loop_steps stopCh wg ret stop (started c) v" "\<not> stopCh c"
  shows "(lo_stop v = Stopped \<longrightarrow> (\<forall>w. loop_steps stopCh wg ret stop v w \<longrightarrow> lo_ticks w = lo_ticks v)) \<and>
    (lo_stop v = Waiting \<longrightarrow> (\<exists>w. loop_steps stopCh wg ret stop v w \<and> lo_stop w = Stopped)) \<and>
    (lo_stop v \<noteq> NotStopped \<longrightarrow> stop (lo_ctl v) = None)"
proof -
  note st = stop_states [OF assms]
  have "\<exists>w. loop_steps stopCh wg ret stop v w \<and> lo_stop w = Stopped" if "lo_stop v = Waiting"
    using stop_can_return [of v] st that by auto
  then show ?thesis using quiet_when_stopped [OF assms] st stop_effect(2) by auto
qed

end

interpretation rsc: stoppable rsc_stopCh rsc_wg RSC_return RSC_Stop
  by unfold_locales (auto simp: RSC_return_def RSC_Stop_def split: if_splits)

interpretation dcl: stoppable dc_stopCh dc_wg DC_return DC_Stop
  by unfold_locales (auto simp: DC_return_def DC_Stop_def split: if_splits)

section \<open>The main goroutine\<close>

text \<open>Where \<open>runServer\<close> is; \<open>Exited\<close> has the exit status.\<close>

datatype main_pc =
    Recovering
  | Serving
  | ClosingProxies
  | Draining
  | StoppingPods
  | Returning
  | Exited nat

record ('f, 'b) process =
  pr_pc :: main_pc
  pr_server :: "('f, 'b) Server"
  pr_rsc :: ReplicaSetController
  pr_dc :: DeploymentController
  pr_signal :: bool

text \<open>Up to the recovery; when the database cannot be opened \<open>log.Fatalf\<close> ends the process.\<close>

definition runServer_init :: "('f, 'b) srv_env \<Rightarrow> goerror + 'b \<Rightarrow> 'f \<Rightarrow> goerror + ('f, 'b) process" where
  "runServer_init V opened os =
     (case DB_Open (sg_bolt (se_storage V)) opened of
        Inl err \<Rightarrow> Inl err
      | Inr db \<Rightarrow>
          let configStore = fst (NewConfigStore (se_storage V) (Some db));
              controllerStore = fst (NewControllerStore (se_storage V) (Some db))
          in Inr \<lparr>pr_pc = Recovering,
                  pr_server = NewServer V (new_daemon os) configStore controllerStore (Some db),
                  pr_rsc = RSC_Start NewReplicaSetController, pr_dc = DC_Start NewDeploymentController,
                  pr_signal = False\<rparr>)"

definition alive :: "('f, 'b) process \<Rightarrow> bool" where
  "alive p \<longleftrightarrow> (case pr_pc p of Exited n \<Rightarrow> False | _ \<Rightarrow> True)"

text \<open>
  When listening fails \<open>log.Fatalf\<close> exits at once, without the deferred calls and without the
  shutdown.  After a signal the main goroutine closes the proxies, waits until the requests in
  flight are answered, terminates the pods and returns.  It does not stop the controllers: their
  goroutines see that the context is cancelled when they select it.
\<close>

inductive run_step :: "('f, 'b) api_env \<Rightarrow> ('f, 'b) process \<Rightarrow> ('f, 'b) process \<Rightarrow> bool"
  for A :: "('f, 'b) api_env" where
  recover: "pr_pc p = Recovering \<Longrightarrow>
    run_step A p (p\<lparr>pr_server := RecoverState (ae_srv A) (pr_server p), pr_pc := Serving\<rparr>)"
| request: "pr_pc p \<in> {Serving, ClosingProxies, Draining} \<Longrightarrow>
    run_step A p (p\<lparr>pr_server := snd (serve verb segs A rq (pr_server p))\<rparr>)"
| rs_tick: "alive p \<Longrightarrow> 0 < rsc_wg (pr_rsc p) \<Longrightarrow>
    run_step A p (p\<lparr>pr_server := snd (rs_tick (ae_srv A) draw (pr_server p))\<rparr>)"
| dep_tick: "alive p \<Longrightarrow> 0 < dc_wg (pr_dc p) \<Longrightarrow>
    run_step A p (p\<lparr>pr_server := dep_tick (ae_srv A) (pr_server p)\<rparr>)"
| rs_returns: "alive p \<Longrightarrow> 0 < rsc_wg (pr_rsc p) \<Longrightarrow> pr_signal p \<Longrightarrow>
    run_step A p (p\<lparr>pr_rsc := RSC_return (pr_rsc p)\<rparr>)"
| dep_returns: "alive p \<Longrightarrow> 0 < dc_wg (pr_dc p) \<Longrightarrow> pr_signal p \<Longrightarrow>
    run_step A p (p\<lparr>pr_dc := DC_return (pr_dc p)\<rparr>)"
| background: "alive p \<Longrightarrow>
    lm_background (srv_lm_env (ae_srv A) (pr_server p)) (srv_lifecycle (pr_server p)) lm \<Longrightarrow>
    run_step A p (p\<lparr>pr_server := (pr_server p)\<lparr>srv_lifecycle := lm\<rparr>\<rparr>)"
| signal: "alive p \<Longrightarrow> run_step A p (p\<lparr>pr_signal := True\<rparr>)"
| listen_error: "pr_pc p = Serving \<Longrightarrow> run_step A p (p\<lparr>pr_pc := Exited 1\<rparr>)"
| stop: "pr_pc p = Serving \<Longrightarrow> pr_signal p \<Longrightarrow> run_step A p (p\<lparr>pr_pc := ClosingProxies\<rparr>)"
| close_proxies: "pr_pc p = ClosingProxies \<Longrightarrow>
    run_step A p (p\<lparr>pr_server := Server_Shutdown (ae_srv A) (pr_server p), pr_pc := Draining\<rparr>)"
| drained: "pr_pc p = Draining \<Longrightarrow> run_step A p (p\<lparr>pr_pc := StoppingPods\<rparr>)"
| stop_pods: "pr_pc p = StoppingPods \<Longrightarrow>
    run_step A p (p\<lparr>pr_server := (pr_server p)\<lparr>srv_lifecycle :=
      LM_Shutdown (srv_lm_env (ae_srv A) (pr_server p)) (srv_lifecycle (pr_server p))\<rparr>, pr_pc := Returning\<rparr>)"
| returns: "pr_pc p = Returning \<Longrightarrow> run_step A p (p\<lparr>pr_pc := Exited 0\<rparr>)"

inductive run_steps :: "('f, 'b) api_env \<Rightarrow> ('f, 'b) process \<Rightarrow> ('f, 'b) process \<Rightarrow> bool"
  for A :: "('f, 'b) api_env" and p where
  refl: "run_steps A p p"
| step: "run_steps A p q \<Longrightarrow> run_step A q r \<Longrightarrow> run_steps A p r"

lemma run_steps_trans: "run_steps A q r \<Longrightarrow> run_steps A p q \<Longrightarrow> run_steps A p r"
  by (induction rule: run_steps.induct) (blast intro: run_steps.step)+

text \<open>The start and the stop of the daemon with nothing in between are its steps one after the other.\<close>

lemma runServer_start_init:
  "runServer_start V opened os = map_sum (\<lambda>e. e) (\<lambda>p. RecoverState V (pr_server p)) (runServer_init V opened os)"
  by (simp add: runServer_start_def runServer_init_def Let_def split: sum.splits)

lemma run_steps_stop:
  assumes "run_steps A p q" "pr_pc q = Serving"
  shows "run_steps A p (q\<lparr>pr_signal := True, pr_server := runServer_stop (ae_srv A) (pr_server q), pr_pc := Returning\<rparr>)"
proof -
  let ?a = "q\<lparr>pr_signal := True\<rparr>"
  let ?b = "?a\<lparr>pr_pc := ClosingProxies\<rparr>"
  let ?c = "?b\<lparr>pr_server := Server_Shutdown (ae_srv A) (pr_server q), pr_pc := Draining\<rparr>"
  let ?d = "?c\<lparr>pr_pc := StoppingPods\<rparr>"
  have "run_steps A p ?a" using run_steps.step [OF assms(1) run_step.signal [of q A]] assms(2) by (simp add: alive_def)
  from run_steps.step [OF this run_step.stop] have "run_steps A p ?b" using assms(2) by simp
  from run_steps.step [OF this run_step.close_proxies] have "run_steps A p ?c" by simp
  from run_steps.step [OF this run_step.drained] have "run_steps A p ?d" by simp
  from run_steps.step [OF this run_step.stop_pods] show ?thesis by (simp add: runServer_stop_def Let_def)
qed

lemma run_step_alive: "run_step A p q \<Longrightarrow> alive p"
  by (induction rule: run_step.induct) (auto simp: alive_def)

text \<open>The tables of the server agree until the pods are terminated.\<close>

definition late :: "('f, 'b) process \<Rightarrow> bool" where
  "late p \<longleftrightarrow> pr_pc p = Returning \<or> \<not> alive p"

lemmas srv_steps_ok = srv_step_ok [OF srv_step.request] srv_step_ok [OF srv_step.rs_tick]
  srv_step_ok [OF srv_step.dep_tick] srv_step_ok [OF srv_step.recover]

lemma run_step_ok:
  assumes "run_step A p q" "late p \<or> srv_ok (pr_server p)"
  shows "late q \<or> srv_ok (pr_server q)"
  using assms(1)
proof cases
  case (background lm)
  then show ?thesis using assms(2) srv_step_ok [OF srv_step.background, of A "pr_server p" lm] by (auto simp: late_def alive_def)
next
  case close_proxies
  then show ?thesis using assms(2) Server_Shutdown_simps(4) [of "pr_server p" "ae_srv A"] by (auto simp: late_def alive_def)
qed (use assms(2) in \<open>auto simp: late_def alive_def srv_steps_ok\<close>)

lemma run_steps_ok: "run_steps A p q \<Longrightarrow> srv_ok (pr_server p) \<Longrightarrow> late q \<or> srv_ok (pr_server q)"
proof (induction rule: run_steps.induct)
  case (step q r)
  then show ?case using run_step_ok by blast
qed simp

text \<open>Without a goroutine of the replica set controller no pod comes back after the shutdown.\<close>

definition emptied :: "('f, 'b) process \<Rightarrow> bool" where
  "emptied p \<longleftrightarrow> rsc_wg (pr_rsc p) = 0 \<and>
     (pr_pc p = StoppingPods \<and> srv_ok (pr_server p) \<or>
      (pr_pc p = Returning \<or> pr_pc p = Exited 0) \<and> (\<forall>k. \<not> managed (pr_server p) k))"

lemma dep_tick_same: "srv_lifecycle (dep_tick V s) = srv_lifecycle s"
  by (simp add: dep_tick_def on_ctl_def Let_def)

lemma emptied_step:
  assumes "run_step A p q" "emptied p"
  shows "emptied q"
  using assms(1)
proof cases
  case (background lm)
  have c: "core_same (srv_lifecycle (pr_server p)) lm" by (rule background_core [OF background(3)])
  then have "tlookup (lm_pods lm) k = tlookup (lm_pods (srv_lifecycle (pr_server p))) k" for k by (simp add: core_same_def)
  then show ?thesis using assms(2) srv_ok_core [OF _ c] background(1) by (auto simp: emptied_def)
next
  case dep_tick
  then show ?thesis
    using assms(2) srv_step_ok [OF srv_step.dep_tick, of "pr_server p" A] by (auto simp: emptied_def dep_tick_same)
next
  case stop_pods
  have "lm_tab (srv_lifecycle (pr_server p))" using assms(2) stop_pods by (auto simp: emptied_def srv_ok_def)
  then show ?thesis using assms(2) stop_pods LM_Shutdown_tab by (auto simp: emptied_def)
qed (use assms(2) in \<open>auto simp: emptied_def alive_def RSC_return_def\<close>)

lemma emptied_steps: "run_steps A p q \<Longrightarrow> emptied p \<Longrightarrow> emptied q"
  by (induction rule: run_steps.induct) (auto intro: emptied_step)

lemma srv_ok_runServer_stop:
  assumes "srv_ok s"
  shows "srv_ok (runServer_stop V s)"
proof -
  let ?s = "Server_Shutdown V s"
  have ok: "srv_ok ?s" using assms by (rule Server_Shutdown_simps(4))
  then have tab: "lm_tab (srv_lifecycle ?s)" by (simp add: srv_ok_def)
  have "lm_tab lm \<Longrightarrow> lm_tab (fold (\<lambda>pod lm. snd (Terminate E (om_Namespace (pod_Metadata pod))
      (om_Name (pod_Metadata pod)) lm)) pods lm)" for E :: "('a World, 'b) lm_env" and pods lm
  proof (induction pods arbitrary: lm)
    case (Cons pod pods)
    obtain r lm' where t: "Terminate E (om_Namespace (pod_Metadata pod)) (om_Name (pod_Metadata pod)) lm = (r, lm')"
      by (meson surj_pair)
    show ?case using Cons.IH [of lm'] Terminate_tab [OF Cons.prems t] by (simp add: t)
  qed simp
  then have "lm_tab (LM_Shutdown (srv_lm_env V ?s) (srv_lifecycle ?s))" using tab by (simp add: LM_Shutdown_def)
  then show ?thesis using ok by (simp add: runServer_stop_def Let_def srv_ok_def LM_Shutdown_tab [OF tab])
qed

section \<open>A launch of the replica set controller\<close>

lemma LaunchPod_keeps:
  assumes "srv_ok s" "LaunchPod V pod s = (r, s')"
  shows "managed s k \<Longrightarrow> managed s' k" "r = None \<Longrightarrow> managed s' (pod_key pod)"
proof -
  have tab: "lm_tab (srv_lifecycle s)" using assms(1) by (simp add: srv_ok_def)
  have key: "pod_key (pending_pod V s0 pod) = pod_key pod" for s0 :: "('a, 'b) Server" by (rule pod_key_meta) simp
  show "managed s' k" if m: "managed s k"
  proof (cases "k = pod_key pod")
    case False
    then show ?thesis using conjunct2 [OF LaunchPod_recovers [OF assms]] m by blast
  next
    case True
    from assms(2) show ?thesis
    proof (cases rule: LaunchPod_cases)
      case (failed e engineType target env s0 pod1 lm)
      then show ?thesis using m True by (auto simp: Launch_def key pod_key_def)
    next
      case (ok engineType target env s0 pod1 lm)
      then show ?thesis using m True by (auto simp: Launch_def key pod_key_def)
    qed (use m in simp)
  qed
  show "r = None \<Longrightarrow> managed s' (pod_key pod)"
    using assms(2)
  proof (cases rule: LaunchPod_cases)
    case (ok engineType target env s0 pod1 lm)
    then show ?thesis using Launch_pods [OF tab ok(4)] by (simp add: key)
  qed simp_all
qed

lemma launch_loop_keeps_managed:
  "srv_ok s \<Longrightarrow> launch_loop (srv_pod_manager V) rs draw i n s = (r, s') \<Longrightarrow> managed s k \<Longrightarrow> managed s' k"
proof (induction n arbitrary: i s)
  case (Suc n)
  obtain e s1 where l: "LaunchPod V (new_pod rs (draw i)) s = (e, s1)" by (meson surj_pair)
  have k: "srv_ok s1" "managed s1 k"
    using srv_ok_LaunchPod [OF Suc.prems(1), of V "new_pod rs (draw i)"] LaunchPod_keeps(1) [OF Suc.prems(1) l Suc.prems(3)]
    by (simp_all add: l)
  show ?case using Suc.prems(2) Suc.IH [OF k(1) _ k(2)] k(2) l
    by (auto simp: Let_def srv_pod_manager_def split: option.splits)
qed simp

lemma launch_loop_manages:
  assumes "srv_ok s" "launch_loop (srv_pod_manager V) rs draw i (Suc n) s = (None, s')"
  shows "managed s' (pod_key (new_pod rs (draw i)))"
proof -
  obtain e s1 where l: "LaunchPod V (new_pod rs (draw i)) s = (e, s1)" by (meson surj_pair)
  have rest: "e = None" "launch_loop (srv_pod_manager V) rs draw (Suc i) n s1 = (None, s')"
    using assms(2) l by (simp_all add: Let_def srv_pod_manager_def split: option.splits)
  have "srv_ok s1" using srv_ok_LaunchPod [OF assms(1), of V "new_pod rs (draw i)"] by (simp add: l)
  then show ?thesis using launch_loop_keeps_managed [OF _ rest(2)] LaunchPod_keeps(2) [OF assms(1) l rest(1)] by blast
qed

text \<open>A reconciliation that lacks pods, and reports no error, has launched one.\<close>

lemma RS_Reconcile_manages:
  assumes "srv_ok s" "RS_Reconcile (srv_pod_manager V) (srv_StoreReplicaSet V) draw rs s = (None, s')"
    and "int (active_count rs (ListPods V (rs_ns rs) s)) < rs_desired rs" "rs_desired rs < 2 ^ 31"
  shows "managed s' (pod_key (new_pod rs (draw 0)))"
proof -
  let ?c = "int (active_count rs (ListPods V (rs_ns rs) s))"
  have w: "wrap32 ?c = ?c" "wrap32 (rs_desired rs - ?c) = rs_desired rs - ?c"
    by (rule wrap32_id; use assms(3,4) in \<open>simp add: in32_def\<close>)+
  obtain n where n: "nat (rs_desired rs - ?c) = Suc n" using assms(3) by (metis diff_gt_0_iff_gt gr0_conv_Suc zero_less_nat_eq)
  obtain e s1 where l: "launch_loop (srv_pod_manager V) rs draw 0 (Suc n) s = (e, s1)" by (meson surj_pair)
  have "e = None \<and> srv_lifecycle s' = srv_lifecycle s1"
    using assms(2,3) l
    by (auto simp: RS_Reconcile_def scan_pods_start srv_pod_manager_def active_count_def [symmetric] w n Let_def
        srv_StoreReplicaSet_def on_ctl_def split: option.splits prod.splits if_splits)
  then show ?thesis using launch_loop_manages [OF assms(1)] l by auto
qed

section \<open>Properties\<close>

abbreviation rsc_runs :: "ReplicaSetController looping \<Rightarrow> ReplicaSetController looping \<Rightarrow> bool" where
  "rsc_runs \<equiv> loop_steps rsc_stopCh rsc_wg RSC_return RSC_Stop"

abbreviation dc_runs :: "DeploymentController looping \<Rightarrow> DeploymentController looping \<Rightarrow> bool" where
  "dc_runs \<equiv> loop_steps dc_stopCh dc_wg DC_return DC_Stop"




text \<open>A daemon that is sent a pod, and then a signal, which the controller sees first.\<close>

definition demo_process :: "(unit, mem_db) Server \<Rightarrow> (unit, mem_db) process" where
  "demo_process s = \<lparr>pr_pc = Recovering, pr_server = s, pr_rsc = RSC_Start NewReplicaSetController,
     pr_dc = DC_Start NewDeploymentController, pr_signal = False\<rparr>"

lemma demo_A_wf: "kv_wf pod_Metadata (kv_load (sg_bolt (stg demo_A)) (sg_Pod (stg demo_A)) ''pods'' None)"
  by (simp add: kv_load_def kv_wf_def)

lemma demo_A_srv: "ae_srv demo_A = demo_V"
  by (simp add: demo_A_def)

lemma demo_server_new: "demo_server = NewServer (ae_srv demo_A) (NewLifecycleManager (NewPortPool 30000 32767) (lm_world (new_daemon ())))
    (fst empty_cfg) (fst empty_ctl) None"
  by (simp add: demo_server_def demo_A_srv new_daemon_def NewLifecycleManager_def)


text \<open>A port in use leaves the pods running.  The pods are launched again before the daemon
  listens, and when it cannot listen it exits at once: every pod it has launched from its records
  then runs with no daemon to manage it, and no step terminates it.\<close>

theorem listen_error_leaves_pods:
  assumes "kv_wf pod_Metadata (kv_load (sg_bolt (stg A)) (sg_Pod (stg A)) ''pods'' db)"
    and "pr_server p = NewServer (ae_srv A) (NewLifecycleManager pool w) configStore controllerStore db"
    and "pr_pc p = Recovering" "s = RecoverState (ae_srv A) (pr_server p)"
    and "loadPod ns n s = Some pod" "st_Phase (pod_Status pod) = PodRunning \<or> st_Phase (pod_Status pod) = PodPending"
  shows "\<exists>q. run_steps A p q \<and> pr_pc q = Exited 1 \<and>
    load_pod (srv_lifecycle (pr_server q)) (podKey ns n) \<noteq> None \<and> (\<forall>r. \<not> run_step A q r)"
proof -
  have ok: "srv_ok (pr_server p)" unfolding assms(2) by (rule srv_ok_NewServer [OF assms(1)])
  have m: "managed s (podKey ns n)"
    using RecoverState_manages [OF ok] assms(4-6) by (simp add: loadPod_def podKey_def running_def)
  have "tables_ok s" using srv_ok_RecoverState [OF ok] by (simp add: assms(4) srv_ok_def tables_ok_def)
  then have l: "load_pod (srv_lifecycle s) (podKey ns n) \<noteq> None" using managed_load_pod m by blast
  let ?a = "p\<lparr>pr_server := s, pr_pc := Serving\<rparr>"
  let ?q = "?a\<lparr>pr_pc := Exited 1\<rparr>"
  have "run_steps A p ?a" using run_steps.step [OF run_steps.refl run_step.recover [OF assms(3)]] by (simp add: assms(4))
  from run_steps.step [OF this run_step.listen_error] have "run_steps A p ?q" by simp
  moreover have "\<not> run_step A ?q r" for r using run_step_alive [of A ?q r] by (auto simp: alive_def)
  ultimately show ?thesis using l by (intro exI [of _ ?q]) simp
qed

theorem listen_error_leaves_pods_witness:
  "\<exists>q. run_steps (demo_A\<lparr>ae_srv := kept_V\<rparr>) (demo_process kept_server) q \<and> pr_pc q = Exited 1 \<and>
     load_pod (srv_lifecycle (pr_server q)) ''default/web'' \<noteq> None"
proof (rule kept_recovered)
  fix p assume p: "loadPod ''default'' ''web'' (RecoverState kept_V kept_server) = Some p" "st_Phase (pod_Status p) = PodRunning"
  let ?A = "demo_A\<lparr>ae_srv := kept_V\<rparr>"
  have k: "podKey ''default'' ''web'' = ''default/web''" by (simp add: podKey_def)
  have new: "pr_server (demo_process kept_server) = NewServer (ae_srv ?A)
      (NewLifecycleManager (NewPortPool 30000 32767) (lm_world (new_daemon ()))) (fst empty_cfg) (fst empty_ctl) kept_db"
    by (simp add: demo_process_def kept_server_def new_daemon_def NewLifecycleManager_def)
  have r: "loadPod ''default'' ''web'' (RecoverState (ae_srv ?A) (pr_server (demo_process kept_server))) = Some p"
    using p(1) by (simp add: demo_process_def)
  show ?thesis
    using listen_error_leaves_pods [OF _ new _ HOL.refl r] kept_wf p(2) unfolding k by (simp add: demo_process_def) blast
qed

text \<open>C39: The controllers outlive the shutdown.  The main goroutine does not wait for them, so the
  replica set controller can reconcile once more after the pods have been terminated.  If its
  replica set lacked a pod then, the daemon exits with the pod it has launched still running.\<close>

theorem launch_after_shutdown:
  assumes "kv_wf pod_Metadata (kv_load (sg_bolt (stg A)) (sg_Pod (stg A)) ''pods'' db)"
    and "pr_server p = NewServer (ae_srv A) (NewLifecycleManager pool w) configStore controllerStore db"
    and "run_steps A p q" "pr_pc q = Serving" "0 < rsc_wg (pr_rsc q)"
    and "s = runServer_stop (ae_srv A) (pr_server q)" "srv_ListReplicaSets [] s = [rs]"
    and "int (active_count rs (ListPods (ae_srv A) (rs_ns rs) s)) < rs_desired rs" "rs_desired rs < 2 ^ 31"
    and "fst (RS_Reconcile (srv_pod_manager (ae_srv A)) (srv_StoreReplicaSet (ae_srv A)) draw rs s) = None"
  shows "\<exists>r. run_steps A p r \<and> pr_pc r = Exited 0 \<and>
    load_pod (srv_lifecycle (pr_server r)) (pod_key (new_pod rs (draw 0))) \<noteq> None"
proof -
  have "srv_ok (pr_server p)" unfolding assms(2) by (rule srv_ok_NewServer [OF assms(1)])
  then have "srv_ok (pr_server q)" using run_steps_ok [OF assms(3)] assms(4) by (simp add: late_def alive_def)
  then have ok: "srv_ok s" using srv_ok_runServer_stop assms(6) by blast
  let ?V = "ae_srv A" and ?a = "q\<lparr>pr_signal := True, pr_server := s, pr_pc := Returning\<rparr>"
  obtain s' where r: "RS_Reconcile (srv_pod_manager ?V) (srv_StoreReplicaSet ?V) draw rs s = (None, s')"
    using assms(10) by (metis prod.collapse)
  have m: "managed s' (pod_key (new_pod rs (draw 0)))" by (rule RS_Reconcile_manages [OF ok r assms(8,9)])
  have t: "snd (rs_tick ?V (\<lambda>_. draw) s) = s'" by (simp add: rs_tick_def RS_ReconcileAll_def assms(7) r)
  have ok': "srv_ok s'" using srv_step_ok [OF srv_step.rs_tick [of A s "\<lambda>_. draw"] ok] by (simp add: t)
  have "run_steps A p ?a" using run_steps_stop [OF assms(3,4)] by (simp add: assms(6))
  from run_steps.step [OF this run_step.rs_tick [where draw = "\<lambda>_. draw"]]
  have "run_steps A p (?a\<lparr>pr_server := s'\<rparr>)" using assms(5) by (simp add: alive_def t)
  from run_steps.step [OF this run_step.returns] have "run_steps A p (?a\<lparr>pr_server := s', pr_pc := Exited 0\<rparr>)" by simp
  moreover have "load_pod (srv_lifecycle s') (pod_key (new_pod rs (draw 0))) \<noteq> None"
    using managed_load_pod [of s'] ok' m by (simp add: srv_ok_def tables_ok_def)
  ultimately show ?thesis by force
qed

text \<open>A daemon whose one replica set has just been posted when it is told to stop.\<close>

definition one_ctl :: ControllerStore where
  "one_ctl = \<lparr>ctl_deployments = [], ctl_replicaSets = [(''default/web'', one_replica)]\<rparr>"

definition one_server :: "(unit, mem_db) Server" where
  "one_server = NewServer (ae_srv demo_A) (NewLifecycleManager (NewPortPool 30000 32767) (lm_world (new_daemon ())))
     (fst empty_cfg) one_ctl None"

lemma one_server_stopped:
  "RecoverState demo_V one_server = one_server"
  "srv_lifecycle (runServer_stop demo_V one_server) = new_daemon ()"
  "srv_ListReplicaSets [] (runServer_stop demo_V one_server) = [one_replica]"
  "ListPods demo_V ns (runServer_stop demo_V one_server) = []"
proof -
  have s: "srv_pods one_server = []" "srv_lifecycle one_server = new_daemon ()" "srv_controllerStore one_server = one_ctl"
      "srv_proxyManager one_server = NewProxyManager" "srv_db one_server = None"
    by (simp_all add: one_server_def NewServer_def kv_load_def new_daemon_def NewLifecycleManager_def)
  have "ServiceStore_List [] (srv_services one_server, srv_db one_server) = []"
    by (simp add: one_server_def NewServer_def NewServiceStore_def kv_load_def ServiceStore_List_def)
  then show "RecoverState demo_V one_server = one_server" by (simp add: RecoverState_def allPods_def s)
  have sh: "srv_lifecycle (Server_Shutdown demo_V one_server) = new_daemon ()"
    by (simp add: Server_Shutdown_def on_proxies_def ProxyManager_Shutdown_def s NewProxyManager_def split: prod.splits)
  have "LM_Shutdown E (new_daemon ()) = new_daemon ()" for E :: "(unit World, mem_db) lm_env"
    by (simp add: LM_Shutdown_def managed_pods_def new_daemon_def NewLifecycleManager_def List.map_filter_def)
  then show "srv_lifecycle (runServer_stop demo_V one_server) = new_daemon ()"
    by (simp add: runServer_stop_def Let_def sh)
  have "srv_controllerStore (runServer_stop demo_V one_server) = one_ctl"
    by (simp add: runServer_stop_def Let_def Server_Shutdown_def on_proxies_def s split: prod.splits)
  then show "srv_ListReplicaSets [] (runServer_stop demo_V one_server) = [one_replica]"
    by (simp add: srv_ListReplicaSets_def ListReplicaSets_def one_ctl_def)
  show "ListPods demo_V ns (runServer_stop demo_V one_server) = []"
    by (simp add: ListPods_def allPods_def runServer_stop_def Let_def Server_Shutdown_simps s)
qed

theorem launch_after_shutdown_witness:
  "\<exists>r k. run_steps demo_A (demo_process one_server) r \<and> pr_pc r = Exited 0 \<and>
     load_pod (srv_lifecycle (pr_server r)) k \<noteq> None"
proof -
  let ?p = "demo_process one_server"
  let ?q = "?p\<lparr>pr_pc := Serving\<rparr>"
  have q: "run_steps demo_A ?p ?q"
    using run_steps.step [OF run_steps.refl run_step.recover [of ?p demo_A]] one_server_stopped(1)
    by (simp add: demo_process_def demo_A_srv)
  have new: "pr_server ?p = NewServer (ae_srv demo_A) (NewLifecycleManager (NewPortPool 30000 32767) (lm_world (new_daemon ())))
      (fst empty_cfg) one_ctl None" by (simp add: demo_process_def one_server_def)
  have "srv_ListReplicaSets [] (runServer_stop (ae_srv demo_A) (pr_server ?q)) = [one_replica]"
    by (simp add: demo_A_srv demo_process_def one_server_stopped)
  from launch_after_shutdown [OF demo_A_wf new q _ _ HOL.refl this, of demo_draw] show ?thesis
    using demo_RS_Reconcile [OF one_server_stopped(2,4)]
    by (auto simp: demo_A_srv demo_process_def one_server_stopped active_count_def RSC_Start_def)
qed

end
