(* ===== verification/Rollout_Server.thy ===== *)
theory Rollout_Server
  imports Rollout_Live Api_Correct
begin

text \<open>
  The two controllers at work on the server: a rollout as a sequence of rounds, in each of which the
  deployment controller and then the replica set controller reconcile everything.
\<close>

section \<open>The replica set controller writes statuses only\<close>

abbreviation ctl_of :: "('f, 'b) Server \<Rightarrow> 'b ctl" where
  "ctl_of s \<equiv> (srv_controllerStore s, srv_db s)"

abbreviation no_status :: "ReplicaSet \<Rightarrow> ReplicaSet" where
  "no_status rs \<equiv> rs\<lparr>rs_Status := zero_ReplicaSetStatus\<rparr>"

definition status_only :: "'b ctl \<Rightarrow> 'b ctl \<Rightarrow> bool" where
  "status_only x y \<longleftrightarrow> ctl_deployments (fst y) = ctl_deployments (fst x) \<and> rs_wf y \<and>
     (\<forall>k. map_option no_status (rs_at y k) = map_option no_status (rs_at x k))"

text \<open>It is about the tables in memory: the database does not matter.\<close>

lemma status_only_fst: "status_only x (c, d) = status_only x (c, d')"
  by (simp add: status_only_def rs_wf_def rs_kv_def kv_wf_def rs_at_def)

lemma pod_manager_ctl [simp]:
  "srv_controllerStore (snd (LaunchPod V pod s)) = srv_controllerStore s"
  "srv_controllerStore (snd (DeletePod V ns n s)) = srv_controllerStore s"
  by (simp_all add: LaunchPod_def DeletePod_def deletePod_def Let_def split: sum.splits prod.splits option.splits)

lemma status_only_store:
  assumes "status_only x y" "rs_at x (rs_key rs) = Some rs"
  shows "status_only x (StoreReplicaSet G (rs_with_status n ready rs) y)"
  using assms rs_wf_store [of y G "rs_with_status n ready rs"]
  by (auto simp: status_only_def rs_with_status_def) (simp add: StoreReplicaSet_def Let_def)

lemma rs_tick_status_only:
  fixes s :: "('f, 'b) Server"
  assumes "rs_wf (ctl_of s)"
  shows "status_only (ctl_of s) (ctl_of (snd (rs_tick V draw s)))"
  unfolding rs_tick_def
proof (rule RS_ReconcileAll_keeps [where P = "\<lambda>s'. status_only (ctl_of s) (ctl_of s')"])
  show "status_only (ctl_of s) (ctl_of (srv_StoreReplicaSet V (rs_with_status n ready rs) s'))"
    if "rs \<in> set (srv_ListReplicaSets [] s)" "status_only (ctl_of s) (ctl_of s')" for rs n ready s'
  proof -
    have "rs_at (ctl_of s) (rs_key rs) = Some rs"
      using that(1) ListReplicaSets_at [OF assms] by (simp add: srv_ListReplicaSets_def)
    from status_only_store [OF that(2) this] show ?thesis
      by (simp add: srv_StoreReplicaSet_def on_ctl_def Let_def)
  qed
  have db: "status_only (ctl_of s) (ctl_of t)"
    if "srv_controllerStore t = srv_controllerStore s'" "status_only (ctl_of s) (ctl_of s')" for t s' :: "('f, 'b) Server"
    using that status_only_fst [of "ctl_of s" "srv_controllerStore s'" "srv_db s'" "srv_db t"] by simp
  show "status_only (ctl_of s) (ctl_of (snd (pm_LaunchPod (srv_pod_manager V) pod s')))"
    "status_only (ctl_of s) (ctl_of (snd (pm_DeletePod (srv_pod_manager V) ns n s')))"
    if "status_only (ctl_of s) (ctl_of s')" for pod ns n s'
    by (rule db [OF _ that], simp add: srv_pod_manager_def)+
  show "status_only (ctl_of s) (ctl_of s)" using assms by (simp add: status_only_def)
qed

lemma status_only_keeps:
  assumes "status_only x y"
  shows "same_meta x y" "num y k = num x k"
proof -
  have e: "map_option no_status (rs_at y k) = map_option no_status (rs_at x k)" for k using assms by (simp add: status_only_def)
  have "map_option rs_Metadata (rs_at y k) = map_option rs_Metadata (rs_at x k)" for k
    using arg_cong [OF e, of "map_option rs_Metadata" k] by (simp add: option.map_comp comp_def)
  then show "same_meta x y" by (simp add: same_meta_def)
  have "map_option rs_Spec (rs_at y k) = map_option rs_Spec (rs_at x k)"
    using arg_cong [OF e, of "map_option rs_Spec" k] by (simp add: option.map_comp comp_def)
  then show "num y k = num x k" by (auto simp: num_def rs_replicas_def split: option.splits)
qed

section \<open>The replica set controller at rest\<close>

text \<open>
  Where every replica set has as many active pods as it asks for, the replica set controller
  launches and deletes nothing, and reports for each how many of its pods are ready.
\<close>

definition settled :: "('f, 'b) srv_env \<Rightarrow> ('f, 'b) Server \<Rightarrow> ReplicaSet \<Rightarrow> bool" where
  "settled V s rs \<longleftrightarrow> wrap32 (int (active_count rs (ListPods V (rs_ns rs) s))) = rs_desired rs"

definition reported :: "('f, 'b) srv_env \<Rightarrow> ('f, 'b) Server \<Rightarrow> ReplicaSet \<Rightarrow> ReplicaSet" where
  "reported V s rs = rs_with_status (rs_desired rs)
     (wrap32 (int (length (filter (\<lambda>p. pod_active rs p \<and> first_ready p) (ListPods V (rs_ns rs) s))))) rs"

definition same_pods :: "('f, 'b) Server \<Rightarrow> ('f, 'b) Server \<Rightarrow> bool" where
  "same_pods s t \<longleftrightarrow> srv_pods t = srv_pods s \<and> srv_lifecycle t = srv_lifecycle s"

lemma same_pods_list: "same_pods s t \<Longrightarrow> ListPods V ns t = ListPods V ns s"
  by (simp add: ListPods_def allPods_def same_pods_def live_status_same [of t s])

lemma same_pods_store [simp]: "same_pods s (srv_StoreReplicaSet V rs t) = same_pods s t"
  by (simp add: same_pods_def srv_StoreReplicaSet_def on_ctl_def Let_def)

lemma reported_key [simp]: "rs_Metadata (reported V s rs) = rs_Metadata rs"
  by (simp add: reported_def rs_with_status_def)

lemma rs_at_srv_store [simp]:
  "rs_at (ctl_of (srv_StoreReplicaSet V rs s)) k = (if k = rs_key rs then Some rs else rs_at (ctl_of s) k)"
  by (simp add: srv_StoreReplicaSet_def on_ctl_def Let_def)

lemma RS_Reconcile_settled:
  assumes "same_pods s t" "settled V s rs"
  shows "RS_Reconcile (srv_pod_manager V) (srv_StoreReplicaSet V) draw rs t =
    (None, srv_StoreReplicaSet V (reported V s rs) t)"
  using assms(2)
  by (simp add: RS_Reconcile_def scan_pods_start srv_pod_manager_def same_pods_list [OF assms(1)] settled_def
      active_count_def reported_def)

lemma settled_loop:
  assumes "same_pods s t" "\<forall>rs \<in> set rss. rs_at x (rs_key rs) = Some rs \<and> settled V s rs"
    and "t' = snd (rs_reconcile_loop (srv_pod_manager V) (srv_StoreReplicaSet V) draw i rss t)"
  shows "same_pods s t' \<and> (\<forall>k. rs_at (ctl_of t') k =
     (if k \<in> rs_key ` set rss then map_option (reported V s) (rs_at x k) else rs_at (ctl_of t) k))"
  using assms
proof (induction rss arbitrary: i t)
  case (Cons rs rss)
  let ?t = "srv_StoreReplicaSet V (reported V s rs) t"
  have "t' = snd (rs_reconcile_loop (srv_pod_manager V) (srv_StoreReplicaSet V) draw (Suc i) rss ?t)"
    using Cons.prems by (simp add: RS_Reconcile_settled [OF Cons.prems(1)])
  then show ?case using Cons.IH [of ?t "Suc i"] Cons.prems(1,2) by auto
qed simp

lemma rs_at_key: "rs_wf x \<Longrightarrow> rs_at x k = Some rs \<Longrightarrow> rs_key rs = k"
  by (auto simp: rs_wf_def kv_wf_def rs_kv_def rs_at_def)

lemma rs_tick_settled:
  assumes "rs_wf (ctl_of s)" "\<And>rs. rs_at (ctl_of s) (rs_key rs) = Some rs \<Longrightarrow> settled V s rs"
    and "t = snd (rs_tick V draw s)"
  shows "same_pods s t" "rs_at (ctl_of t) k = map_option (reported V s) (rs_at (ctl_of s) k)"
proof -
  have L: "rs \<in> set (srv_ListReplicaSets [] s) \<longleftrightarrow> rs_at (ctl_of s) (rs_key rs) = Some rs" for rs
    using ListReplicaSets_at [OF assms(1)] by (simp add: srv_ListReplicaSets_def)
  have "\<forall>rs \<in> set (srv_ListReplicaSets [] s). rs_at (ctl_of s) (rs_key rs) = Some rs \<and> settled V s rs"
    using L assms(2) by blast
  from settled_loop [OF _ this, of s, OF _ assms(3) [unfolded rs_tick_def RS_ReconcileAll_def]]
  have t: "same_pods s t" "rs_at (ctl_of t) k = (if k \<in> rs_key ` set (srv_ListReplicaSets [] s)
      then map_option (reported V s) (rs_at (ctl_of s) k) else rs_at (ctl_of s) k)"
    by (simp_all add: same_pods_def)
  show "same_pods s t" by (rule t(1))
  have "rs_at (ctl_of s) k = None" if k: "k \<notin> rs_key ` set (srv_ListReplicaSets [] s)"
  proof (rule ccontr)
    assume "rs_at (ctl_of s) k \<noteq> None"
    then obtain rs where rs: "rs_at (ctl_of s) k = Some rs" by blast
    note key = rs_at_key [OF assms(1) rs]
    have "rs \<in> set (srv_ListReplicaSets [] s)" unfolding L key by (rule rs)
    then show False using k key by blast
  qed
  then show "rs_at (ctl_of t) k = map_option (reported V s) (rs_at (ctl_of s) k)" using t(2) by (simp split: if_splits)
qed

section \<open>The deployment controller with one deployment\<close>

definition only_dep :: "Deployment \<Rightarrow> 'b ctl \<Rightarrow> bool" where
  "only_dep dep x \<longleftrightarrow> (\<exists>st. ctl_deployments (fst x) = [(meta_key (dep_Metadata dep), dep\<lparr>dep_Status := st\<rparr>)])"

text \<open>The reconciliation reads nothing of the old status and writes a new one.\<close>

lemma Dep_Reconcile_status: "Dep_Reconcile G enc now (dep\<lparr>dep_Status := st\<rparr>) x = Dep_Reconcile G enc now dep x"
proof -
  have "dep_owner (dep\<lparr>dep_Status := st\<rparr>) = dep_owner dep" "dep_desired (dep\<lparr>dep_Status := st\<rparr>) = dep_desired dep"
      "new_rs (dep\<lparr>dep_Status := st\<rparr>) h n now = new_rs dep h n now" for h n
    by (simp_all add: dep_owner_def dep_desired_def new_rs_def)
  then show ?thesis by (simp add: Dep_Reconcile_def cong: option.case_cong)
qed

lemma dep_tick_one:
  assumes "only_dep dep (ctl_of s)"
  shows "ctl_of (dep_tick V s) = Dep_Reconcile (se_storage V) (se_PodSpec V) (se_Now V (srv_os s)) dep (ctl_of s)"
proof -
  obtain st where "ctl_deployments (srv_controllerStore s) = [(meta_key (dep_Metadata dep), dep\<lparr>dep_Status := st\<rparr>)]"
    using assms by (auto simp: only_dep_def)
  then have "ListDeployments [] (ctl_of s) = [dep\<lparr>dep_Status := st\<rparr>]" by (simp add: ListDeployments_def)
  then show ?thesis by (simp add: dep_tick_def on_ctl_def Let_def Dep_ReconcileAll_def Dep_Reconcile_status)
qed

lemma StoreReplicaSet_deps [simp]: "ctl_deployments (fst (StoreReplicaSet G rs x)) = ctl_deployments (fst x)"
  by (simp add: StoreReplicaSet_def Let_def)

lemma rollout_deps [simp]: "ctl_deployments (fst (rollout G d newRS olds x)) = ctl_deployments (fst x)"
proof -
  have "ctl_deployments (fst (scale_old G left rss x)) = ctl_deployments (fst x)" for left rss and x :: "'a ctl"
    by (induction rss arbitrary: left x) (simp_all add: Let_def)
  then show ?thesis by (simp add: rollout_def Let_def)
qed

lemma only_dep_store: "only_dep dep x \<Longrightarrow> only_dep dep (StoreDeployment G (dep\<lparr>dep_Status := st\<rparr>) x)"
  by (auto simp: only_dep_def StoreDeployment_def Let_def kv_put_def meta_key_def obj_key_def)

lemma only_dep_Reconcile:
  assumes "only_dep dep x"
  shows "only_dep dep (Dep_Reconcile G enc now dep x)"
proof -
  have "only_dep dep y" if "ctl_deployments (fst y) = ctl_deployments (fst x)" for y :: "'a ctl"
    using assms that by (simp add: only_dep_def)
  then show ?thesis
    unfolding Dep_Reconcile_def Let_def case_prod_beta
    by (intro only_dep_store) (simp add: scale_new_def split: option.split)
qed

section \<open>A round\<close>

text \<open>
  After the two controllers have reconciled, the store of the controllers may differ from \<open>s'\<close> in
  nothing, while requests and goroutines may have changed the rest of the server.
\<close>

lemma round_undisturbed:
  assumes "rolling (se_PodSpec V) dep kn ko (ctl_of s)" "only_dep dep (ctl_of s)"
    and "srv_controllerStore s' = srv_controllerStore (snd (rs_tick V draw (dep_tick V s)))"
    and "0 \<le> num_ready (ctl_of s') kn" "num_ready (ctl_of s') kn \<le> num (ctl_of s') kn"
  shows "\<exists>now. undisturbed kn (Dep_Reconcile (se_storage V) (se_PodSpec V) now dep (ctl_of s)) (ctl_of s')"
    and "only_dep dep (ctl_of s')"
proof -
  let ?now = "se_Now V (srv_os s)"
  let ?x = "Dep_Reconcile (se_storage V) (se_PodSpec V) ?now dep (ctl_of s)"
  note d = dep_tick_one [OF assms(2), of V]
  have wf: "rs_wf (ctl_of (dep_tick V s))" unfolding d using assms(1) by (simp add: rolling_def rs_wf_Dep_Reconcile)
  have so: "status_only ?x (ctl_of s')"
    using rs_tick_status_only [OF wf, of V draw] unfolding assms(3) d by (subst status_only_fst)
  show "\<exists>now. undisturbed kn (Dep_Reconcile (se_storage V) (se_PodSpec V) now dep (ctl_of s)) (ctl_of s')"
    using so status_only_keeps [OF so] assms(4,5)
    by (intro exI [of _ ?now]) (simp add: undisturbed_def status_only_def)
  show "only_dep dep (ctl_of s')"
    using only_dep_Reconcile [OF assms(2)] so by (simp add: only_dep_def status_only_def)
qed

section \<open>A run\<close>

text \<open>
  A deployment that wants one replica, whose new replica set has its pod running and ready, and an
  old replica set that is still asked for \<open>m\<close> replicas.
\<close>

definition roll_pod :: Pod where
  "roll_pod = zero_Pod
     \<lparr>pod_Metadata := zero_ObjectMeta\<lparr>om_Name := ''web-5465b825-abcde'', om_Namespace := ''default'',
        om_Annotations := Some [(''lok8s.io/owner'', ''ReplicaSet/web-5465b825'')]\<rparr>,
      pod_Status := zero_PodStatus\<lparr>st_Phase := PodRunning, st_ContainerStatuses :=
        [\<lparr>cs_Name = ''app'', cs_Ready = True, cs_RestartCount = 0, cs_State = ''running'', cs_ExitCode = None\<rparr>]\<rparr>\<rparr>"

definition roll_old :: "int \<Rightarrow> ReplicaSet" where
  "roll_old m = rs_with_status 0 0 (demo_rs ''web-old'' ''old'' m 0)"

definition roll_new :: ReplicaSet where
  "roll_new = rs_with_status 1 1 (demo_rs ''web-5465b825'' ''5465b825'' 1 1)"

definition roll_at :: "int \<Rightarrow> string \<Rightarrow> ReplicaSet option" where
  "roll_at m k = (if k = demo_old then Some (roll_old m) else if k = demo_new then Some roll_new else None)"

definition roll_inv :: "int \<Rightarrow> (unit, mem_db) Server \<Rightarrow> bool" where
  "roll_inv m s \<longleftrightarrow> rs_wf (ctl_of s) \<and> only_dep (demo_dep 1) (ctl_of s) \<and> (\<forall>k. rs_at (ctl_of s) k = roll_at m k) \<and>
     srv_pods s = [(''default/web-5465b825-abcde'', roll_pod)] \<and> srv_lifecycle s = new_daemon ()"

lemma roll_simps:
  "of_dep (demo_dep d) (roll_old m)" "of_dep (demo_dep d) roll_new" "has_hash h (roll_old m) = (h = ''old'')"
  "has_hash h roll_new = (h = ''5465b825'')" "rs_replicas (roll_old m) = m" "rs_replicas roll_new = 1"
  "rs_desired (roll_old m) = m" "rs_desired roll_new = 1" "rst_ReadyReplicas (rs_Status roll_new) = 1"
  "rs_ns (roll_old m) = ''default''" "rs_ns roll_new = ''default''" "rs_key (roll_old m) = demo_old" "rs_key roll_new = demo_new"
  "set_replicas n (roll_old m) = roll_old n"
  by (auto simp: roll_old_def roll_new_def rs_with_status_def of_dep_def dep_owns_def owned_by_def dep_owner_def has_hash_def
      demo_dep_def demo_rs_def mget_def mlookup_def rs_replicas_def rs_desired_def meta_key_def obj_key_def set_replicas_def)

lemma roll_rolling:
  assumes "roll_inv m s" "0 \<le> m"
  shows "rolling demo_marshal (demo_dep 1) demo_new {demo_old} (ctl_of s)"
    "num (ctl_of s) demo_new = 1" "num_ready (ctl_of s) demo_new = 1"
proof -
  have at: "rs_at (ctl_of s) k = roll_at m k" for k using assms(1) by (simp add: roll_inv_def)
  show n: "num (ctl_of s) demo_new = 1" "num_ready (ctl_of s) demo_new = 1"
    by (simp_all add: num_def num_ready_def at roll_at_def roll_simps)
  have o: "num (ctl_of s) demo_old = m" by (simp add: num_def at roll_at_def roll_simps)
  have h: "dep_hash demo_marshal (demo_dep 1) = ''5465b825''" by (simp add: dep_hash_def demo_hash)
  have "{k. \<exists>rs. roll_at m k = Some rs \<and> of_dep (demo_dep 1) rs \<and> has_hash ''5465b825'' rs} = {demo_new}"
    "{k. \<exists>rs. roll_at m k = Some rs \<and> of_dep (demo_dep 1) rs \<and> \<not> has_hash ''5465b825'' rs} = {demo_old}"
    by (auto simp: roll_at_def roll_simps split: if_splits)
  moreover have "rs_wf (ctl_of s)" using assms(1) by (simp add: roll_inv_def)
  ultimately show "rolling demo_marshal (demo_dep 1) demo_new {demo_old} (ctl_of s)"
    using assms(2) unfolding rolling_def h at ball_simps n o demo_dep_simps by simp
qed

lemma roll_dep_at:
  assumes "roll_inv m s" "0 \<le> m"
  shows "rs_at (Dep_Reconcile G demo_marshal now (demo_dep 1) (ctl_of s)) k = roll_at 0 k"
proof -
  let ?x = "ctl_of s"
  have at: "rs_at ?x k = roll_at m k" for k using assms(1) by (simp add: roll_inv_def)
  obtain newRS olds where sp: "split_rss (dep_owner (demo_dep 1)) (dep_hash demo_marshal (demo_dep 1))
      (ListReplicaSets (om_Namespace (dep_Metadata (demo_dep 1))) ?x) None [] = (Some newRS, olds)"
    and n: "rs_at ?x demo_new = Some newRS" and o: "distinct (map rs_key olds)" "rs_key ` set olds = {demo_old}"
    and oat: "\<And>rs. rs \<in> set olds \<Longrightarrow> rs_at ?x (rs_key rs) = Some rs"
    by (rule rolling_split [OF roll_rolling(1) [OF assms]]) blast
  have new: "newRS = roll_new" using n by (simp add: at roll_at_def)
  have "rs = roll_old m" if rs: "rs \<in> set olds" for rs
  proof -
    have key: "rs_key rs = demo_old" using o(2) imageI [OF rs, of rs_key] by blast
    show ?thesis using oat [OF rs] unfolding key at roll_at_def by simp
  qed
  moreover have "length olds = 1"
    using distinct_card [OF o(1)] unfolding set_map o(2) by simp
  ultimately have olds: "olds = [roll_old m]" by (cases olds) auto
  show ?thesis
    using assms(2) Dep_Reconcile_rs_at [OF dep_hash_def sp, of G now k]
    by (cases "m = 0") (simp_all add: new olds rollout_def Let_def roll_simps demo_dep_simps at roll_at_def in32_def)
qed

lemma roll_settled:
  assumes "srv_pods s = [(''default/web-5465b825-abcde'', roll_pod)]" "srv_lifecycle s = new_daemon ()"
  shows "settled demo_V s (roll_old 0)" "settled demo_V s roll_new"
    "reported demo_V s (roll_old 0) = roll_old 0" "reported demo_V s roll_new = roll_new"
proof -
  have "load_pod (new_daemon ()) k = None" for k by (simp add: load_pod_def new_daemon_def NewLifecycleManager_def)
  then have "live_status demo_V s roll_pod = roll_pod" by (simp add: live_status_unmanaged assms(2))
  then have L: "ListPods demo_V ''default'' s = [roll_pod]" by (simp add: ListPods_def allPods_def assms(1)) (simp add: roll_pod_def)
  have a: "pod_active roll_new roll_pod" "first_ready roll_pod" "\<not> pod_active (roll_old m) roll_pod" for m
    by (simp_all add: pod_active_def owned_by_def rs_owner_def roll_new_def roll_old_def rs_with_status_def demo_rs_def
        roll_pod_def mget_def mlookup_def first_ready_def PodRunning_def PodSucceeded_def PodFailed_def)
  have w: "wrap32 0 = 0" "wrap32 1 = 1" by (simp_all add: in32_def)
  show "settled demo_V s (roll_old 0)" "settled demo_V s roll_new"
    by (simp_all add: settled_def roll_simps L active_count_def a w)
  show "reported demo_V s (roll_old 0) = roll_old 0" "reported demo_V s roll_new = roll_new"
    by (simp_all add: reported_def roll_simps L a w) (simp_all add: roll_old_def roll_new_def rs_with_status_def)
qed

abbreviation roll_round :: "(unit, mem_db) Server \<Rightarrow> (unit, mem_db) Server" where
  "roll_round s \<equiv> snd (rs_tick demo_V (\<lambda>k. demo_draw) (dep_tick demo_V s))"

lemma roll_next:
  assumes "roll_inv m s" "0 \<le> m"
  shows "roll_inv 0 (roll_round s)"
proof -
  let ?d = "dep_tick demo_V s"
  have s: "rs_wf (ctl_of s)" "only_dep (demo_dep 1) (ctl_of s)" using assms(1) by (simp_all add: roll_inv_def)
  have V: "se_PodSpec demo_V = demo_marshal" by (simp add: demo_V_def)
  note d = dep_tick_one [OF s(2), of demo_V, unfolded V]
  have wf: "rs_wf (ctl_of ?d)" unfolding d by (rule rs_wf_Dep_Reconcile [OF s(1)])
  have at: "rs_at (ctl_of ?d) k = roll_at 0 k" for k unfolding d by (rule roll_dep_at [OF assms])
  have pods: "srv_pods ?d = [(''default/web-5465b825-abcde'', roll_pod)]" "srv_lifecycle ?d = new_daemon ()"
    using assms(1) by (simp_all add: roll_inv_def dep_tick_def on_ctl_def Let_def)
  have st: "settled demo_V ?d rs" if "rs_at (ctl_of ?d) (rs_key rs) = Some rs" for rs
    using that roll_settled(1,2) [OF pods] unfolding at roll_at_def by (auto split: if_splits)
  note t = rs_tick_settled [OF wf st HOL.refl, of "\<lambda>k. demo_draw"]
  have so: "status_only (ctl_of ?d) (ctl_of (roll_round s))" by (rule rs_tick_status_only [OF wf])
  have "only_dep (demo_dep 1) (ctl_of ?d)" unfolding d by (rule only_dep_Reconcile [OF s(2)])
  then have "rs_wf (ctl_of (roll_round s))" "only_dep (demo_dep 1) (ctl_of (roll_round s))"
    using so by (simp_all add: status_only_def only_dep_def)
  moreover have "rs_at (ctl_of (roll_round s)) k = roll_at 0 k" for k
    using t(2) [of k] by (simp add: at roll_at_def roll_settled(3,4) [OF pods] split: if_splits)
  ultimately show ?thesis using t(1) pods by (simp add: roll_inv_def same_pods_def)
qed

primrec roll_run :: "nat \<Rightarrow> (unit, mem_db) Server" where
  "roll_run 0 = demo_server
     \<lparr>srv_pods := [(''default/web-5465b825-abcde'', roll_pod)],
      srv_controllerStore := \<lparr>ctl_deployments = [(''default/web'', demo_dep 1)],
        ctl_replicaSets = [(demo_old, roll_old 1), (demo_new, roll_new)]\<rparr>\<rparr>"
| "roll_run (Suc i) = roll_round (roll_run i)"

lemma roll_start: "roll_inv 1 (roll_run 0)"
proof -
  have wf: "rs_wf (ctl_of (roll_run 0))"
    by (auto simp: rs_wf_def kv_wf_def rs_kv_def tdistinct_def roll_simps)
  have dep: "only_dep (demo_dep 1) (ctl_of (roll_run 0))"
    unfolding only_dep_def by (rule exI [of _ "dep_Status (demo_dep 1)"]) (simp add: demo_dep_def meta_key_def obj_key_def)
  have "srv_lifecycle demo_server = new_daemon ()" by (simp add: demo_server_def NewServer_def)
  then show ?thesis using wf dep by (simp add: roll_inv_def rs_at_def roll_at_def)
qed

lemma roll_run_inv: "\<exists>m \<ge> 0. roll_inv m (roll_run i)"
proof (induction i)
  case 0
  then show ?case using roll_start by (intro exI [of _ 1]) (simp del: roll_run.simps)
next
  case (Suc i)
  then show ?case using roll_next by auto
qed

section \<open>Properties\<close>



end
