(* ===== verification/Monitor.thy ===== *)
theory Monitor
  imports Daemon
begin

text \<open>
  The goroutine that monitors a pod, together with the goroutines of its probes (\<open>monitor\<close>,
  \<open>newProbeSet\<close> and \<open>probeSet.stop\<close> of \<open>engine/lifecycle.go\<close>, \<open>Run\<close> of \<open>engine/health.go\<close>): each time the
  pod has been started the monitor starts a set of probes under a context of their own, and it stops
  the set when the pod has ended.
\<close>

section \<open>Model\<close>

text \<open>
  Where the goroutine of a probe stands: in its initial delay, at its ticker with its local
  variables, returned, or in the panic of a ticker without a positive period.
\<close>

datatype run_pc = RDelay | RTicking probe_state | RReturned | RPanic

record probe_run =
  run_set :: nat
  run_runner :: ProbeRunner
  run_pc :: run_pc

definition run_ticker :: "ProbeRunner \<Rightarrow> run_pc" where
  "run_ticker pr = (if wrap64 (probePeriod (pr_probe pr) * second) \<le> 0 then RPanic else RTicking probe_init)"

definition run_start :: "ProbeRunner \<Rightarrow> run_pc" where
  "run_start pr = (if wrap64 (pb_InitialDelaySeconds (pr_probe pr) * second) > 0 then RDelay else run_ticker pr)"

text \<open>
  The monitor of a pod: the manager, the probe sets it has made, of which we keep whether \<open>cancel\<close> has
  been called, the variable \<open>probes\<close>, and the goroutines of the probes.
\<close>

record 'w monitored =
  mo_lm :: "'w LifecycleManager"
  mo_sets :: "bool list"
  mo_probes :: nat
  mo_runs :: "probe_run list"

definition newProbeSet :: "managedPod \<Rightarrow> 'w monitored \<Rightarrow> 'w monitored" where
  "newProbeSet mp v =
     v\<lparr>mo_sets := mo_sets v @ [False], mo_probes := length (mo_sets v),
       mo_runs := mo_runs v @
         map (\<lambda>pr. \<lparr>run_set = length (mo_sets v), run_runner = pr, run_pc = run_start pr\<rparr>) (startProbes mp)\<rparr>"

definition probeSet_stop :: "nat \<Rightarrow> 'w monitored \<Rightarrow> 'w monitored" where
  "probeSet_stop i v = v\<lparr>mo_sets := (mo_sets v)[i := True]\<rparr>"

text \<open>The start of the monitor: an engine that is not registered ends it before it has probes.\<close>

definition monitor_begin :: "('w, 'b) lm_env \<Rightarrow> nat \<Rightarrow> 'w LifecycleManager \<Rightarrow> 'w monitored" where
  "monitor_begin E a lm =
     (let v = \<lparr>mo_lm = lm, mo_sets = [], mo_probes = 0, mo_runs = []\<rparr>
      in case get_mp lm a of
           None \<Rightarrow> v
         | Some mp \<Rightarrow>
             (case Registry_Get (le_registry E) (mp_engineType mp) of
                Inl _ \<Rightarrow> v
              | Inr _ \<Rightarrow> newProbeSet mp v))"

text \<open>
  The deferred \<open>probes.stop()\<close> has taken its receiver when it was deferred: it stops the first set.
\<close>

definition monitor_return :: "nat \<Rightarrow> 'w monitored \<Rightarrow> 'w monitored" where
  "monitor_return a v = (if tlookup (lm_monitors (mo_lm v)) a = Some MDone then probeSet_stop 0 v else v)"

definition pod_ended :: "('w, 'b) lm_env \<Rightarrow> nat \<Rightarrow> 'w LifecycleManager \<Rightarrow> bool" where
  "pod_ended E a lm =
     (case (tlookup (lm_monitors lm) a, get_mp lm a) of
        (Some MWait, Some mp) \<Rightarrow>
          (case Registry_Get (le_registry E) (mp_engineType mp) of
             Inl _ \<Rightarrow> False
           | Inr eng \<Rightarrow>
               let phase = eng_Status eng (om_Name (pod_Metadata (mp_pod mp))) (lm_world lm)
               in phase = PodSucceeded \<or> phase = PodFailed)
      | _ \<Rightarrow> False)"

definition mo_tick :: "('w, 'b) lm_env \<Rightarrow> nat \<Rightarrow> 'w monitored \<Rightarrow> 'w monitored" where
  "mo_tick E a v =
     (if pod_ended E a (mo_lm v)
      then monitor_return a ((probeSet_stop (mo_probes v) v)\<lparr>mo_lm := monitor_tick E a (mo_lm v)\<rparr>)
      else v)"

definition mo_restart :: "('w, 'b) lm_env \<Rightarrow> nat \<Rightarrow> 'w monitored \<Rightarrow> 'w monitored" where
  "mo_restart E a v =
     (case (tlookup (lm_monitors (mo_lm v)) a, get_mp (mo_lm v) a) of
        (Some (MBackoff _), Some mp) \<Rightarrow>
          (let v1 = v\<lparr>mo_lm := monitor_restart E a (mo_lm v)\<rparr>
           in if tlookup (lm_monitors (mo_lm v1)) a = Some MWait then newProbeSet mp v1 else monitor_return a v1)
      | _ \<Rightarrow> v)"

definition mo_cancelled :: "nat \<Rightarrow> 'w monitored \<Rightarrow> 'w monitored" where
  "mo_cancelled a v = monitor_return a (v\<lparr>mo_lm := monitor_cancelled a (mo_lm v)\<rparr>)"

text \<open>
  The context of a set is done when the set has been stopped or the context of the pod is
  cancelled.  A probe at its ticker selects between the ticker and the context, at random when both
  are ready: it may check once more, and call back, after its context is done.
\<close>

definition ctx_done :: "nat \<Rightarrow> 'w monitored \<Rightarrow> nat \<Rightarrow> bool" where
  "ctx_done a v i \<longleftrightarrow> mo_sets v ! i \<or> (\<exists>mp. get_mp (mo_lm v) a = Some mp \<and> mp_cancelled mp)"

definition set_run :: "nat \<Rightarrow> run_pc \<Rightarrow> 'w monitored \<Rightarrow> 'w monitored" where
  "set_run j pc v = v\<lparr>mo_runs := (mo_runs v)[j := (mo_runs v ! j)\<lparr>run_pc := pc\<rparr>]\<rparr>"

definition probe_callback :: "('w, 'b) lm_env \<Rightarrow> nat \<Rightarrow> ProbeRunner \<Rightarrow> probe_event \<Rightarrow>
    'w LifecycleManager \<Rightarrow> 'w LifecycleManager" where
  "probe_callback E a pr ev lm =
     (if pr_probeType pr = ''liveness'' then liveness_event E a ev lm else readiness_event E a ev lm)"

definition probe_check :: "('w, 'b) lm_env \<Rightarrow> nat \<Rightarrow> nat \<Rightarrow> probe_env \<Rightarrow> probe_state \<Rightarrow> 'w monitored \<Rightarrow> 'w monitored" where
  "probe_check E a j env u v =
     (let pr = run_runner (mo_runs v ! j);
          (es, u') = probe_tick (failThreshold (pr_probe pr)) (successThreshold (pr_probe pr)) (execute pr env) u
      in set_run j (RTicking u') (v\<lparr>mo_lm := fold (probe_callback E a pr) es (mo_lm v)\<rparr>))"

text \<open>The steps; the last is any step of the manager that is not one of this monitor.\<close>

inductive mo_step :: "('w, 'b) lm_env \<Rightarrow> nat \<Rightarrow> 'w monitored \<Rightarrow> 'w monitored \<Rightarrow> bool"
  for E :: "('w, 'b) lm_env" and a :: nat where
  tick: "mo_step E a v (mo_tick E a v)"
| restart: "mo_step E a v (mo_restart E a v)"
| cancelled: "mo_step E a v (mo_cancelled a v)"
| delay: "j < length (mo_runs v) \<Longrightarrow> run_pc (mo_runs v ! j) = RDelay \<Longrightarrow>
    mo_step E a v (set_run j (run_ticker (run_runner (mo_runs v ! j))) v)"
| check: "j < length (mo_runs v) \<Longrightarrow> run_pc (mo_runs v ! j) = RTicking u \<Longrightarrow> mo_step E a v (probe_check E a j env u v)"
| returns: "j < length (mo_runs v) \<Longrightarrow> run_pc (mo_runs v ! j) \<noteq> RPanic \<Longrightarrow> ctx_done a v (run_set (mo_runs v ! j)) \<Longrightarrow>
    mo_step E a v (set_run j RReturned v)"
| other: "lm_step E (mo_lm v) lm \<Longrightarrow> tlookup (lm_monitors lm) a = tlookup (lm_monitors (mo_lm v)) a \<Longrightarrow>
    mo_step E a v (v\<lparr>mo_lm := lm\<rparr>)"

inductive mo_steps :: "('w, 'b) lm_env \<Rightarrow> nat \<Rightarrow> 'w monitored \<Rightarrow> 'w monitored \<Rightarrow> bool"
  for E :: "('w, 'b) lm_env" and a :: nat and v :: "'w monitored" where
  refl: "mo_steps E a v v"
| step: "mo_steps E a v u \<Longrightarrow> mo_step E a u w \<Longrightarrow> mo_steps E a v w"

section \<open>The pods of the heap\<close>

text \<open>No step forgets a managed pod, changes what it is, or takes its cancellation back.\<close>

definition heap_kept :: "'w LifecycleManager \<Rightarrow> 'w LifecycleManager \<Rightarrow> bool" where
  "heap_kept lm lm' \<longleftrightarrow> (\<forall>a mp. get_mp lm a = Some mp \<longrightarrow>
     (\<exists>mp'. get_mp lm' a = Some mp' \<and> mp_pod mp' = mp_pod mp \<and> mp_engineType mp' = mp_engineType mp \<and>
        (mp_cancelled mp \<longrightarrow> mp_cancelled mp')))"

definition heap_below :: "'w LifecycleManager \<Rightarrow> bool" where
  "heap_below lm \<longleftrightarrow> (\<forall>a mp. get_mp lm a = Some mp \<longrightarrow> a < lm_nextAddr lm)"

lemma heap_kept_refl [simp]: "heap_kept lm lm"
  by (simp add: heap_kept_def)

lemma heap_kept_trans: "heap_kept x y \<Longrightarrow> heap_kept y z \<Longrightarrow> heap_kept x z"
  unfolding heap_kept_def by metis

lemma heap_kept_same: "lm_heap lm' = lm_heap lm \<Longrightarrow> heap_kept lm lm'"
  by (simp add: heap_kept_def get_mp_def)

lemma heap_kept_mp:
  "get_mp lm a = Some mp \<Longrightarrow> lm_heap lm' = tstore a mp' (lm_heap lm) \<Longrightarrow> mp_pod mp' = mp_pod mp \<Longrightarrow>
   mp_engineType mp' = mp_engineType mp \<Longrightarrow> mp_cancelled mp' = mp_cancelled mp \<Longrightarrow> heap_kept lm lm'"
  by (simp add: heap_kept_def get_mp_def)

lemma Launch_heap:
  assumes "heap_below lm" "Launch E pod engineType target env lm = ((r, pod'), lm')"
  shows "heap_kept lm lm' \<and> heap_below lm'"
  using assms(2)
proof (cases rule: Launch_cases)
  case managed
  then show ?thesis using assms(1) by simp
next
  case (no_port e)
  have "lm_heap lm' = lm_heap lm \<and> lm_nextAddr lm' = lm_nextAddr lm" by (subst (1 2) no_port(5)) simp
  then show ?thesis using assms(1) heap_kept_same by (auto simp: heap_below_def get_mp_def)
next
  case (early hostPort pool e w)
  have "lm_heap lm' = lm_heap lm \<and> lm_nextAddr lm' = lm_nextAddr lm" by (simp add: early(4) lm_frame)
  then show ?thesis using assms(1) heap_kept_same by (auto simp: heap_below_def get_mp_def)
next
  case (started hostPort pool containerPort projected w)
  have "lm_nextAddr lm' = Suc (lm_nextAddr lm) \<and> (\<forall>b. b \<noteq> lm_nextAddr lm \<longrightarrow> get_mp lm' b = get_mp lm b)"
  proof (cases r)
    case None
    show ?thesis by (rule start_launch_ok [OF started(4) [unfolded None], simplified]) auto
  next
    case (Some e)
    show ?thesis using start_launch_err(2,4) [OF started(4) [unfolded Some]] by (simp add: get_mp_def)
  qed
  moreover have "a < lm_nextAddr lm" if "get_mp lm a = Some mp" for a mp using assms(1) that by (auto simp: heap_below_def)
  ultimately show ?thesis unfolding heap_kept_def heap_below_def by (metis less_SucI less_irrefl lessI)
qed

lemma Terminate_heap:
  assumes "heap_below lm"
  shows "heap_kept lm (snd (Terminate E ns n lm)) \<and> heap_below (snd (Terminate E ns n lm))"
proof (cases "load_pod lm (podKey ns n)")
  case None
  then show ?thesis using assms Terminate_unmanaged [of lm ns n E] by simp
next
  case (Some am)
  obtain a mp where am: "am = (a, mp)" by (cases am)
  have g: "get_mp lm a = Some mp" using load_podD [OF Some [unfolded am]] by simp
  obtain r lm' where t: "Terminate E ns n lm = (r, lm')" by (meson surj_pair)
  have e: "get_mp lm' b = (if b = a then Some (fst (close_proxy (le_host E) (mp\<lparr>mp_cancelled := True\<rparr>) (lm_world lm)))
      else get_mp lm b)" "lm_nextAddr lm' = lm_nextAddr lm" for b
    using t Some am by (auto simp: Terminate_def Let_def case_prod_beta get_mp_def lm_frame set_mp_def)
  show ?thesis
    using assms g by (auto simp: t e heap_kept_def heap_below_def close_proxy_def Let_def case_prod_beta split: option.splits)
qed

lemma Shutdown_heap:
  assumes "heap_below lm"
  shows "heap_kept lm (LM_Shutdown E lm) \<and> heap_below (LM_Shutdown E lm)"
proof -
  have "heap_kept lm (fold (\<lambda>pod lm. snd (Terminate E (f pod) (g pod) lm)) pods lm) \<and>
      heap_below (fold (\<lambda>pod lm. snd (Terminate E (f pod) (g pod) lm)) pods lm)"
    if "heap_below lm" for pods f g and lm :: "'a LifecycleManager"
    using that
  proof (induction pods arbitrary: lm)
    case (Cons pod pods)
    then show ?case using Terminate_heap [OF Cons.prems, of E "f pod" "g pod"] heap_kept_trans by fastforce
  qed simp
  from this [OF assms] show ?thesis by (simp add: LM_Shutdown_def)
qed

lemma monitor_heap:
  "heap_kept lm (monitor_tick E a lm)" "heap_kept lm (monitor_restart E a lm)" "heap_kept lm (readiness_event E a ev lm)"
  "heap_kept lm (monitor_cancelled a lm)" "heap_kept lm (liveness_event E a ev lm)"
proof -
  show "heap_kept lm (monitor_tick E a lm)" "heap_kept lm (monitor_restart E a lm)" "heap_kept lm (readiness_event E a ev lm)"
    by (cases "get_mp lm a"; auto simp: monitor_tick_def monitor_restart_def readiness_event_def Let_def lm_frame set_mp_def
        intro: heap_kept_same heap_kept_mp split: option.splits monitor_pc.splits sum.splits prod.splits)+
  show "heap_kept lm (monitor_cancelled a lm)" "heap_kept lm (liveness_event E a ev lm)"
    by (auto intro!: heap_kept_same simp: monitor_cancelled_def liveness_event_def lm_frame split: option.splits probe_event.splits)
qed

lemma core_below: "core_same lm lm' \<Longrightarrow> heap_below lm \<Longrightarrow> heap_below lm'"
  by (auto simp: heap_below_def core_same_def) (metis map_option_eq_Some)

lemma watch_heap:
  "heap_kept lm (snd (Watch lm))" "heap_kept lm (lm\<lparr>lm_watchers := ws\<rparr>)" "heap_kept lm (Watch_done i lm)"
  "heap_kept lm (lm\<lparr>lm_world := w\<rparr>)" "Watch_send i pod lm = Some lm' \<Longrightarrow> heap_kept lm lm'"
  by (auto intro!: heap_kept_same simp: Watch_def Watch_done_def Watch_send_def lm_frame split: option.splits if_splits)

lemmas heap_ops = monitor_heap watch_heap core_below [OF tick_core] core_below [OF restart_core] core_below [OF readiness_core]
  core_below [OF other_core(1)] core_below [OF other_core(2)] core_below [OF other_core(3)] core_below [OF other_core(4)]
  core_below [OF other_core(5)] core_below [OF other_core(6)] core_below [OF other_core(7)] Terminate_heap Shutdown_heap

lemma lm_step_heap:
  assumes "lm_step E lm lm'" "heap_below lm"
  shows "heap_kept lm lm' \<and> heap_below lm'"
  using assms(1)
proof cases
  case (launch pod engineType target env)
  then show ?thesis using Launch_heap [OF assms(2)] by (metis prod.collapse)
qed (use assms(2) in \<open>auto intro: heap_ops simp: Terminate_heap Shutdown_heap\<close>)

lemma reachable_below: "reachable E (NewLifecycleManager pool w) lm \<Longrightarrow> heap_below lm"
proof (induction rule: reachable.induct)
  case start
  show ?case by (simp add: heap_below_def NewLifecycleManager_def get_mp_def)
next
  case (step lm lm')
  then show ?case using lm_step_heap by blast
qed

section \<open>The invariant\<close>

abbreviation mo_pc :: "nat \<Rightarrow> 'w monitored \<Rightarrow> monitor_pc option" where
  "mo_pc a v \<equiv> tlookup (lm_monitors (mo_lm v)) a"

text \<open>
  All sets but the current one are stopped; in the backoff that one too, and when the monitor has
  returned no probe has a context that is not done.
\<close>

definition mo_inv :: "nat \<Rightarrow> 'w monitored \<Rightarrow> bool" where
  "mo_inv a v \<longleftrightarrow> heap_below (mo_lm v) \<and> get_mp (mo_lm v) a \<noteq> None \<and>
     (\<forall>r \<in> set (mo_runs v). run_set r < length (mo_sets v)) \<and>
     (\<forall>i < length (mo_sets v). i \<noteq> mo_probes v \<longrightarrow> mo_sets v ! i) \<and>
     (\<forall>n. mo_pc a v = Some (MBackoff n) \<longrightarrow> (\<forall>i < length (mo_sets v). mo_sets v ! i)) \<and>
     (mo_pc a v \<noteq> Some MWait \<longrightarrow> (\<forall>i < length (mo_sets v). ctx_done a v i))"

lemma mo_inv_lm:
  assumes "mo_inv a v" "heap_kept (mo_lm v) lm" "heap_below lm" "tlookup (lm_monitors lm) a = mo_pc a v"
  shows "mo_inv a (v\<lparr>mo_lm := lm\<rparr>)"
proof -
  have "\<exists>mp. get_mp lm a = Some mp" using assms(1,2) unfolding mo_inv_def heap_kept_def by fastforce
  moreover have "ctx_done a (v\<lparr>mo_lm := lm\<rparr>) i" if "ctx_done a v i" for i
    using that assms(2) unfolding ctx_done_def heap_kept_def by fastforce
  ultimately show ?thesis using assms(1,3,4) by (auto simp: mo_inv_def)
qed

lemma mo_inv_run: "mo_inv a v \<Longrightarrow> j < length (mo_runs v) \<Longrightarrow> mo_inv a (set_run j pc v)"
  by (auto simp: mo_inv_def set_run_def ctx_done_def dest!: set_update_subset_insert [THEN subsetD])

lemma nth_stop: "k < length xs \<Longrightarrow> xs[i := True] ! k \<longleftrightarrow> i = k \<or> xs ! k"
  by (cases "i = k") simp_all

lemma mo_inv_stop: "mo_inv a v \<Longrightarrow> mo_inv a (probeSet_stop i v)"
  by (auto simp: mo_inv_def probeSet_stop_def ctx_done_def nth_stop)

lemma mo_inv_return: "mo_inv a v \<Longrightarrow> mo_inv a (monitor_return a v)"
  by (simp add: monitor_return_def mo_inv_stop)

lemma callback_keeps:
  "lm_monitors (probe_callback E a pr ev lm) = lm_monitors lm \<and> heap_kept lm (probe_callback E a pr ev lm) \<and>
   (heap_below lm \<longrightarrow> heap_below (probe_callback E a pr ev lm))"
proof -
  have "lm_monitors (liveness_event E a ev lm) = lm_monitors lm" "lm_monitors (readiness_event E a ev lm) = lm_monitors lm"
    by (simp_all add: readiness_event_def liveness_event_def Let_def lm_frame split: option.splits probe_event.splits)
  then show ?thesis by (simp add: probe_callback_def heap_ops)
qed

lemma callbacks_keep:
  "lm_monitors (fold (probe_callback E a pr) es lm) = lm_monitors lm \<and> heap_kept lm (fold (probe_callback E a pr) es lm) \<and>
   (heap_below lm \<longrightarrow> heap_below (fold (probe_callback E a pr) es lm))"
proof (induction es arbitrary: lm)
  case (Cons ev es)
  let ?lm = "probe_callback E a pr ev lm"
  show ?case
    using Cons [of ?lm] callback_keeps [of E a pr ev lm] heap_kept_trans [of lm ?lm] by simp
qed simp

lemma monitor_tick_pc:
  assumes "pod_ended E a lm"
  shows "\<exists>pc. tlookup (lm_monitors (monitor_tick E a lm)) a = Some pc \<and> pc \<noteq> MWait"
  using assms
  by (auto simp: pod_ended_def monitor_tick_def Let_def set_pc_def split: option.splits monitor_pc.splits sum.splits)

lemma mo_inv_tick:
  assumes "mo_inv a v"
  shows "mo_inv a (mo_tick E a v)"
proof (cases "pod_ended E a (mo_lm v)")
  case True
  let ?lm = "monitor_tick E a (mo_lm v)" and ?v = "probeSet_stop (mo_probes v) v"
  have all: "\<forall>i < length (mo_sets ?v). mo_sets ?v ! i"
    using assms by (auto simp: mo_inv_def probeSet_stop_def nth_stop)
  have k: "heap_kept (mo_lm v) ?lm" "heap_below ?lm" using assms by (simp_all add: mo_inv_def heap_ops)
  have "\<exists>mp. get_mp ?lm a = Some mp" using assms k(1) unfolding mo_inv_def heap_kept_def by fastforce
  moreover have "\<forall>r \<in> set (mo_runs v). run_set r < length (mo_sets v)" using assms by (simp add: mo_inv_def)
  ultimately have "mo_inv a (?v\<lparr>mo_lm := ?lm\<rparr>)"
    using all k(2) by (simp add: mo_inv_def ctx_done_def) (simp add: probeSet_stop_def)
  then show ?thesis using True by (simp add: mo_tick_def mo_inv_return)
qed (use assms in \<open>simp add: mo_tick_def\<close>)

lemma mo_inv_restart:
  assumes "mo_inv a v"
  shows "mo_inv a (mo_restart E a v)"
proof (cases "mo_pc a v")
  case (Some pc)
  show ?thesis
  proof (cases pc)
    case (MBackoff n)
    let ?lm = "monitor_restart E a (mo_lm v)"
    obtain mp where mp: "get_mp (mo_lm v) a = Some mp" using assms by (auto simp: mo_inv_def)
    have all: "\<forall>i < length (mo_sets v). mo_sets v ! i" using assms Some MBackoff by (auto simp: mo_inv_def)
    have k: "heap_kept (mo_lm v) ?lm" "heap_below ?lm" using assms by (simp_all add: mo_inv_def heap_ops)
    have g: "\<exists>mp. get_mp ?lm a = Some mp" using assms k(1) unfolding mo_inv_def heap_kept_def by fastforce
    have r: "\<forall>r \<in> set (mo_runs v). run_set r < length (mo_sets v)" using assms by (simp add: mo_inv_def)
    have "mo_inv a (newProbeSet mp (v\<lparr>mo_lm := ?lm\<rparr>))" if "tlookup (lm_monitors ?lm) a = Some MWait"
      using all k(2) g r that by (auto simp: mo_inv_def newProbeSet_def nth_append)
    moreover have "mo_inv a (v\<lparr>mo_lm := ?lm\<rparr>)" using all k(2) g r by (simp add: mo_inv_def ctx_done_def)
    ultimately show ?thesis using Some MBackoff mp by (simp add: mo_restart_def Let_def mo_inv_return)
  qed (use assms Some in \<open>simp_all add: mo_restart_def\<close>)
qed (use assms in \<open>simp add: mo_restart_def\<close>)

lemma mo_inv_cancelled:
  assumes "mo_inv a v"
  shows "mo_inv a (mo_cancelled a v)"
proof -
  let ?lm = "monitor_cancelled a (mo_lm v)"
  obtain mp where mp: "get_mp (mo_lm v) a = Some mp" using assms by (auto simp: mo_inv_def)
  have g: "get_mp ?lm a = Some mp" using mp by (simp add: monitor_cancelled_def get_mp_def lm_frame)
  have b: "heap_below ?lm" using assms by (simp add: mo_inv_def heap_ops)
  have "mo_inv a (v\<lparr>mo_lm := ?lm\<rparr>)"
  proof (cases "mp_cancelled mp")
    case True
    have "tlookup (lm_monitors ?lm) a = Some MDone" using mp True by (simp add: monitor_cancelled_def set_pc_def)
    then show ?thesis using assms g b True by (auto simp: mo_inv_def ctx_done_def)
  next
    case False
    then show ?thesis using assms mp by (simp add: monitor_cancelled_def)
  qed
  then show ?thesis by (simp add: mo_cancelled_def mo_inv_return)
qed

lemma mo_inv_step:
  assumes "mo_step E a v w" "mo_inv a v"
  shows "mo_inv a w"
  using assms(1)
proof cases
  case (check j u env)
  obtain es u' where t: "probe_tick (failThreshold (pr_probe (run_runner (mo_runs v ! j))))
      (successThreshold (pr_probe (run_runner (mo_runs v ! j)))) (execute (run_runner (mo_runs v ! j)) env) u = (es, u')"
    by (meson surj_pair)
  have "mo_inv a (v\<lparr>mo_lm := fold (probe_callback E a (run_runner (mo_runs v ! j))) es (mo_lm v)\<rparr>)"
    using assms(2) callbacks_keep [of E a "run_runner (mo_runs v ! j)" es "mo_lm v"]
    by (intro mo_inv_lm) (auto simp: mo_inv_def)
  then show ?thesis using check by (simp add: probe_check_def Let_def t mo_inv_run)
next
  case (other lm)
  have b: "heap_below (mo_lm v)" using assms(2) by (simp add: mo_inv_def)
  show ?thesis using lm_step_heap [OF other(2) b] other(3) mo_inv_lm [OF assms(2)] unfolding other(1) by blast
qed (use assms(2) mo_inv_tick mo_inv_restart mo_inv_cancelled mo_inv_run in auto)

text \<open>It holds when \<open>Launch\<close> has started the monitor.\<close>

lemma start_launch_finished:
  assumes "start_launch E key pod engineType target env hostPort containerPort projected lm = (None, lm')"
  obtains mp lm2 where "lm' = finish_launch E key pod hostPort containerPort (lm_nextAddr lm) mp lm2"
    "mp_engineType mp = engineType" "lm_monitors lm2 = lm_monitors lm"
  using assms by (auto simp: start_launch_def Let_def case_prod_beta lm_frame split: option.splits sum.splits prod.splits)

lemma finish_launch_monitor:
  "tlookup (lm_monitors (finish_launch E key pod hostPort containerPort a mp lm)) b =
   (if b = a then Some (case Registry_Get (le_registry E) (mp_engineType mp) of Inl _ \<Rightarrow> MDone | Inr _ \<Rightarrow> MWait)
    else tlookup (lm_monitors lm) b)"
  by (simp add: finish_launch_def Let_def case_prod_beta lm_frame)

lemma Launch_monitor:
  assumes "Launch E pod engineType target env lm0 = ((None, pod'), lm)"
  shows "\<exists>mp. get_mp lm (lm_nextAddr lm0) = Some mp \<and> mp_engineType mp = engineType \<and>
    (\<forall>b. tlookup (lm_monitors lm) b = (if b = lm_nextAddr lm0
       then Some (case Registry_Get (le_registry E) engineType of Inl _ \<Rightarrow> MDone | Inr _ \<Rightarrow> MWait)
       else tlookup (lm_monitors lm0) b))"
  using assms
proof (cases rule: Launch_cases)
  case (started hostPort pool containerPort projected w)
  let ?lm = "lm0\<lparr>lm_portPool := pool, lm_world := w\<rparr>"
  obtain mp where mp: "get_mp lm (lm_nextAddr lm0) = Some mp" "mp_engineType mp = engineType"
    by (rule start_launch_ok [OF started(4)]) (simp add: launched_def)
  moreover have "tlookup (lm_monitors lm) b = (if b = lm_nextAddr lm0
       then Some (case Registry_Get (le_registry E) engineType of Inl _ \<Rightarrow> MDone | Inr _ \<Rightarrow> MWait)
       else tlookup (lm_monitors lm0) b)" for b
    by (rule start_launch_finished [OF started(4)]) (simp add: finish_launch_monitor)
  ultimately show ?thesis by blast
qed simp_all

lemma mo_inv_begin:
  assumes "heap_below lm0" "Launch E pod engineType target env lm0 = ((None, pod'), lm)"
  shows "mo_inv (lm_nextAddr lm0) (monitor_begin E (lm_nextAddr lm0) lm)"
proof -
  obtain mp where mp: "get_mp lm (lm_nextAddr lm0) = Some mp" "mp_engineType mp = engineType"
    "tlookup (lm_monitors lm) (lm_nextAddr lm0) =
      Some (case Registry_Get (le_registry E) engineType of Inl _ \<Rightarrow> MDone | Inr _ \<Rightarrow> MWait)"
    using Launch_monitor [OF assms(2)] by auto
  have "heap_below lm" using Launch_heap [OF assms] by blast
  then show ?thesis
    using mp by (auto simp: mo_inv_def monitor_begin_def newProbeSet_def Let_def split: sum.splits)
qed

lemma mo_inv_steps: "mo_steps E a v w \<Longrightarrow> mo_inv a v \<Longrightarrow> mo_inv a w"
  by (induction rule: mo_steps.induct) (blast intro: mo_inv_step)+

section \<open>The end of the probes\<close>

definition run_over :: "probe_run \<Rightarrow> bool" where
  "run_over r \<longleftrightarrow> run_pc r = RReturned \<or> run_pc r = RPanic"

lemma set_run_simps [simp]:
  "mo_lm (set_run j pc v) = mo_lm v" "mo_sets (set_run j pc v) = mo_sets v" "length (mo_runs (set_run j pc v)) = length (mo_runs v)"
  "i \<noteq> j \<Longrightarrow> mo_runs (set_run j pc v) ! i = mo_runs v ! i"
  "j < length (mo_runs v) \<Longrightarrow> mo_runs (set_run j pc v) ! j = (mo_runs v ! j)\<lparr>run_pc := pc\<rparr>"
  by (simp_all add: set_run_def)

lemma ctx_done_cong: "mo_lm w = mo_lm v \<Longrightarrow> mo_sets w = mo_sets v \<Longrightarrow> ctx_done a w i = ctx_done a v i"
  by (simp add: ctx_done_def)

lemma runs_return:
  assumes "\<forall>r \<in> set (mo_runs v). ctx_done a v (run_set r)" "k \<le> length (mo_runs v)"
  shows "\<exists>w. mo_steps E a v w \<and> mo_lm w = mo_lm v \<and> mo_sets w = mo_sets v \<and> length (mo_runs w) = length (mo_runs v) \<and>
    (\<forall>j < k. run_over (mo_runs w ! j)) \<and> (\<forall>j. k \<le> j \<longrightarrow> mo_runs w ! j = mo_runs v ! j)"
  using assms(2)
proof (induction k)
  case 0
  then show ?case using mo_steps.refl by blast
next
  case (Suc k)
  then obtain w where w: "mo_steps E a v w" "mo_lm w = mo_lm v" "mo_sets w = mo_sets v" "length (mo_runs w) = length (mo_runs v)"
    "\<forall>j < k. run_over (mo_runs w ! j)" "\<forall>j. k \<le> j \<longrightarrow> mo_runs w ! j = mo_runs v ! j" by auto
  show ?case
  proof (cases "run_pc (mo_runs w ! k) = RPanic")
    case True
    then have "\<forall>j < Suc k. run_over (mo_runs w ! j)" using w(5) by (auto simp: run_over_def less_Suc_eq)
    then show ?thesis using w by (intro exI [of _ w]) simp
  next
    case False
    let ?u = "set_run k RReturned w"
    have "ctx_done a w (run_set (mo_runs w ! k))"
      using assms(1) Suc.prems w(6) ctx_done_cong [OF w(2,3)] by (simp add: nth_mem)
    then have "mo_step E a w ?u" using False Suc.prems w(4) by (intro mo_step.returns) simp_all
    then have "mo_steps E a v ?u" by (rule mo_steps.step [OF w(1)])
    moreover have "run_over (mo_runs ?u ! j)" if "j < Suc k" for j
      using that w(4,5) Suc.prems by (cases "j = k") (simp_all add: run_over_def)
    ultimately show ?thesis using w by (intro exI [of _ ?u]) simp
  qed
qed

lemma all_return:
  assumes "\<forall>r \<in> set (mo_runs v). ctx_done a v (run_set r)"
  shows "\<exists>w. mo_steps E a v w \<and> mo_lm w = mo_lm v \<and> (\<forall>r \<in> set (mo_runs w). run_over r)"
  using runs_return [OF assms order_refl, of E] by (metis in_set_conv_nth)

section \<open>A probe that outlives its pod\<close>

lemma load_pod_world: "load_pod (lm\<lparr>lm_world := w\<rparr>) k = load_pod lm k"
  by (simp add: load_pod_def get_mp_def cong: option.case_cong)

lemma Launch_native:
  assumes "Launch (daemon_env H fuel cfg) pod ''native'' target env lm0 = ((None, pod'), lm)"
  shows "\<exists>mp p. load_pod lm (pod_key pod) = Some (lm_nextAddr lm0, mp) \<and> \<not> mp_cancelled mp \<and>
    tlookup (ne_procs (w_native (lm_world lm))) (om_Name (pod_Metadata pod)) = Some p \<and> np_phase p = PodRunning"
  using assms
proof (cases rule: Launch_cases)
  case (started hostPort pool containerPort projected w)
  obtain mp where mp: "load_pod lm (pod_key pod) = Some (lm_nextAddr lm0, mp)" "\<not> mp_cancelled mp" "mp_engineType mp = ''native''"
    by (rule start_launch_ok [OF started(4)]) (simp add: launched_def load_pod_def)
  have "Native_Status (om_Name (pod_Metadata pod)) (w_native (lm_world lm)) = PodRunning"
    using Launch_runs [OF assms] mp
    by (auto simp: LM_Status_def pod_key_def daemon_env_def daemon_registry_get native_eng_def Let_def split: list.splits)
  then show ?thesis
    using mp by (auto simp: Native_Status_def PodPending_def PodRunning_def split: option.splits)
qed simp_all

section \<open>Properties\<close>

text \<open>C16: The probes of a pod.  From the launch of a pod on, whatever its monitor, its probes, the other
  goroutines and the requests do in whatever order: all probes whose context is not done are of one
  set, so that a pod is never probed for two of its starts at once; while the pod waits for a
  restart and when its monitor has returned, the context of every probe is done, and then all of
  them can return without calling back.\<close>

theorem monitor_stops_probes:
  assumes "reachable E (NewLifecycleManager pool w0) lm0" "Launch E pod engineType target env lm0 = ((None, pod'), lm)"
    and "a = lm_nextAddr lm0" "mo_steps E a (monitor_begin E a lm) v"
  shows "(\<forall>r \<in> set (mo_runs v). \<forall>r' \<in> set (mo_runs v).
       \<not> ctx_done a v (run_set r) \<and> \<not> ctx_done a v (run_set r') \<longrightarrow> run_set r = run_set r') \<and>
    (mo_pc a v \<noteq> Some MWait \<longrightarrow> (\<forall>r \<in> set (mo_runs v). ctx_done a v (run_set r)) \<and>
       (\<exists>w. mo_steps E a v w \<and> mo_lm w = mo_lm v \<and> (\<forall>r \<in> set (mo_runs w). run_over r)))"
proof -
  have inv: "mo_inv a v"
    using mo_inv_steps [OF assms(4)] mo_inv_begin [OF reachable_below [OF assms(1)] assms(2)] assms(3) by simp
  have cur: "run_set r = mo_probes v" if "r \<in> set (mo_runs v)" "\<not> ctx_done a v (run_set r)" for r
    using inv that by (auto simp: mo_inv_def ctx_done_def)
  have "run_set r = run_set r'"
    if "r \<in> set (mo_runs v)" "r' \<in> set (mo_runs v)" "\<not> ctx_done a v (run_set r)" "\<not> ctx_done a v (run_set r')" for r r'
    using cur [OF that(1,3)] cur [OF that(2,4)] by simp
  moreover have "\<forall>r \<in> set (mo_runs v). ctx_done a v (run_set r)" if "mo_pc a v \<noteq> Some MWait"
    using inv that by (auto simp: mo_inv_def)
  ultimately show ?thesis using all_return [of v a E] by blast
qed

definition probe_pod :: Pod where
  "probe_pod = (demo_pod ''default'' ''web'')\<lparr>pod_Spec := zero_PodSpec\<lparr>ps_Containers := [zero_Container\<lparr>c_Name := ''main'',
     c_LivenessProbe := Some \<lparr>pb_HTTPGet = Some \<lparr>hg_Path = ''/'', hg_Port = 80, hg_Scheme = []\<rparr>, pb_TCPSocket = None,
       pb_Exec = None, pb_InitialDelaySeconds = 0, pb_PeriodSeconds = 5, pb_TimeoutSeconds = 0,
       pb_FailureThreshold = 1, pb_SuccessThreshold = 0\<rparr>\<rparr>]\<rparr>\<rparr>"

lemma probe_launch:
  assumes "lm_pods lm = []" "w_native (lm_world lm) = NewNativeEngine"
  shows "fst (fst (Launch demo_env probe_pod ''native'' ''app'' [] lm)) = None"
proof -
  have p: "\<not> wants_port probe_pod" "pod_key probe_pod = ''default/web''" "om_UID (pod_Metadata probe_pod) = ''u1''"
    "ps_Volumes (pod_Spec probe_pod) = []" "ps_InitContainers (pod_Spec probe_pod) = []"
    "om_Annotations (pod_Metadata probe_pod) = None"
    by (simp_all add: probe_pod_def demo_pod_def pod_key_def podKey_def wants_port_def zero_PodSpec_def zero_ObjectMeta_def
        zero_Container_def)
  have "fst (Native_Start demo_host 1 (set_host_port h probe_pod) ''app'' env [] (NewNativeEngine, f)) = None" for h env f
    by (simp add: Native_Start_def set_host_port_def resolveExecutable_def exec_candidates_def demo_host_def
        NewNativeEngine_def first_mounts_def probe_pod_def demo_pod_def zero_Container_def native_args_def)
  then obtain e where "Native_Start demo_host 1 (set_host_port 0 probe_pod) ''app'' [] [] (NewNativeEngine, w_os (lm_world lm)) = (None, e)"
    by (metis prod.collapse)
  then show ?thesis
    using p assms
    by (cases e) (simp add: Launch_def Let_def container_port_def set_host_port_def mlookup_def ProjectVolumes_def start_launch_def
      demo_env_def daemon_env_def daemon_registry_get native_eng_def lm_frame)
qed

abbreviation probe_lm :: "unit World LifecycleManager" where
  "probe_lm \<equiv> snd (Launch demo_env probe_pod ''native'' ''app'' [] (new_daemon ()))"

abbreviation probe_deleted :: "unit World monitored" where
  "probe_deleted \<equiv> mo_cancelled 0 ((monitor_begin demo_env 0 probe_lm)\<lparr>mo_lm := snd (Terminate demo_env ''default'' ''web'' probe_lm)\<rparr>)"

lemma new_daemon_simps: "lm_pods (new_daemon ()) = []" "w_native (lm_world (new_daemon ())) = NewNativeEngine" "lm_nextAddr (new_daemon ()) = 0"
  by (simp_all add: new_daemon_def NewLifecycleManager_def)

lemma probe_key: "pod_key probe_pod = podKey ''default'' ''web''"
  by (simp add: probe_pod_def demo_pod_def pod_key_def)

lemma probe_launched:
  obtains pod' mp where "Launch demo_env probe_pod ''native'' ''app'' [] (new_daemon ()) = ((None, pod'), probe_lm)"
    "load_pod probe_lm (podKey ''default'' ''web'') = Some (0, mp)" "startProbes mp \<noteq> []" "mp_engineType mp = ''native''"
proof -
  obtain pod' where l: "Launch demo_env probe_pod ''native'' ''app'' [] (new_daemon ()) = ((None, pod'), probe_lm)"
    using probe_launch [OF new_daemon_simps(1,2)] by (metis prod.collapse)
  obtain mp where mp: "load_pod probe_lm (pod_key probe_pod) = Some (0, mp)" "mp_engineType mp = ''native''"
      "\<exists>h. mp_pod mp = set_host_port h probe_pod"
    by (rule Launch_ok [OF demo_inv l]) (auto simp: launched_def new_daemon_simps)
  have "pod_Spec (mp_pod mp) = pod_Spec probe_pod" using mp(3) by (auto simp: set_host_port_def)
  then have "startProbes mp \<noteq> []" by (simp add: startProbes_def) (simp add: probe_pod_def)
  then show thesis using that [OF l] mp by (simp add: probe_key)
qed

theorem monitor_stops_probes_witness:
  "length (mo_runs probe_deleted) > 0 \<and> list_all (\<lambda>r. ctx_done 0 probe_deleted (run_set r)) (mo_runs probe_deleted) \<and>
   (\<exists>w. mo_steps demo_env 0 probe_deleted w \<and> list_all run_over (mo_runs w))"
proof (rule probe_launched)
  fix pod' mp
  assume l: "Launch demo_env probe_pod ''native'' ''app'' [] (new_daemon ()) = ((None, pod'), probe_lm)"
    and mp: "load_pod probe_lm (podKey ''default'' ''web'') = Some (0, mp)" "startProbes mp \<noteq> []" "mp_engineType mp = ''native''"
  let ?v = "monitor_begin demo_env 0 probe_lm" and ?t = "snd (Terminate demo_env ''default'' ''web'' probe_lm)"
  have g: "get_mp probe_lm 0 = Some mp" using load_podD [OF mp(1)] by simp
  have reg: "Registry_Get (le_registry demo_env) ''native'' = Inr (native_eng demo_host 1)"
    by (simp add: demo_env_def daemon_env_def daemon_registry_get)
  obtain mp' where t: "get_mp ?t 0 = Some mp'" "mp_cancelled mp'" "lm_monitors ?t = lm_monitors probe_lm"
    by (rule Terminate_managed [OF mp(1) prod.collapse [symmetric], of demo_env]) blast
  have v: "mo_lm ?v = probe_lm" "length (mo_runs ?v) > 0"
    using g mp(2,3) reg by (simp_all add: monitor_begin_def newProbeSet_def Let_def)
  have "mo_step demo_env 0 ?v (?v\<lparr>mo_lm := ?t\<rparr>)"
    using lm_step.terminate [of demo_env probe_lm "''default''" "''web''"] t(3) by (intro mo_step.other) (simp_all add: v(1))
  then have "mo_steps demo_env 0 ?v (?v\<lparr>mo_lm := ?t\<rparr>)" by (rule mo_steps.step [OF mo_steps.refl])
  then have s: "mo_steps demo_env 0 ?v probe_deleted" by (rule mo_steps.step [OF _ mo_step.cancelled])
  have "mo_pc 0 probe_deleted = Some MDone"
    using t(1,2) by (simp add: mo_cancelled_def monitor_return_def monitor_cancelled_def probeSet_stop_def set_pc_def)
  moreover have "mo_runs probe_deleted = mo_runs ?v"
    by (simp add: mo_cancelled_def monitor_return_def probeSet_stop_def)
  moreover have re: "reachable demo_env (NewLifecycleManager (NewPortPool 30000 32767)
      \<lparr>w_native = NewNativeEngine, w_wasm = NewWasmEngine, w_os = ()\<rparr>) (new_daemon ())"
    unfolding new_daemon_def by (rule reachable.start)
  ultimately show ?thesis
    using monitor_stops_probes [OF re l new_daemon_simps(3) [symmetric] s] v(2) by (auto simp: list_all_iff)
qed

text \<open>C40: A probe can outlive its pod.  The probes of a terminated pod have a context that is done, but the
  check that is under way then fails, and a liveness probe that this brings to its threshold stops
  what runs under the name of its pod.  If another pod of that name has been launched in the
  meantime, it is the process of that pod which is killed, while its monitor and its record know
  nothing of it.\<close>

theorem stale_probe_kills_successor:
  assumes "heap_below (mo_lm v)" "get_mp (mo_lm v) a = Some mp" "mp_cancelled mp" "mp_engineType mp = ''native''"
    and "j < length (mo_runs v)" "run_pc (mo_runs v ! j) = RTicking u" "run_runner (mo_runs v ! j) = pr"
    and "pr_probeType pr = ''liveness''" "\<not> pv_failed u" "failThreshold (pr_probe pr) \<le> wrap64 (pv_fails u + 1)"
    and "\<not> execute pr penv"
    and "om_Name (pod_Metadata pod) = om_Name (pod_Metadata (mp_pod mp))"
    and "Launch (daemon_env H fuel cfg) pod ''native'' target env (mo_lm v) = ((None, pod'), lm)"
  shows "\<exists>w mp' p. mo_steps (daemon_env H fuel cfg) a v w \<and> load_pod (mo_lm w) (pod_key pod) = Some (lm_nextAddr (mo_lm v), mp') \<and>
    \<not> mp_cancelled mp' \<and> mo_pc (lm_nextAddr (mo_lm v)) w = Some MWait \<and>
    tlookup (ne_procs (w_native (lm_world (mo_lm w)))) (om_Name (pod_Metadata pod)) = Some p \<and> np_cancelled p"
proof -
  let ?E = "daemon_env H fuel cfg" and ?v = "v\<lparr>mo_lm := lm\<rparr>" and ?n = "om_Name (pod_Metadata pod)"
  obtain mp' p where new: "load_pod lm (pod_key pod) = Some (lm_nextAddr (mo_lm v), mp')" "\<not> mp_cancelled mp'"
    "tlookup (ne_procs (w_native (lm_world lm))) ?n = Some p"
    using Launch_native [OF assms(13)] by blast
  have reg: "Registry_Get (le_registry ?E) ''native'' = Inr (native_eng H fuel)" by (simp add: daemon_env_def daemon_registry_get)
  have pc: "tlookup (lm_monitors lm) b = (if b = lm_nextAddr (mo_lm v) then Some MWait else tlookup (lm_monitors (mo_lm v)) b)" for b
    using Launch_monitor [OF assms(13)] reg by auto
  have "a \<noteq> lm_nextAddr (mo_lm v)" using assms(1,2) by (auto simp: heap_below_def)
  moreover have "lm_step ?E (mo_lm v) lm" using lm_step.launch [of ?E "mo_lm v" pod "''native''" target env] assms(13) by simp
  ultimately have "mo_step ?E a v ?v" using pc by (intro mo_step.other) simp_all
  then have 1: "mo_steps ?E a v ?v" by (rule mo_steps.step [OF mo_steps.refl])
  obtain mq where mq: "get_mp lm a = Some mq" "mp_pod mq = mp_pod mp" "mp_engineType mq = ''native''"
    using Launch_heap [OF assms(1,13)] assms(2,4) unfolding heap_kept_def by fastforce
  let ?w = "probe_check ?E a j penv u ?v"
  have "mo_step ?E a ?v ?w" using assms(5,6) by (intro mo_step.check) simp_all
  then have 2: "mo_steps ?E a v ?w" by (rule mo_steps.step [OF 1])
  have w: "mo_lm ?w = lm\<lparr>lm_world := snd (eng_Stop (native_eng H fuel) ?n (lm_world lm))\<rparr>"
    using assms(7-12) mq reg
    by (simp add: probe_check_def probe_tick_def Let_def probe_callback_def liveness_event_def stop_engine_def)
  show ?thesis
    using 2 w new pc
    by (intro exI [of _ ?w] exI [of _ mp'] exI [of _ "p\<lparr>np_cancelled := True\<rparr>"])
      (simp add: load_pod_world native_eng_def Native_Stop_def)
qed

definition stale_runner :: ProbeRunner where
  "stale_runner = NewProbeRunner (the (c_LivenessProbe (hd (ps_Containers (pod_Spec probe_pod))))) ''web'' ''liveness''"

definition stale_pod :: managedPod where
  "stale_pod = \<lparr>mp_pod = probe_pod, mp_engineType = ''native'', mp_target = ''app'', mp_env = [], mp_cancelled = True,
     mp_logBuffer = NewRingBuffer 1, mp_stdout = NewPrefixWriter [], mp_stderr = NewPrefixWriter [], mp_restartCount = 0,
     mp_ready = True, mp_hostPort = 0, mp_proxy = None, mp_projectedVolumes = []\<rparr>"

definition stale_state :: "unit World monitored" where
  "stale_state = \<lparr>mo_lm = (new_daemon ())\<lparr>lm_heap := [(0, stale_pod)], lm_nextAddr := 1\<rparr>, mo_sets = [True], mo_probes = 0,
     mo_runs = [\<lparr>run_set = 0, run_runner = stale_runner, run_pc = RTicking probe_init\<rparr>]\<rparr>"

theorem stale_probe_kills_successor_witness:
  "\<exists>w mp' p. mo_steps demo_env 0 stale_state w \<and> load_pod (mo_lm w) ''default/web'' = Some (1, mp') \<and> \<not> mp_cancelled mp' \<and>
     mo_pc 1 w = Some MWait \<and> tlookup (ne_procs (w_native (lm_world (mo_lm w)))) ''web'' = Some p \<and> np_cancelled p"
proof -
  have lm: "lm_pods (mo_lm stale_state) = []" "w_native (lm_world (mo_lm stale_state)) = NewNativeEngine"
    "lm_nextAddr (mo_lm stale_state) = 1" "get_mp (mo_lm stale_state) b = (if b = 0 then Some stale_pod else None)" for b
    by (simp_all add: stale_state_def new_daemon_simps get_mp_def)
  obtain pod' lm' where l: "Launch (daemon_env demo_host 1 empty_cfg) probe_pod ''native'' ''app'' [] (mo_lm stale_state) = ((None, pod'), lm')"
    using probe_launch [OF lm(1,2)] unfolding demo_env_def by (metis prod.collapse)
  have n: "om_Name (pod_Metadata probe_pod) = ''web''" "pod_key probe_pod = ''default/web''"
    by (simp_all add: probe_pod_def demo_pod_def pod_key_def podKey_def)
  have r: "pr_probeType stale_runner = ''liveness''" "failThreshold (pr_probe stale_runner) = 1" "\<not> execute stale_runner down_env"
    by (simp_all add: stale_runner_def NewProbeRunner_def probe_pod_def failThreshold_def execute_def runHTTPProbe_def down_env_def)
  show ?thesis
    using stale_probe_kills_successor [of stale_state 0 stale_pod 0 probe_init stale_runner down_env probe_pod demo_host 1 empty_cfg, OF _ _ _ _ _ _ _ _ _ _ _ _ l]
    by (simp add: lm heap_below_def n r demo_env_def)
      (simp add: stale_state_def stale_pod_def probe_init_def n in64_def)
qed

end
